theory Spec2Isabelle
  imports Complex_Main "HOL-Library.Multiset" "HOL-Library.Product_Lexorder"
begin

section \<open>Numbers and JavaScript truthiness\<close>

text \<open>
  The API is TypeScript. A JavaScript \<^verbatim>\<open>number\<close> is modelled as an exact \<^typ>\<open>real\<close>:
  rounding errors of IEEE doubles, \<^verbatim>\<open>NaN\<close> and the infinities are outside the model, and a
  division by zero (which the schemas of the API exclude by demanding positive factors) has
  HOL's value \<open>0\<close>. A nullable or optional value is an \<^typ>\<open>'a option\<close>, with \<open>None\<close> for
  \<^verbatim>\<open>null\<close> and \<^verbatim>\<open>undefined\<close>, wherever the source treats the two alike.

  The source tests many values for truthiness (\<^verbatim>\<open>if (x)\<close>, \<^verbatim>\<open>x && y\<close>, \<^verbatim>\<open>x || y\<close>): a string
  is truthy when it is present and not empty, a number when it is present and not zero.
\<close>

definition truthyStr :: "string option \<Rightarrow> bool" where
  "truthyStr s = (case s of None \<Rightarrow> False | Some v \<Rightarrow> v \<noteq> [])"

definition truthyNum :: "real option \<Rightarrow> bool" where
  "truthyNum n = (case n of None \<Rightarrow> False | Some v \<Rightarrow> v \<noteq> 0)"

text \<open>\<^verbatim>\<open>a || b\<close> on nullable numbers and strings: the first operand when truthy, else the second.\<close>

definition orNum :: "real option \<Rightarrow> real option \<Rightarrow> real option" where
  "orNum a b = (if truthyNum a then a else b)"

definition orStr :: "string option \<Rightarrow> string option \<Rightarrow> string option" where
  "orStr a b = (if truthyStr a then a else b)"

text \<open>
  Where the source tells \<^verbatim>\<open>undefined\<close> from \<^verbatim>\<open>null\<close>, a number of a request body
  is one of the three. In a comparison and in arithmetic \<^verbatim>\<open>null\<close> counts as \<open>0\<close>;
  \<^verbatim>\<open>undefined\<close> would be \<^verbatim>\<open>NaN\<close> and is only ever tested, never computed with.
\<close>

datatype JsonNumber = JsUndefined | JsNull | JsNum real

definition toNumber :: "JsonNumber \<Rightarrow> real" where
  "toNumber v = (case v of JsNum x \<Rightarrow> x | _ \<Rightarrow> 0)"

text \<open>\<^verbatim>\<open>Math.round\<close> rounds half up; \<^verbatim>\<open>Math.ceil\<close> is the ceiling.\<close>

definition mathRound :: "real \<Rightarrow> real" where
  "mathRound x = of_int \<lfloor>x + 1 / 2\<rfloor>"

definition mathCeil :: "real \<Rightarrow> int" where
  "mathCeil x = \<lceil>x\<rceil>"


section \<open>Units and their conversion (routes/units.ts)\<close>

text \<open>
  \<^verbatim>\<open>interface UnitData\<close>: the optional \<^verbatim>\<open>id\<close>, the symbol, the linear conversion group
  with its factor, and the one-hop custom conversion (target id and amount), with the
  included target record \<^verbatim>\<open>convertsToUnit\<close> (its id and symbol) when the query loaded it.
\<close>

record UnitData =
  unitId :: "string option"
  symbol :: string
  conversionGroup :: "string option"
  conversionFactor :: real
  convertsToUnitId :: "string option"
  convertsToAmount :: "real option"
  convertsToUnit :: "(string \<times> string) option"

text \<open>
  The test \<^verbatim>\<open>a.convertsToUnit?.symbol === b.symbol || a.convertsToUnitId === b.id\<close>,
  evaluated where \<^verbatim>\<open>a.convertsToUnitId\<close> is known to be truthy.
\<close>

definition targets :: "UnitData \<Rightarrow> UnitData \<Rightarrow> bool" where
  "targets a b =
     ((case convertsToUnit a of None \<Rightarrow> False | Some (_, s) \<Rightarrow> s = symbol b) \<or>
      (case (convertsToUnitId a, unitId b) of (Some i, Some j) \<Rightarrow> i = j | _ \<Rightarrow> False))"

definition convertUnits :: "real \<Rightarrow> UnitData \<Rightarrow> UnitData \<Rightarrow> real option" where
  "convertUnits quantity fromUnit toUnit =
     (if symbol fromUnit = symbol toUnit then Some quantity
      else if truthyStr (conversionGroup fromUnit)
              \<and> conversionGroup fromUnit = conversionGroup toUnit
        then (let baseQuantity = quantity * conversionFactor fromUnit
              in Some (baseQuantity / conversionFactor toUnit))
      else if truthyStr (convertsToUnitId fromUnit) \<and> truthyNum (convertsToAmount fromUnit)
              \<and> targets fromUnit toUnit
        then (case convertsToAmount fromUnit of Some a \<Rightarrow> Some (quantity * a) | None \<Rightarrow> None)
      else if truthyStr (convertsToUnitId toUnit) \<and> truthyNum (convertsToAmount toUnit)
              \<and> targets toUnit fromUnit
        then (case convertsToAmount toUnit of Some a \<Rightarrow> Some (quantity / a) | None \<Rightarrow> None)
      else None)"

text \<open>
  \<^verbatim>\<open>convertQuantityBetweenUnits\<close> resolves both symbols in the unit table first
  (\<^verbatim>\<open>findUnique\<close> on the unique symbol) and gives \<^verbatim>\<open>null\<close> when one is unknown.
\<close>

definition findUnit :: "UnitData list \<Rightarrow> string \<Rightarrow> UnitData option" where
  "findUnit units s = find (\<lambda>u. symbol u = s) units"

definition convertQuantityBetweenUnits ::
  "UnitData list \<Rightarrow> real \<Rightarrow> string \<Rightarrow> string \<Rightarrow> real option" where
  "convertQuantityBetweenUnits units quantity fromSymbol toSymbol =
     (if fromSymbol = toSymbol then Some quantity
      else case findUnit units fromSymbol of
             None \<Rightarrow> None
           | Some fromUnit \<Rightarrow>
               (case findUnit units toSymbol of
                  None \<Rightarrow> None
                | Some toUnit \<Rightarrow> convertUnits quantity fromUnit toUnit))"

subsection \<open>The conditions of the conversion rules\<close>

text \<open>
  In the words of the specification: rule 2 applies when both units share a conversion
  group that is not null; rules 3 and 4 when a unit carries a custom conversion edge (a
  target id and an amount, both not null) whose target is the other unit.
\<close>

definition sharesGroup :: "UnitData \<Rightarrow> UnitData \<Rightarrow> bool" where
  "sharesGroup a b = (conversionGroup a \<noteq> None \<and> conversionGroup a = conversionGroup b)"

definition customEdge :: "UnitData \<Rightarrow> UnitData \<Rightarrow> real option" where
  "customEdge a b =
     (case (convertsToUnitId a, convertsToAmount a) of
        (Some i, Some amount) \<Rightarrow> if targets a b then Some amount else None
      | _ \<Rightarrow> None)"

text \<open>
  The rows of the unit table. The seed (\<^verbatim>\<open>DEFAULT_UNITS\<close>) and the two routes that write a
  unit store \<^verbatim>\<open>conversionGroup || null\<close>, \<^verbatim>\<open>convertsToUnitId || null\<close> and
  \<^verbatim>\<open>convertsToAmount || null\<close> behind schemas that demand a UUID for the target and a
  positive amount: a stored group or target id is null or not empty, and a stored amount
  is null or positive. Both callers of \<^const>\<open>convertUnits\<close> pass rows read from that table.
\<close>

definition storedUnit :: "UnitData \<Rightarrow> bool" where
  "storedUnit u =
     (conversionGroup u \<noteq> Some [] \<and> convertsToUnitId u \<noteq> Some []
      \<and> (case convertsToAmount u of None \<Rightarrow> True | Some amount \<Rightarrow> 0 < amount))"

subsection \<open>Example units\<close>

definition unit_g :: UnitData where
  "unit_g = \<lparr>unitId = Some ''u-g'', symbol = ''g'', conversionGroup = Some ''mass'',
     conversionFactor = 1, convertsToUnitId = None, convertsToAmount = None,
     convertsToUnit = None\<rparr>"

definition unit_kg :: UnitData where
  "unit_kg = \<lparr>unitId = Some ''u-kg'', symbol = ''kg'', conversionGroup = Some ''mass'',
     conversionFactor = 1000, convertsToUnitId = None, convertsToAmount = None,
     convertsToUnit = None\<rparr>"

definition unit_ml :: UnitData where
  "unit_ml = \<lparr>unitId = Some ''u-ml'', symbol = ''ml'', conversionGroup = Some ''volume'',
     conversionFactor = 1, convertsToUnitId = None, convertsToAmount = None,
     convertsToUnit = None\<rparr>"

definition unit_pcs :: UnitData where
  "unit_pcs = \<lparr>unitId = Some ''u-pcs'', symbol = ''pcs'', conversionGroup = None,
     conversionFactor = 1, convertsToUnitId = None, convertsToAmount = None,
     convertsToUnit = None\<rparr>"

definition unit_sheet :: UnitData where
  "unit_sheet = \<lparr>unitId = Some ''u-sheet'', symbol = ''Sheet'', conversionGroup = None,
     conversionFactor = 1, convertsToUnitId = None, convertsToAmount = None,
     convertsToUnit = None\<rparr>"

definition unit_roll :: UnitData where
  "unit_roll = \<lparr>unitId = Some ''u-roll'', symbol = ''Roll'', conversionGroup = None,
     conversionFactor = 1, convertsToUnitId = Some ''u-sheet'', convertsToAmount = Some 50,
     convertsToUnit = Some (''u-sheet'', ''Sheet'')\<rparr>"

text \<open>
  Two units whose conversion group is the empty string, non-null but falsy: rows that
  the routes never store.
\<close>

definition unit_blankA :: UnitData where
  "unit_blankA = \<lparr>unitId = Some ''u-a'', symbol = ''a'', conversionGroup = Some [],
     conversionFactor = 1, convertsToUnitId = None, convertsToAmount = None,
     convertsToUnit = None\<rparr>"

definition unit_blankB :: UnitData where
  "unit_blankB = \<lparr>unitId = Some ''u-b'', symbol = ''b'', conversionGroup = Some [],
     conversionFactor = 1, convertsToUnitId = None, convertsToAmount = None,
     convertsToUnit = None\<rparr>"

text \<open>A pack of four rolls: two hops away from the sheet.\<close>

definition unit_pack :: UnitData where
  "unit_pack = \<lparr>unitId = Some ''u-pack'', symbol = ''Pack'', conversionGroup = None,
     conversionFactor = 1, convertsToUnitId = Some ''u-roll'', convertsToAmount = Some 4,
     convertsToUnit = Some (''u-roll'', ''Roll'')\<rparr>"

definition defaultUnits :: "UnitData list" where
  "defaultUnits = [unit_pcs, unit_g, unit_kg, unit_ml, unit_sheet, unit_roll]"


section \<open>The store: articles, batches and the consumption log\<close>

text \<open>
  The tables the routes read and write through Prisma, as lists of rows in table order.
  Dates are timestamps. Free-text notes, icons and nutrition facts play no part in the
  logic below and are left out of the rows.
\<close>

record Article =
  articleId :: string
  articleName :: string
  defaultUnit :: string
  packageSize :: real
  packageUnit :: string
  minStock :: "real option"
  category :: "string option"

record Batch =
  batchId :: string
  batchArticleId :: string
  quantity :: real
  initialQuantity :: real
  purchaseDate :: nat
  expiryDate :: "nat option"
  purchasePrice :: "real option"

record ConsumptionLog =
  logArticleId :: string
  logBatchId :: "string option"
  logQuantity :: real
  logSource :: string
  logRecipeId :: "string option"

text \<open>A recipe with its ingredients, each naming an article or a category to match.\<close>

record RecipeIngredient =
  ingId :: string
  ingArticleId :: "string option"
  categoryMatch :: "string option"
  ingQuantity :: real
  ingUnit :: string
  isOptional :: bool

record Recipe =
  recipeId :: string
  recipeName :: string
  servings :: real
  ingredients :: "RecipeIngredient list"

record MealPlanEntry =
  entryDate :: nat
  entryCompletedAt :: "nat option"
  entryServings :: real
  entryRecipeId :: string

record ShoppingListItem =
  itemArticleId :: "string option"
  customName :: "string option"
  neededQuantity :: real
  recommendedPacks :: int
  reason :: string
  estimatedPrice :: "real option"
  isPurchased :: bool
  purchasedQuantity :: "real option"
  actualPrice :: "real option"
  itemPurchaseDate :: "nat option"
  itemExpiryDate :: "nat option"

record ShoppingList =
  listId :: string
  completedAt :: "nat option"
  items :: "ShoppingListItem list"

record Store =
  articles :: "Article list"
  batches :: "Batch list"
  consumptionLogs :: "ConsumptionLog list"
  units :: "UnitData list"
  recipes :: "Recipe list"
  mealPlanEntries :: "MealPlanEntry list"
  shoppingLists :: "ShoppingList list"

definition findArticle :: "Store \<Rightarrow> string \<Rightarrow> Article option" where
  "findArticle st i = find (\<lambda>a. articleId a = i) (articles st)"

definition findBatch :: "Store \<Rightarrow> string \<Rightarrow> Batch option" where
  "findBatch st i = find (\<lambda>b. batchId b = i) (batches st)"

text \<open>
  \<^verbatim>\<open>orderBy: [{ expiryDate: 'asc' }, { purchaseDate: 'asc' }]\<close>. The database behind the
  migrations is SQLite (\<^verbatim>\<open>provider = "sqlite"\<close>), whose ascending order puts \<^verbatim>\<open>NULL\<close>
  first: the batches without an expiry date come before the dated ones.
\<close>

definition fifoKey :: "Batch \<Rightarrow> nat \<times> nat" where
  "fifoKey b = (case expiryDate b of None \<Rightarrow> 0 | Some d \<Rightarrow> Suc d, purchaseDate b)"

text \<open>
  \<^verbatim>\<open>prisma.batch.findMany({ where: { articleId, quantity: { gt: 0 } }, orderBy: ... })\<close>
\<close>

definition positiveBatches :: "Store \<Rightarrow> string \<Rightarrow> Batch list" where
  "positiveBatches st aid = filter (\<lambda>b. batchArticleId b = aid \<and> 0 < quantity b) (batches st)"

definition stockBatches :: "Store \<Rightarrow> string \<Rightarrow> Batch list" where
  "stockBatches st aid = sort_key fifoKey (positiveBatches st aid)"

text \<open>\<^verbatim>\<open>batches.reduce((sum, b) => sum + b.quantity, 0)\<close>\<close>

definition totalStock :: "Batch list \<Rightarrow> real" where
  "totalStock bs = sum_list (map quantity bs)"

definition currentStock :: "Store \<Rightarrow> string \<Rightarrow> real" where
  "currentStock st aid = totalStock (stockBatches st aid)"

text \<open>\<^verbatim>\<open>prisma.batch.update({ where: { id }, data: { quantity } })\<close> and the two creates.\<close>

definition updateBatchQuantity :: "string \<Rightarrow> real \<Rightarrow> Store \<Rightarrow> Store" where
  "updateBatchQuantity i v st =
     st\<lparr>batches := map (\<lambda>b. if batchId b = i then b\<lparr>quantity := v\<rparr> else b) (batches st)\<rparr>"

definition createBatch :: "Batch \<Rightarrow> Store \<Rightarrow> Store" where
  "createBatch b st = st\<lparr>batches := batches st @ [b]\<rparr>"

definition createLog :: "ConsumptionLog \<Rightarrow> Store \<Rightarrow> Store" where
  "createLog l st = st\<lparr>consumptionLogs := consumptionLogs st @ [l]\<rparr>"


section \<open>FIFO consumption\<close>

text \<open>
  The same loop stands in three routes (article consumption, the deficit branch of the
  stock correction, recipe cooking), differing only in the fields of the log entry it
  writes, which is the parameter \<open>mk\<close> here:
  \<^verbatim>\<open>
  for (const batch of batches) {
    if (remaining <= 0) break;
    const toConsume = Math.min(batch.quantity, remaining);
    await prisma.batch.update({ where: { id: batch.id },
                                data: { quantity: batch.quantity - toConsume } });
    const log = await prisma.consumptionLog.create({ data: { ..., quantity: toConsume } });
    consumptionLogs.push(log);
    remaining -= toConsume;
  }
  \<close>
  The loop walks the batches as they were read before it started. It returns what is
  left of the request, the log entries it wrote and the store.
\<close>

fun consumeLoop ::
  "(Batch \<Rightarrow> real \<Rightarrow> ConsumptionLog) \<Rightarrow> Batch list \<Rightarrow> real \<Rightarrow> ConsumptionLog list \<Rightarrow> Store
     \<Rightarrow> real \<times> ConsumptionLog list \<times> Store" where
  "consumeLoop mk [] remaining ls st = (remaining, ls, st)"
| "consumeLoop mk (batch # rest) remaining ls st =
     (if remaining \<le> 0 then (remaining, ls, st)
      else
        let toConsume = min (quantity batch) remaining;
            st1 = updateBatchQuantity (batchId batch) (quantity batch - toConsume) st;
            log = mk batch toConsume;
            st2 = createLog log st1
        in consumeLoop mk rest (remaining - toConsume) (ls @ [log]) st2)"

datatype ApiError =
    BadRequest string
  | NotFound string
  | ValidationFailed
  | CannotConvert string string
  | InsufficientStock real string

subsection \<open>POST /articles/:id/consume (routes/articles.ts)\<close>

record ConsumeResult =
  consumed :: real
  remaining :: real
  logs :: "ConsumptionLog list"

definition manualLog :: "string \<Rightarrow> string \<Rightarrow> Batch \<Rightarrow> real \<Rightarrow> ConsumptionLog" where
  "manualLog aid src b q =
     \<lparr>logArticleId = aid, logBatchId = Some (batchId b), logQuantity = q, logSource = src,
      logRecipeId = None\<rparr>"

text \<open>
  The body is not validated by a schema: a missing or zero quantity is falsy. The source
  defaults to \<^verbatim>\<open>'MANUAL'\<close>.
\<close>

definition consumeFromArticle ::
  "Store \<Rightarrow> string \<Rightarrow> real option \<Rightarrow> string option \<Rightarrow> (ApiError + ConsumeResult) \<times> Store" where
  "consumeFromArticle st aid quantityArg sourceArg =
     (case quantityArg of
        None \<Rightarrow> (Inl (BadRequest ''Quantity must be positive''), st)
      | Some q \<Rightarrow>
          if q = 0 \<or> q \<le> 0 then (Inl (BadRequest ''Quantity must be positive''), st)
          else
            let src = (case sourceArg of None \<Rightarrow> ''MANUAL'' | Some s \<Rightarrow> s);
                bs = stockBatches st aid
            in if length bs = 0 then (Inl (BadRequest ''No stock available''), st)
               else
                 (case consumeLoop (manualLog aid src) bs q [] st of
                    (r, ls, st') \<Rightarrow>
                      (Inr \<lparr>consumed = q - r, remaining = r, logs = ls\<rparr>, st')))"

subsection \<open>POST /articles/:id/correct-stock (routes/articles.ts)\<close>

text \<open>
  The three responses: the current stock and the actual stock as it was sent, then the
  difference and the log entries.
\<close>

datatype CorrectResult =
    StockMatches real JsonNumber
  | StockIncreased real JsonNumber real
  | StockDecreased real JsonNumber real "ConsumptionLog list"

text \<open>
  \<open>now\<close> is the clock (\<^verbatim>\<open>new Date()\<close>) and \<open>newId\<close> the identifier the store gives the
  batch it creates. The body is not validated by a schema: the guard
  \<^verbatim>\<open>actualStock === undefined || actualStock < 0\<close> rejects a missing and a negative value
  and lets \<^verbatim>\<open>null\<close> through, which then counts as \<open>0\<close>.
\<close>

definition correctStock ::
  "Store \<Rightarrow> string \<Rightarrow> JsonNumber \<Rightarrow> nat \<Rightarrow> string \<Rightarrow> (ApiError + CorrectResult) \<times> Store" where
  "correctStock st aid actualStock now newId =
     (if actualStock = JsUndefined \<or> toNumber actualStock < 0
      then (Inl (BadRequest ''actualStock must be a non-negative number''), st)
      else
        let bs = stockBatches st aid;
            current = totalStock bs;
            difference = toNumber actualStock - current
        in if difference = 0 then (Inr (StockMatches current actualStock), st)
           else if difference > 0 then
             let newBatch = \<lparr>batchId = newId, batchArticleId = aid, quantity = difference,
                             initialQuantity = difference, purchaseDate = now,
                             expiryDate = None, purchasePrice = None\<rparr>;
                 st1 = createBatch newBatch st;
                 st2 = createLog \<lparr>logArticleId = aid, logBatchId = Some (batchId newBatch),
                                  logQuantity = - difference, logSource = ''CORRECTION'',
                                  logRecipeId = None\<rparr> st1
             in (Inr (StockIncreased current actualStock difference), st2)
           else
             (case consumeLoop (manualLog aid ''CORRECTION'') bs \<bar>difference\<bar> [] st of
                (r, ls, st') \<Rightarrow>
                  (Inr (StockDecreased current actualStock difference ls), st')))"

subsection \<open>POST /batches/:id/consume (routes/batches.ts)\<close>

text \<open>
  \<^verbatim>\<open>ConsumeBatchSchema\<close>: a positive quantity, an optional unit and source of at most 20
  characters.
\<close>

record ConsumeBatchBody =
  bodyQuantity :: real
  bodyUnit :: "string option"
  bodySource :: "string option"

definition consumeBatchSchema :: "ConsumeBatchBody \<Rightarrow> bool" where
  "consumeBatchSchema body =
     (0 < bodyQuantity body
      \<and> (case bodyUnit body of None \<Rightarrow> True | Some u \<Rightarrow> length u \<le> 20)
      \<and> (case bodySource body of None \<Rightarrow> True | Some s \<Rightarrow> length s \<le> 20))"

record ConsumeBatchResult =
  resBatch :: Batch
  resLog :: ConsumptionLog
  resConversion :: "((real \<times> string) \<times> (real \<times> string)) option"

text \<open>
  The batch is read with its article (a required relation); a batch whose article is
  absent cannot exist under the foreign key and is reported as not found here.
  \<^verbatim>\<open>unit && unit !== batch.article.defaultUnit\<close> is the test \<open>convertNeeded\<close>.
\<close>

definition consumeFromBatch ::
  "Store \<Rightarrow> string \<Rightarrow> ConsumeBatchBody \<Rightarrow> (ApiError + ConsumeBatchResult) \<times> Store" where
  "consumeFromBatch st bid body =
     (if \<not> consumeBatchSchema body then (Inl ValidationFailed, st)
      else case findBatch st bid of
        None \<Rightarrow> (Inl (NotFound ''Batch not found''), st)
      | Some batch \<Rightarrow>
         (case findArticle st (batchArticleId batch) of
            None \<Rightarrow> (Inl (NotFound ''Batch not found''), st)
          | Some article \<Rightarrow>
             let q = bodyQuantity body;
                 src = (case bodySource body of None \<Rightarrow> ''MANUAL'' | Some s \<Rightarrow> s);
                 convertNeeded = (truthyStr (bodyUnit body)
                                   \<and> bodyUnit body \<noteq> Some (defaultUnit article));
                 converted = (if convertNeeded
                              then convertQuantityBetweenUnits (units st) q
                                     (case bodyUnit body of Some u \<Rightarrow> u | None \<Rightarrow> [])
                                     (defaultUnit article)
                              else Some q)
             in (case converted of
                  None \<Rightarrow> (Inl (CannotConvert (case bodyUnit body of Some u \<Rightarrow> u | None \<Rightarrow> [])
                                   (defaultUnit article)), st)
                | Some quantityInDefaultUnit \<Rightarrow>
                    if quantity batch < quantityInDefaultUnit
                    then (Inl (InsufficientStock (quantity batch) (defaultUnit article)), st)
                    else
                      let st1 = updateBatchQuantity bid
                                  (quantity batch - quantityInDefaultUnit) st;
                          log = \<lparr>logArticleId = batchArticleId batch, logBatchId = Some bid,
                                 logQuantity = quantityInDefaultUnit, logSource = src,
                                 logRecipeId = None\<rparr>;
                          st2 = createLog log st1
                      in (Inr \<lparr>resBatch = batch\<lparr>quantity := quantity batch - quantityInDefaultUnit\<rparr>,
                               resLog = log,
                               resConversion =
                                 (if convertNeeded
                                  then Some ((q, case bodyUnit body of Some u \<Rightarrow> u | None \<Rightarrow> []),
                                             (quantityInDefaultUnit, defaultUnit article))
                                  else None)\<rparr>, st2))))"


section \<open>POST /recipes/:id/cook (routes/recipes.ts)\<close>

text \<open>
  The three ways an ingredient is reported in \<^verbatim>\<open>missing[]\<close>: no article (name, quantity,
  unit), a unit that does not convert (article id, name, needed, unit, article unit; the
  entry that carries the \<^verbatim>\<open>error\<close> string) and a stock that is too small (article id,
  name, needed, available, unit).
\<close>

datatype MissingIngredient =
    NoArticle string real string
  | UnitMismatch string string real string string
  | Shortfall string string real real string

record ConsumedIngredient =
  cArticleId :: string
  cName :: string
  cConsumed :: real
  cUnit :: string
  cOriginalQuantity :: real
  cOriginalUnit :: string

datatype CookResponse =
    RecipeNotFound
  | MissingIngredients "MissingIngredient list" "ConsumedIngredient list"
  | Cooked string real "ConsumedIngredient list"

text \<open>\<^verbatim>\<open>ing.article\<close>, the included relation: the article the ingredient names, if any.\<close>

definition ingArticle :: "Store \<Rightarrow> RecipeIngredient \<Rightarrow> Article option" where
  "ingArticle st ing = (case ingArticleId ing of None \<Rightarrow> None | Some i \<Rightarrow> findArticle st i)"

text \<open>
  The article an ingredient is cooked from: its own, or, when it names none but a
  category, the first article of that category that has a batch in stock.
\<close>

definition resolveArticle :: "Store \<Rightarrow> RecipeIngredient \<Rightarrow> string option \<times> Article option" where
  "resolveArticle st ing =
     (if \<not> truthyStr (ingArticleId ing) \<and> truthyStr (categoryMatch ing)
      then (case find (\<lambda>a. category a = categoryMatch ing
                            \<and> (\<exists>b \<in> set (batches st). batchArticleId b = articleId a
                                                       \<and> 0 < quantity b))
                      (articles st) of
              Some m \<Rightarrow> (Some (articleId m), Some m)
            | None \<Rightarrow> (ingArticleId ing, ingArticle st ing))
      else (ingArticleId ing, ingArticle st ing))"

definition missingName :: "Store \<Rightarrow> RecipeIngredient \<Rightarrow> string" where
  "missingName st ing =
     (case orStr (map_option articleName (ingArticle st ing))
             (orStr (categoryMatch ing) (Some ''Unknown'')) of
        Some n \<Rightarrow> n | None \<Rightarrow> ''Unknown'')"

definition recipeLog :: "string \<Rightarrow> string \<Rightarrow> Batch \<Rightarrow> real \<Rightarrow> ConsumptionLog" where
  "recipeLog aid rid b q =
     \<lparr>logArticleId = aid, logBatchId = Some (batchId b), logQuantity = q,
      logSource = ''RECIPE'', logRecipeId = Some rid\<rparr>"

text \<open>One turn of the loop over the ingredients: an entry for \<^verbatim>\<open>missing[]\<close> or for
  \<^verbatim>\<open>consumed[]\<close>, and the store after it.\<close>

definition cookIngredient ::
  "Store \<Rightarrow> string \<Rightarrow> real \<Rightarrow> RecipeIngredient
     \<Rightarrow> (MissingIngredient + ConsumedIngredient) \<times> Store" where
  "cookIngredient st rid portionMultiplier ing =
     (let recipeQuantity = ingQuantity ing * portionMultiplier
      in case resolveArticle st ing of
        (aidOpt, articleOpt) \<Rightarrow>
          (case (if truthyStr aidOpt then aidOpt else None, articleOpt) of
             (Some aid, Some article) \<Rightarrow>
               let recipeUnit = ingUnit ing;
                   articleUnit = defaultUnit article;
                   converted = (if recipeUnit \<noteq> articleUnit
                                then convertQuantityBetweenUnits (units st) recipeQuantity
                                       recipeUnit articleUnit
                                else Some recipeQuantity)
               in (case converted of
                     None \<Rightarrow>
                       (Inl (UnitMismatch aid (articleName article) recipeQuantity recipeUnit
                               articleUnit), st)
                   | Some needed \<Rightarrow>
                       let bs = stockBatches st aid;
                           total = totalStock bs
                       in if total < needed
                          then (Inl (Shortfall aid (articleName article) needed total
                                       articleUnit), st)
                          else
                            (case consumeLoop (recipeLog aid rid) bs needed [] st of
                               (r, ls, st') \<Rightarrow>
                                 (Inr \<lparr>cArticleId = aid, cName = articleName article,
                                       cConsumed = needed, cUnit = articleUnit,
                                       cOriginalQuantity = recipeQuantity,
                                       cOriginalUnit = recipeUnit\<rparr>, st')))
           | _ \<Rightarrow> (Inl (NoArticle (missingName st ing) recipeQuantity (ingUnit ing)), st)))"

fun cookLoop ::
  "string \<Rightarrow> real \<Rightarrow> RecipeIngredient list \<Rightarrow> ConsumedIngredient list
     \<Rightarrow> MissingIngredient list \<Rightarrow> Store
     \<Rightarrow> ConsumedIngredient list \<times> MissingIngredient list \<times> Store" where
  "cookLoop rid m [] consumptionResults missingIngredients st =
     (consumptionResults, missingIngredients, st)"
| "cookLoop rid m (ing # rest) consumptionResults missingIngredients st =
     (case cookIngredient st rid m ing of
        (Inl missing, st') \<Rightarrow>
          cookLoop rid m rest consumptionResults (missingIngredients @ [missing]) st'
      | (Inr done, st') \<Rightarrow>
          cookLoop rid m rest (consumptionResults @ [done]) missingIngredients st')"

text \<open>
  The recipe is read with its non-optional ingredients only. The body is not validated:
  a missing or zero \<^verbatim>\<open>servings\<close> is falsy and leaves the quantities as the recipe has
  them.
\<close>

definition requiredIngredientsOf :: "Recipe \<Rightarrow> RecipeIngredient list" where
  "requiredIngredientsOf recipe = filter (\<lambda>i. \<not> isOptional i) (ingredients recipe)"

definition portionOf :: "real option \<Rightarrow> Recipe \<Rightarrow> real" where
  "portionOf servingsArg recipe =
     (case servingsArg of
        Some s \<Rightarrow> if s \<noteq> 0 then s / servings recipe else 1
      | None \<Rightarrow> 1)"

definition cookRecipe :: "Store \<Rightarrow> string \<Rightarrow> real option \<Rightarrow> CookResponse \<times> Store" where
  "cookRecipe st rid servingsArg =
     (case find (\<lambda>r. recipeId r = rid) (recipes st) of
        None \<Rightarrow> (RecipeNotFound, st)
      | Some recipe \<Rightarrow>
          (case cookLoop rid (portionOf servingsArg recipe) (requiredIngredientsOf recipe)
                  [] [] st of
             (consumptionResults, missingIngredients, st') \<Rightarrow>
               if length missingIngredients > 0
               then (MissingIngredients missingIngredients consumptionResults, st')
               else (Cooked (recipeName recipe)
                       (case servingsArg of
                          Some s \<Rightarrow> if s \<noteq> 0 then s else servings recipe
                        | None \<Rightarrow> servings recipe)
                       consumptionResults, st')))"


section \<open>POST /shopping-lists/:id/complete (routes/shopping.ts)\<close>

text \<open>
  The batch a purchased item becomes. \<^verbatim>\<open>purchasedQuantity || neededQuantity\<close> and
  \<^verbatim>\<open>actualPrice || estimatedPrice\<close> fall through on \<^verbatim>\<open>null\<close> and on zero; a date is
  truthy whenever it is present.
\<close>

definition batchOfItem :: "nat \<Rightarrow> string \<Rightarrow> string \<Rightarrow> ShoppingListItem \<Rightarrow> Batch" where
  "batchOfItem now newId aid item =
     (let q = (case purchasedQuantity item of
                 Some p \<Rightarrow> if p \<noteq> 0 then p else neededQuantity item
               | None \<Rightarrow> neededQuantity item)
      in \<lparr>batchId = newId, batchArticleId = aid, quantity = q, initialQuantity = q,
          purchaseDate = (case itemPurchaseDate item of Some d \<Rightarrow> d | None \<Rightarrow> now),
          expiryDate = itemExpiryDate item,
          purchasePrice = orNum (actualPrice item) (estimatedPrice item)\<rparr>)"

text \<open>
  The list is read with its items \<^verbatim>\<open>where: { isPurchased: true, articleId: { not: null } }\<close>;
  the map skips an item whose article id is falsy. \<open>freshId\<close> numbers the identifiers
  the store gives the new batches.
\<close>

fun createBatches :: "nat \<Rightarrow> (nat \<Rightarrow> string) \<Rightarrow> nat \<Rightarrow> ShoppingListItem list \<Rightarrow> Batch list" where
  "createBatches now freshId n [] = []"
| "createBatches now freshId n (item # rest) =
     (case itemArticleId item of
        Some aid \<Rightarrow>
          if aid \<noteq> [] then batchOfItem now (freshId n) aid item
                               # createBatches now freshId (Suc n) rest
          else createBatches now freshId n rest
      | None \<Rightarrow> createBatches now freshId n rest)"

definition purchasedArticleItems :: "ShoppingList \<Rightarrow> ShoppingListItem list" where
  "purchasedArticleItems l = filter (\<lambda>i. isPurchased i \<and> itemArticleId i \<noteq> None) (items l)"

definition completeShoppingList ::
  "Store \<Rightarrow> string \<Rightarrow> nat \<Rightarrow> (nat \<Rightarrow> string) \<Rightarrow> (ApiError + ShoppingList) \<times> Store" where
  "completeShoppingList st lid now freshId =
     (case find (\<lambda>l. listId l = lid) (shoppingLists st) of
        None \<Rightarrow> (Inl (NotFound ''Shopping list not found''), st)
      | Some l \<Rightarrow>
          if completedAt l \<noteq> None
          then (Inl (BadRequest ''Shopping list already completed''), st)
          else
            let new = createBatches now freshId 0 (purchasedArticleItems l);
                updated = l\<lparr>completedAt := Some now\<rparr>
            in (Inr updated,
                st\<lparr>batches := batches st @ new,
                   shoppingLists := map (\<lambda>x. if listId x = lid then x\<lparr>completedAt := Some now\<rparr>
                                              else x) (shoppingLists st)\<rparr>))"


section \<open>POST /shopping-lists/generate (routes/shopping.ts)\<close>

text \<open>
  The generator reads the pending meal plan entries of the window with their recipes,
  sums the ingredients they require, nets them against the stock, the forecast and the
  minimum stock of the articles, and builds the items to create. The forecast comes from
  the forecasting library (\<^verbatim>\<open>getForecastedShoppingItems\<close>) and is an argument here. The
  price estimate that is attached to each item when the list is stored does not touch
  the quantities and is not modelled.
\<close>

record ForecastItem =
  fArticleId :: string
  fQuantity :: real

record Required =
  reqArticleId :: "string option"
  reqArticleName :: "string option"
  reqCategoryMatch :: "string option"
  reqUnit :: string
  totalQuantity :: real
  reqReason :: string

record PackageInfo =
  pkgSize :: real
  pkgUnit :: string
  pkgDefaultUnit :: string

record NewItem =
  newArticleId :: "string option"
  newCustomName :: "string option"
  newNeededQuantity :: real
  newRecommendedPacks :: int
  newReason :: string

subsection \<open>Steps 1 and 2: the ingredients the meal plan requires\<close>

text \<open>
  The entries of the window that are not completed, each with its recipe (a required
  relation: an entry without recipe cannot exist and is skipped here).
\<close>

definition mealEntries :: "Store \<Rightarrow> nat \<Rightarrow> nat \<Rightarrow> (MealPlanEntry \<times> Recipe) list" where
  "mealEntries st shopDate planUntil =
     List.map_filter
       (\<lambda>e. if shopDate \<le> entryDate e \<and> entryDate e \<le> planUntil \<and> entryCompletedAt e = None
            then map_option (\<lambda>r. (e, r)) (find (\<lambda>r. recipeId r = entryRecipeId e) (recipes st))
            else None)
       (mealPlanEntries st)"

text \<open>\<^verbatim>\<open>ing.articleId || ing.categoryMatch || `unknown-${ing.id}`\<close>\<close>

definition requirementKey :: "RecipeIngredient \<Rightarrow> string" where
  "requirementKey ing =
     (case ingArticleId ing of
        Some a \<Rightarrow> if a \<noteq> [] then a
                  else (case categoryMatch ing of
                          Some c \<Rightarrow> if c \<noteq> [] then c else ''unknown-'' @ ingId ing
                        | None \<Rightarrow> ''unknown-'' @ ingId ing)
      | None \<Rightarrow> (case categoryMatch ing of
                    Some c \<Rightarrow> if c \<noteq> [] then c else ''unknown-'' @ ingId ing
                  | None \<Rightarrow> ''unknown-'' @ ingId ing))"

text \<open>
  The quantity and unit an ingredient is counted in: converted into the default unit of
  its article when that differs and the conversion succeeds, else as the recipe has it.
\<close>

definition requirementOf :: "Store \<Rightarrow> real \<Rightarrow> RecipeIngredient \<Rightarrow> real \<times> string" where
  "requirementOf st portionMultiplier ing =
     (let needed = ingQuantity ing * portionMultiplier
      in case ingArticle st ing of
           None \<Rightarrow> (needed, ingUnit ing)
         | Some article \<Rightarrow>
             if defaultUnit article \<noteq> [] \<and> ingUnit ing \<noteq> defaultUnit article
             then (case convertQuantityBetweenUnits (units st) needed (ingUnit ing)
                          (defaultUnit article) of
                     Some converted \<Rightarrow> (converted, defaultUnit article)
                   | None \<Rightarrow> (needed, ingUnit ing))
             else if defaultUnit article \<noteq> [] then (needed, defaultUnit article)
             else (needed, ingUnit ing))"

text \<open>
  \<^verbatim>\<open>requiredIngredients\<close> is a \<^verbatim>\<open>Map\<close>, iterated in insertion order: an association list
  here. An ingredient adds to the entry of its key or appends a new entry.
\<close>

definition addIngredient ::
  "Store \<Rightarrow> real \<Rightarrow> (string \<times> Required) list \<Rightarrow> RecipeIngredient \<Rightarrow> (string \<times> Required) list" where
  "addIngredient st portionMultiplier reqs ing =
     (let key = requirementKey ing;
          (needed, targetUnit) = requirementOf st portionMultiplier ing
      in case map_of reqs key of
           Some existing \<Rightarrow>
             map (\<lambda>(k, r). if k = key
                            then (k, r\<lparr>totalQuantity := totalQuantity r + needed\<rparr>)
                            else (k, r)) reqs
         | None \<Rightarrow>
             reqs @ [(key, \<lparr>reqArticleId = ingArticleId ing,
                             reqArticleName = orStr (map_option articleName (ingArticle st ing)) None,
                             reqCategoryMatch = categoryMatch ing,
                             reqUnit = targetUnit,
                             totalQuantity = needed,
                             reqReason = ''RECIPE''\<rparr>)])"

definition addEntry ::
  "Store \<Rightarrow> (string \<times> Required) list \<Rightarrow> MealPlanEntry \<times> Recipe \<Rightarrow> (string \<times> Required) list" where
  "addEntry st reqs er =
     (case er of (entry, recipe) \<Rightarrow>
        foldl (addIngredient st (entryServings entry / servings recipe)) reqs
          (ingredients recipe))"

definition requiredIngredients :: "Store \<Rightarrow> nat \<Rightarrow> nat \<Rightarrow> (string \<times> Required) list" where
  "requiredIngredients st shopDate planUntil =
     foldl (addEntry st) [] (mealEntries st shopDate planUntil)"

subsection \<open>Steps 3 to 5: stock, package, forecast and minimum stock maps\<close>

record Maps =
  stockMap :: "string \<rightharpoonup> real"
  packageInfoMap :: "string \<rightharpoonup> PackageInfo"
  forecastMap :: "string \<rightharpoonup> real"
  minStockMap :: "string \<rightharpoonup> real"

text \<open>An article is read with its batches \<^verbatim>\<open>where: { quantity: { gt: 0 } }\<close>.\<close>

definition stockOfArticle :: "Store \<Rightarrow> Article \<Rightarrow> real" where
  "stockOfArticle st a = totalStock (positiveBatches st (articleId a))"

definition packageInfoOf :: "Article \<Rightarrow> PackageInfo" where
  "packageInfoOf a = \<lparr>pkgSize = packageSize a, pkgUnit = packageUnit a,
                        pkgDefaultUnit = defaultUnit a\<rparr>"

definition articlesWithStock :: "Store \<Rightarrow> (string \<times> Required) list \<Rightarrow> Article list" where
  "articlesWithStock st reqs =
     filter (\<lambda>a. Some (articleId a) \<in> set (map (\<lambda>(k, r). reqArticleId r) reqs)) (articles st)"

definition allArticlesWithMinStock :: "Store \<Rightarrow> Article list" where
  "allArticlesWithMinStock st = filter (\<lambda>a. minStock a \<noteq> None) (articles st)"

definition trackRequired :: "Store \<Rightarrow> Maps \<Rightarrow> Article \<Rightarrow> Maps" where
  "trackRequired st m a =
     m\<lparr>stockMap := (stockMap m)(articleId a \<mapsto> stockOfArticle st a),
       packageInfoMap := (packageInfoMap m)(articleId a \<mapsto> packageInfoOf a)\<rparr>"

definition trackForecast :: "Maps \<Rightarrow> ForecastItem \<Rightarrow> Maps" where
  "trackForecast m item = m\<lparr>forecastMap := (forecastMap m)(fArticleId item \<mapsto> fQuantity item)\<rparr>"

definition trackMinStock :: "Store \<Rightarrow> Maps \<Rightarrow> Article \<Rightarrow> Maps" where
  "trackMinStock st m a =
     (case minStock a of
        None \<Rightarrow> m
      | Some ms \<Rightarrow>
          if ms \<noteq> 0
          then m\<lparr>minStockMap := (minStockMap m)(articleId a \<mapsto> ms),
                 stockMap := (if stockMap m (articleId a) = None
                              then (stockMap m)(articleId a \<mapsto> stockOfArticle st a)
                              else stockMap m),
                 packageInfoMap := (if packageInfoMap m (articleId a) = None
                                    then (packageInfoMap m)(articleId a \<mapsto> packageInfoOf a)
                                    else packageInfoMap m)\<rparr>
          else m)"

definition buildMaps :: "Store \<Rightarrow> (string \<times> Required) list \<Rightarrow> ForecastItem list \<Rightarrow> Maps" where
  "buildMaps st reqs forecastedItems =
     (let m0 = \<lparr>stockMap = Map.empty, packageInfoMap = Map.empty, forecastMap = Map.empty,
                 minStockMap = Map.empty\<rparr>;
          m3 = foldl (trackRequired st) m0 (articlesWithStock st reqs);
          m4 = foldl trackForecast m3 forecastedItems
      in foldl (trackMinStock st) m4 (allArticlesWithMinStock st))"

text \<open>\<^verbatim>\<open>map.get(key) || 0\<close>\<close>

definition getOr0 :: "(string \<rightharpoonup> real) \<Rightarrow> string \<Rightarrow> real" where
  "getOr0 m k = (case m k of Some v \<Rightarrow> v | None \<Rightarrow> 0)"

subsection \<open>Step 6: what needs to be purchased\<close>

text \<open>
  \<^verbatim>\<open>roundQuantity\<close> rounds to 4 decimals; the quantity of an item is then rounded to 2
  decimals (\<^verbatim>\<open>Math.round(totalNeed * 100) / 100\<close>).
\<close>

definition roundQuantity :: "real \<Rightarrow> real" where
  "roundQuantity n = mathRound (n * 10000) / 10000"

definition round2 :: "real \<Rightarrow> real" where
  "round2 n = mathRound (n * 100) / 100"

definition calculateRecommendedPacks ::
  "UnitData list \<Rightarrow> (string \<rightharpoonup> PackageInfo) \<Rightarrow> string option \<Rightarrow> real \<Rightarrow> string \<Rightarrow> int" where
  "calculateRecommendedPacks us pkgs articleIdArg needed neededUnit =
     (case articleIdArg of
        None \<Rightarrow> 1
      | Some aid \<Rightarrow>
          if aid = [] then 1
          else (case pkgs aid of
                  None \<Rightarrow> 1
                | Some pkgInfo \<Rightarrow>
                    if pkgSize pkgInfo \<le> 0 then 1
                    else
                      (case (if pkgUnit pkgInfo \<noteq> neededUnit
                             then convertQuantityBetweenUnits us (pkgSize pkgInfo)
                                    (pkgUnit pkgInfo) neededUnit
                             else Some (pkgSize pkgInfo)) of
                         None \<Rightarrow> 1
                       | Some packageSizeInNeededUnit \<Rightarrow>
                           mathCeil (needed / packageSizeInNeededUnit))))"

text \<open>First the ingredients the recipes require.\<close>

definition recipeItem :: "UnitData list \<Rightarrow> Maps \<Rightarrow> Required \<Rightarrow> NewItem option" where
  "recipeItem us m req =
     (let linked = truthyStr (reqArticleId req);
          aid = (case reqArticleId req of Some a \<Rightarrow> a | None \<Rightarrow> []);
          current = (if linked then getOr0 (stockMap m) aid else 0);
          minimum = (if linked then getOr0 (minStockMap m) aid else 0);
          forecastedNeed = (if linked then getOr0 (forecastMap m) aid else 0);
          totalNeed = roundQuantity (totalQuantity req + forecastedNeed + minimum - current)
      in if totalNeed > 0
         then Some \<lparr>newArticleId = reqArticleId req,
                     newCustomName = orStr (reqArticleName req) (reqCategoryMatch req),
                     newNeededQuantity = round2 totalNeed,
                     newRecommendedPacks =
                       calculateRecommendedPacks us (packageInfoMap m) (reqArticleId req)
                         totalNeed (reqUnit req),
                     newReason = reqReason req\<rparr>
         else None)"

fun recipeLoop ::
  "UnitData list \<Rightarrow> Maps \<Rightarrow> Required list \<Rightarrow> NewItem list \<Rightarrow> string set
     \<Rightarrow> NewItem list \<times> string set" where
  "recipeLoop us m [] itemsToCreate processedArticles = (itemsToCreate, processedArticles)"
| "recipeLoop us m (req # rest) itemsToCreate processedArticles =
     recipeLoop us m rest
       (case recipeItem us m req of
          Some item \<Rightarrow> itemsToCreate @ [item] | None \<Rightarrow> itemsToCreate)
       (case reqArticleId req of
          Some a \<Rightarrow> if a \<noteq> [] then insert a processedArticles else processedArticles
        | None \<Rightarrow> processedArticles)"

text \<open>Then the articles with a forecast that no recipe has covered.\<close>

definition forecastItem :: "UnitData list \<Rightarrow> Maps \<Rightarrow> ForecastItem \<Rightarrow> NewItem option" where
  "forecastItem us m item =
     (let current = getOr0 (stockMap m) (fArticleId item);
          minimum = getOr0 (minStockMap m) (fArticleId item);
          unit = (case packageInfoMap m (fArticleId item) of
                    Some pkgInfo \<Rightarrow> if pkgDefaultUnit pkgInfo \<noteq> [] then pkgDefaultUnit pkgInfo
                                    else ''pcs''
                  | None \<Rightarrow> ''pcs'');
          totalNeed = roundQuantity (fQuantity item + minimum - current)
      in if totalNeed > 0
         then Some \<lparr>newArticleId = Some (fArticleId item), newCustomName = None,
                     newNeededQuantity = round2 totalNeed,
                     newRecommendedPacks =
                       calculateRecommendedPacks us (packageInfoMap m) (Some (fArticleId item))
                         totalNeed unit,
                     newReason = ''FORECAST''\<rparr>
         else None)"

fun forecastLoop ::
  "UnitData list \<Rightarrow> Maps \<Rightarrow> ForecastItem list \<Rightarrow> NewItem list \<Rightarrow> string set
     \<Rightarrow> NewItem list \<times> string set" where
  "forecastLoop us m [] itemsToCreate processedArticles = (itemsToCreate, processedArticles)"
| "forecastLoop us m (item # rest) itemsToCreate processedArticles =
     (if fArticleId item \<in> processedArticles
      then forecastLoop us m rest itemsToCreate processedArticles
      else forecastLoop us m rest
             (case forecastItem us m item of
                Some new \<Rightarrow> itemsToCreate @ [new] | None \<Rightarrow> itemsToCreate)
             (insert (fArticleId item) processedArticles))"

text \<open>Finally the articles below their minimum stock that neither has covered.\<close>

definition lowStockItem :: "Store \<Rightarrow> UnitData list \<Rightarrow> Maps \<Rightarrow> Article \<Rightarrow> NewItem option" where
  "lowStockItem st us m article =
     (let total = stockOfArticle st article
      in case minStock article of
           None \<Rightarrow> None
         | Some ms \<Rightarrow>
             if ms \<noteq> 0 \<and> total < ms
             then (let needed = roundQuantity (ms - total)
                   in Some \<lparr>newArticleId = Some (articleId article), newCustomName = None,
                             newNeededQuantity = round2 needed,
                             newRecommendedPacks =
                               calculateRecommendedPacks us (packageInfoMap m)
                                 (Some (articleId article)) needed (defaultUnit article),
                             newReason = ''LOW_STOCK''\<rparr>)
             else None)"

fun lowStockLoop ::
  "Store \<Rightarrow> UnitData list \<Rightarrow> Maps \<Rightarrow> Article list \<Rightarrow> NewItem list \<Rightarrow> string set
     \<Rightarrow> NewItem list" where
  "lowStockLoop st us m [] itemsToCreate processedArticles = itemsToCreate"
| "lowStockLoop st us m (article # rest) itemsToCreate processedArticles =
     (if articleId article \<in> processedArticles
      then lowStockLoop st us m rest itemsToCreate processedArticles
      else lowStockLoop st us m rest
             (case lowStockItem st us m article of
                Some new \<Rightarrow> itemsToCreate @ [new] | None \<Rightarrow> itemsToCreate)
             processedArticles)"

definition generateItems :: "Store \<Rightarrow> nat \<Rightarrow> nat \<Rightarrow> ForecastItem list \<Rightarrow> NewItem list" where
  "generateItems st shopDate planUntil forecastedItems =
     (let reqs = requiredIngredients st shopDate planUntil;
          m = buildMaps st reqs forecastedItems
      in case recipeLoop (units st) m (map snd reqs) [] {} of
           (items1, processed1) \<Rightarrow>
             (case forecastLoop (units st) m forecastedItems items1 processed1 of
                (items2, processed2) \<Rightarrow>
                  lowStockLoop st (units st) m (allArticlesWithMinStock st) items2 processed2))"

subsection \<open>POST /shopping-lists/:id/items\<close>

text \<open>
  \<^verbatim>\<open>AddItemSchema\<close>: a positive quantity, a unit of at most 20 characters, a custom name of
  at most 200, one of the four reasons, and an article id that is a UUID (the test
  \<open>uuid\<close> is an argument). The item is created with the quantity as its needed quantity
  and the defaults of the table for the rest.
\<close>

record AddItemBody =
  addArticleId :: "string option"
  addCustomName :: "string option"
  addQuantity :: real
  addUnit :: string
  addReason :: string
  addEstimatedPrice :: "real option"

definition addItemSchema :: "(string \<Rightarrow> bool) \<Rightarrow> AddItemBody \<Rightarrow> bool" where
  "addItemSchema uuid body =
     ((case addArticleId body of None \<Rightarrow> True | Some a \<Rightarrow> uuid a)
      \<and> (case addCustomName body of None \<Rightarrow> True | Some n \<Rightarrow> length n \<le> 200)
      \<and> 0 < addQuantity body
      \<and> length (addUnit body) \<le> 20
      \<and> addReason body \<in> set [''RECIPE'', ''LOW_STOCK'', ''FORECAST'', ''MANUAL''])"

definition addItem :: "(string \<Rightarrow> bool) \<Rightarrow> AddItemBody \<Rightarrow> ApiError + ShoppingListItem" where
  "addItem uuid body =
     (if \<not> addItemSchema uuid body then Inl ValidationFailed
      else Inr \<lparr>itemArticleId = addArticleId body, customName = addCustomName body,
                neededQuantity = addQuantity body, recommendedPacks = 1,
                reason = addReason body, estimatedPrice = addEstimatedPrice body,
                isPurchased = False, purchasedQuantity = None, actualPrice = None,
                itemPurchaseDate = None, itemExpiryDate = None\<rparr>)"


section \<open>Predicates and example stores for the theorems\<close>

text \<open>The invariant of claim C10: no batch holds a negative quantity.\<close>

definition nonNegative :: "Store \<Rightarrow> bool" where
  "nonNegative st = (\<forall>b \<in> set (batches st). 0 \<le> quantity b)"

text \<open>The stock of an article in a list of batch rows, whatever their order.\<close>

definition stockIn :: "string \<Rightarrow> Batch list \<Rightarrow> real" where
  "stockIn aid xs = sum_list (map quantity (filter (\<lambda>b. batchArticleId b = aid \<and> 0 < quantity b) xs))"

text \<open>
  Scenario D of the specification: batch A (expiry in 2 days, quantity 3) and batch B
  (expiry in 10 days, quantity 5) of one article, stored in the table in the other order.
\<close>

definition emptyStore :: Store where
  "emptyStore = \<lparr>articles = [], batches = [], consumptionLogs = [], units = defaultUnits,
     recipes = [], mealPlanEntries = [], shoppingLists = []\<rparr>"

definition article_milk :: Article where
  "article_milk = \<lparr>articleId = ''milk'', articleName = ''Milk'', defaultUnit = ''ml'',
     packageSize = 1000, packageUnit = ''ml'', minStock = None, category = Some ''dairy''\<rparr>"

definition batchA :: Batch where
  "batchA = \<lparr>batchId = ''A'', batchArticleId = ''milk'', quantity = 3, initialQuantity = 3,
     purchaseDate = 1, expiryDate = Some 2, purchasePrice = None\<rparr>"

definition batchB :: Batch where
  "batchB = \<lparr>batchId = ''B'', batchArticleId = ''milk'', quantity = 5, initialQuantity = 5,
     purchaseDate = 1, expiryDate = Some 10, purchasePrice = None\<rparr>"

definition storeD :: Store where
  "storeD = emptyStore\<lparr>articles := [article_milk], batches := [batchB, batchA]\<rparr>"


text \<open>
  The order of the batch query, spelled out on the two dates: a batch is served before
  another when it has no expiry date and the other has one, when its expiry date is the
  earlier one, or, the expiry dates being the same (or both absent), when its purchase
  date is the earlier one.
\<close>

definition servedBefore :: "Batch \<Rightarrow> Batch \<Rightarrow> bool" where
  "servedBefore b1 b2 =
     (case (expiryDate b1, expiryDate b2) of
        (None, None) \<Rightarrow> purchaseDate b1 < purchaseDate b2
      | (None, Some e2) \<Rightarrow> True
      | (Some e1, None) \<Rightarrow> False
      | (Some e1, Some e2) \<Rightarrow> e1 < e2 \<or> (e1 = e2 \<and> purchaseDate b1 < purchaseDate b2))"


text \<open>The quantity the batch row with a given id holds (0 when there is no such row).\<close>

definition quantityOf :: "Store \<Rightarrow> string \<Rightarrow> real" where
  "quantityOf st i = (case findBatch st i of Some b \<Rightarrow> quantity b | None \<Rightarrow> 0)"




text \<open>
  When an ingredient cannot be satisfied, in the words of the specification: no article,
  a unit that does not convert into the unit of the article, or a stock smaller than
  the converted quantity.
\<close>

definition ingNeeded :: "Store \<Rightarrow> real \<Rightarrow> RecipeIngredient \<Rightarrow> Article \<Rightarrow> real option" where
  "ingNeeded st m ing article =
     (if ingUnit ing \<noteq> defaultUnit article
      then convertQuantityBetweenUnits (units st) (ingQuantity ing * m) (ingUnit ing)
             (defaultUnit article)
      else Some (ingQuantity ing * m))"

definition unsatisfiable :: "Store \<Rightarrow> real \<Rightarrow> RecipeIngredient \<Rightarrow> bool" where
  "unsatisfiable st m ing =
     (case resolveArticle st ing of
        (Some aid, Some article) \<Rightarrow>
          aid = [] \<or> (case ingNeeded st m ing article of
                        None \<Rightarrow> True
                      | Some needed \<Rightarrow> currentStock st aid < needed)
      | _ \<Rightarrow> True)"

text \<open>
  The entry that itemizes such an ingredient in \<^verbatim>\<open>missing[]\<close>: its name, quantity and
  unit when it has no article; the article, the quantity and the two units when the unit
  does not convert; the article, the needed and the available quantity when the stock is
  too small.
\<close>

definition missingEntry :: "Store \<Rightarrow> real \<Rightarrow> RecipeIngredient \<Rightarrow> MissingIngredient" where
  "missingEntry st m ing =
     (case resolveArticle st ing of
        (Some aid, Some article) \<Rightarrow>
          if aid = [] then NoArticle (missingName st ing) (ingQuantity ing * m) (ingUnit ing)
          else (case ingNeeded st m ing article of
                  None \<Rightarrow> UnitMismatch aid (articleName article) (ingQuantity ing * m)
                            (ingUnit ing) (defaultUnit article)
                | Some needed \<Rightarrow> Shortfall aid (articleName article) needed
                                 (currentStock st aid) (defaultUnit article))
      | _ \<Rightarrow> NoArticle (missingName st ing) (ingQuantity ing * m) (ingUnit ing))"

definition bodyTen :: ConsumeBatchBody where
  "bodyTen = \<lparr>bodyQuantity = 10, bodyUnit = None, bodySource = None\<rparr>"

text \<open>
  The quantity a direct batch consumption asks for, in the unit of the article: the
  quantity itself when no unit (or the empty string) comes with it, else its conversion.
\<close>

definition requestedInDefaultUnit :: "UnitData list \<Rightarrow> string \<Rightarrow> ConsumeBatchBody \<Rightarrow> real option" where
  "requestedInDefaultUnit us articleUnit body =
     (case bodyUnit body of
        None \<Rightarrow> Some (bodyQuantity body)
      | Some u \<Rightarrow> if u = [] then Some (bodyQuantity body)
                  else convertQuantityBetweenUnits us (bodyQuantity body) u articleUnit)"

text \<open>A store with 500 g of flour in one batch, and four request bodies.\<close>

definition article_flour :: Article where
  "article_flour = \<lparr>articleId = ''flour'', articleName = ''Flour'', defaultUnit = ''g'',
     packageSize = 1000, packageUnit = ''g'', minStock = None, category = Some ''baking''\<rparr>"

definition batchF :: Batch where
  "batchF = \<lparr>batchId = ''F'', batchArticleId = ''flour'', quantity = 500, initialQuantity = 1000,
     purchaseDate = 1, expiryDate = None, purchasePrice = Some 2\<rparr>"

definition storeF :: Store where
  "storeF = emptyStore\<lparr>articles := [article_flour], batches := [batchF]\<rparr>"

definition bodyBlankUnit :: ConsumeBatchBody where
  "bodyBlankUnit = \<lparr>bodyQuantity = 4, bodyUnit = Some [], bodySource = None\<rparr>"

definition bodyKg :: ConsumeBatchBody where
  "bodyKg = \<lparr>bodyQuantity = 2, bodyUnit = Some ''kg'', bodySource = None\<rparr>"

definition bodyMl :: ConsumeBatchBody where
  "bodyMl = \<lparr>bodyQuantity = 2, bodyUnit = Some ''ml'', bodySource = None\<rparr>"

definition bodyGrams :: ConsumeBatchBody where
  "bodyGrams = \<lparr>bodyQuantity = 200, bodyUnit = Some ''g'', bodySource = None\<rparr>"


text \<open>
  A kitchen with flour and milk in stock and two recipes. Pancakes need flour (in stock),
  milk counted in pieces (milk is kept in millilitres: not convertible), eggs (no article)
  and, optionally, sugar. The omelette needs eggs and milk in pieces only.
\<close>

definition ing_flour :: RecipeIngredient where
  "ing_flour = \<lparr>ingId = ''i1'', ingArticleId = Some ''flour'', categoryMatch = None,
     ingQuantity = 200, ingUnit = ''g'', isOptional = False\<rparr>"

definition ing_milk :: RecipeIngredient where
  "ing_milk = \<lparr>ingId = ''i2'', ingArticleId = Some ''milk'', categoryMatch = None,
     ingQuantity = 2, ingUnit = ''pcs'', isOptional = False\<rparr>"

definition ing_eggs :: RecipeIngredient where
  "ing_eggs = \<lparr>ingId = ''i3'', ingArticleId = None, categoryMatch = Some ''eggs'',
     ingQuantity = 3, ingUnit = ''pcs'', isOptional = False\<rparr>"

definition ing_sugar :: RecipeIngredient where
  "ing_sugar = \<lparr>ingId = ''i4'', ingArticleId = None, categoryMatch = Some ''sugar'',
     ingQuantity = 10, ingUnit = ''g'', isOptional = True\<rparr>"

definition recipe_pancakes :: Recipe where
  "recipe_pancakes = \<lparr>recipeId = ''pancakes'', recipeName = ''Pancakes'', servings = 2,
     ingredients = [ing_flour, ing_milk, ing_eggs, ing_sugar]\<rparr>"

definition recipe_omelette :: Recipe where
  "recipe_omelette = \<lparr>recipeId = ''omelette'', recipeName = ''Omelette'', servings = 1,
     ingredients = [ing_eggs, ing_milk]\<rparr>"

definition kitchen :: Store where
  "kitchen = emptyStore\<lparr>articles := [article_flour, article_milk],
     batches := [batchF, batchB, batchA], recipes := [recipe_pancakes, recipe_omelette]\<rparr>"


text \<open>
  The purchased items of a list that are linked to an article, and the quantity a batch
  is created with: the purchased quantity when one is recorded and is not zero, else the
  needed quantity.
\<close>

definition linkedPurchases :: "ShoppingList \<Rightarrow> ShoppingListItem list" where
  "linkedPurchases l = filter (\<lambda>i. isPurchased i \<and> truthyStr (itemArticleId i)) (items l)"

definition boughtQuantity :: "ShoppingListItem \<Rightarrow> real" where
  "boughtQuantity i =
     (case purchasedQuantity i of
        Some p \<Rightarrow> if p \<noteq> 0 then p else neededQuantity i
      | None \<Rightarrow> neededQuantity i)"

text \<open>
  A list with three items: milk bought as planned, flour whose recorded purchased
  quantity is 0, and a custom item without article. A second list is completed already.
\<close>

definition item_milk :: ShoppingListItem where
  "item_milk = \<lparr>itemArticleId = Some ''milk'', customName = None, neededQuantity = 1300,
     recommendedPacks = 2, reason = ''RECIPE'', estimatedPrice = Some 3, isPurchased = True,
     purchasedQuantity = Some 2000, actualPrice = Some 2.5, itemPurchaseDate = Some 20,
     itemExpiryDate = Some 30\<rparr>"

definition item_flour :: ShoppingListItem where
  "item_flour = \<lparr>itemArticleId = Some ''flour'', customName = None, neededQuantity = 500,
     recommendedPacks = 1, reason = ''LOW_STOCK'', estimatedPrice = None, isPurchased = True,
     purchasedQuantity = Some 0, actualPrice = None, itemPurchaseDate = None,
     itemExpiryDate = None\<rparr>"

definition item_custom :: ShoppingListItem where
  "item_custom = \<lparr>itemArticleId = None, customName = Some ''Candles'', neededQuantity = 1,
     recommendedPacks = 1, reason = ''MANUAL'', estimatedPrice = None, isPurchased = True,
     purchasedQuantity = None, actualPrice = None, itemPurchaseDate = None,
     itemExpiryDate = None\<rparr>"

definition list_open :: ShoppingList where
  "list_open = \<lparr>listId = ''L1'', completedAt = None,
     items = [item_milk, item_custom, item_flour]\<rparr>"

definition list_done :: ShoppingList where
  "list_done = \<lparr>listId = ''L0'', completedAt = Some 5, items = [item_milk]\<rparr>"

definition shop :: Store where
  "shop = kitchen\<lparr>shoppingLists := [list_done, list_open]\<rparr>"

text \<open>The identifiers the store hands out for new batches in the examples.\<close>

definition ids :: "nat \<Rightarrow> string" where
  "ids n = (if n = 0 then ''N0'' else if n = 1 then ''N1'' else ''N2'')"


text \<open>
  Scenario A of the specification: milk is kept in millilitres and sold in packages of
  1000 ml; the planned recipe needs 1500 ml, 200 ml are in stock, no minimum stock.
\<close>

definition batchM :: Batch where
  "batchM = \<lparr>batchId = ''M'', batchArticleId = ''milk'', quantity = 200, initialQuantity = 1000,
     purchaseDate = 1, expiryDate = Some 9, purchasePrice = None\<rparr>"

definition recipe_porridge :: Recipe where
  "recipe_porridge = \<lparr>recipeId = ''porridge'', recipeName = ''Porridge'', servings = 2,
     ingredients = [\<lparr>ingId = ''p1'', ingArticleId = Some ''milk'', categoryMatch = None,
                     ingQuantity = 1500, ingUnit = ''ml'', isOptional = False\<rparr>]\<rparr>"

definition storeA :: Store where
  "storeA = emptyStore\<lparr>articles := [article_milk], batches := [batchM],
     recipes := [recipe_porridge],
     mealPlanEntries := [\<lparr>entryDate = 5, entryCompletedAt = None, entryServings = 2,
                          entryRecipeId = ''porridge''\<rparr>]\<rparr>"

text \<open>
  Salt is kept in kilograms; the planned recipe needs 4 g of it and none is in stock.
\<close>

definition article_salt :: Article where
  "article_salt = \<lparr>articleId = ''salt'', articleName = ''Salt'', defaultUnit = ''kg'',
     packageSize = 1, packageUnit = ''kg'', minStock = None, category = None\<rparr>"

definition recipe_soup :: Recipe where
  "recipe_soup = \<lparr>recipeId = ''soup'', recipeName = ''Soup'', servings = 4,
     ingredients = [\<lparr>ingId = ''s1'', ingArticleId = Some ''salt'', categoryMatch = None,
                     ingQuantity = 4, ingUnit = ''g'', isOptional = False\<rparr>]\<rparr>"

definition storeSalt :: Store where
  "storeSalt = emptyStore\<lparr>articles := [article_salt], recipes := [recipe_soup],
     mealPlanEntries := [\<lparr>entryDate = 5, entryCompletedAt = None, entryServings = 4,
                          entryRecipeId = ''soup''\<rparr>]\<rparr>"

text \<open>
  Milk with a forecast and nothing else: no recipe is planned and milk has no minimum
  stock.
\<close>

definition storeForecast :: Store where
  "storeForecast = emptyStore\<lparr>articles := [article_milk]\<rparr>"

definition forecast_milk :: ForecastItem where
  "forecast_milk = \<lparr>fArticleId = ''milk'', fQuantity = 5000\<rparr>"

text \<open>
  Saffron: the planned recipe needs 0.1234 g of it and none is in stock.
\<close>

definition article_saffron :: Article where
  "article_saffron = \<lparr>articleId = ''saffron'', articleName = ''Saffron'', defaultUnit = ''g'',
     packageSize = 1, packageUnit = ''g'', minStock = None, category = None\<rparr>"

definition recipe_paella :: Recipe where
  "recipe_paella = \<lparr>recipeId = ''paella'', recipeName = ''Paella'', servings = 4,
     ingredients = [\<lparr>ingId = ''y1'', ingArticleId = Some ''saffron'', categoryMatch = None,
                     ingQuantity = 0.1234, ingUnit = ''g'', isOptional = False\<rparr>]\<rparr>"

definition storeSaffron :: Store where
  "storeSaffron = emptyStore\<lparr>articles := [article_saffron], recipes := [recipe_paella],
     mealPlanEntries := [\<lparr>entryDate = 5, entryCompletedAt = None, entryServings = 4,
                          entryRecipeId = ''paella''\<rparr>]\<rparr>"

text \<open>
  Rice with a minimum stock of 500 g and 200 g in stock, in no recipe; and its forecast.
\<close>

definition article_rice :: Article where
  "article_rice = \<lparr>articleId = ''rice'', articleName = ''Rice'', defaultUnit = ''g'',
     packageSize = 1000, packageUnit = ''g'', minStock = Some 500, category = None\<rparr>"

definition storeRice :: Store where
  "storeRice = emptyStore\<lparr>articles := [article_rice],
     batches := [\<lparr>batchId = ''R'', batchArticleId = ''rice'', quantity = 200,
                  initialQuantity = 1000, purchaseDate = 1, expiryDate = None,
                  purchasePrice = None\<rparr>]\<rparr>"

definition forecast_rice :: ForecastItem where
  "forecast_rice = \<lparr>fArticleId = ''rice'', fQuantity = 1000\<rparr>"

text \<open>
  Sugar with a minimum stock of 1 kg and 0.99996 kg in stock, in no recipe and without a
  forecast.
\<close>

definition article_sugar :: Article where
  "article_sugar = \<lparr>articleId = ''sugar'', articleName = ''Sugar'', defaultUnit = ''kg'',
     packageSize = 1, packageUnit = ''kg'', minStock = Some 1, category = None\<rparr>"

definition storeSugar :: Store where
  "storeSugar = emptyStore\<lparr>articles := [article_sugar],
     batches := [\<lparr>batchId = ''S'', batchArticleId = ''sugar'', quantity = 0.99996,
                  initialQuantity = 1, purchaseDate = 1, expiryDate = None,
                  purchasePrice = None\<rparr>]\<rparr>"

text \<open>
  Eggs, sold in packages of 10 pieces, with a forecast of 25 pieces and nothing else: no
  recipe is planned and eggs have no minimum stock.
\<close>

definition article_eggs :: Article where
  "article_eggs = \<lparr>articleId = ''eggs'', articleName = ''Eggs'', defaultUnit = ''pcs'',
     packageSize = 10, packageUnit = ''pcs'', minStock = None, category = None\<rparr>"

definition storeEggs :: Store where
  "storeEggs = emptyStore\<lparr>articles := [article_eggs]\<rparr>"

definition forecast_eggs :: ForecastItem where
  "forecast_eggs = \<lparr>fArticleId = ''eggs'', fQuantity = 25\<rparr>"

subsection \<open>The three loops as list comprehensions\<close>

definition linkedIds :: "Required list \<Rightarrow> string set" where
  "linkedIds rs = {a. a \<noteq> [] \<and> (\<exists>r \<in> set rs. reqArticleId r = Some a)}"

definition forecastIds :: "ForecastItem list \<Rightarrow> string set" where
  "forecastIds fs = {a. \<exists>f \<in> set fs. fArticleId f = a}"

subsection \<open>The required ingredients have one entry for each article\<close>

definition keyed :: "(string \<times> Required) list \<Rightarrow> bool" where
  "keyed reqs =
     (distinct (map fst reqs)
      \<and> (\<forall>(k, r) \<in> set reqs. truthyStr (reqArticleId r) \<longrightarrow> reqArticleId r = Some k))"

definition recipeNeedOf :: "(string \<times> Required) list \<Rightarrow> string \<Rightarrow> real option" where
  "recipeNeedOf reqs a =
     (case map_of reqs a of
        Some r \<Rightarrow> if reqArticleId r = Some a then Some (totalQuantity r) else None
      | None \<Rightarrow> None)"

text \<open>The minimum stock of an article that counts: present and not zero.\<close>

definition minStockOf :: "Article \<Rightarrow> real" where
  "minStockOf art = (case minStock art of Some v \<Rightarrow> v | None \<Rightarrow> 0)"

definition forecastOf :: "ForecastItem list \<Rightarrow> string \<Rightarrow> real option" where
  "forecastOf fc a = map_option fQuantity (find (\<lambda>f. fArticleId f = a) fc)"

text \<open>The items an article can get from each of the three branches.\<close>

definition fromRecipes :: "UnitData list \<Rightarrow> Maps \<Rightarrow> (string \<times> Required) list \<Rightarrow> string \<Rightarrow> NewItem list" where
  "fromRecipes us m reqs a =
     (case map_of reqs a of
        Some r \<Rightarrow> if reqArticleId r = Some a then List.map_filter (recipeItem us m) [r] else []
      | None \<Rightarrow> [])"

definition fromForecast :: "UnitData list \<Rightarrow> Maps \<Rightarrow> ForecastItem list \<Rightarrow> string \<Rightarrow> NewItem list" where
  "fromForecast us m fc a =
     (case find (\<lambda>f. fArticleId f = a) fc of
        Some f \<Rightarrow> List.map_filter (forecastItem us m) [f]
      | None \<Rightarrow> [])"

definition storedNeed :: "real \<Rightarrow> real list" where
  "storedNeed net =
     (let totalNeed = roundQuantity net in if totalNeed > 0 then [round2 totalNeed] else [])"

definition recipeTagged :: "(string \<times> Required) list \<Rightarrow> bool" where
  "recipeTagged reqs = (\<forall>(k, r) \<in> set reqs. reqReason r = ''RECIPE'')"


section \<open>Theorems about unit conversion\<close>

lemmas example_units =
  unit_g_def unit_kg_def unit_ml_def unit_pcs_def unit_sheet_def unit_roll_def
  unit_blankA_def unit_blankB_def unit_pack_def

lemmas truthy_defs = truthyStr_def truthyNum_def

text \<open>
  Outside the rows that the unit table can hold the rules read differently: the source
  tests the group, the target id and the amount for truthiness, so two units whose group
  is the empty string would share a non-null group and still not convert.
\<close>

lemma convertUnits_blank_group:
  "\<not> storedUnit unit_blankA \<and> sharesGroup unit_blankA unit_blankB
   \<and> convertUnits 5 unit_blankA unit_blankB = None"
  by (simp add: convertUnits_def example_units truthy_defs targets_def storedUnit_def
      sharesGroup_def)

text \<open>
  Claim C5: on rows of the unit table, \<^const>\<open>convertUnits\<close> applies these rules in order
  and returns the first match: (1) the same symbol returns the input unchanged; (2) both
  units sharing a non-null conversion group returns \<open>quantity * fromFactor / toFactor\<close>;
  (3) a custom conversion edge on the source unit that targets the destination unit
  returns \<open>quantity * convertsToAmount\<close>; (4) a custom edge on the destination unit that
  targets the source unit returns \<open>quantity / convertsToAmount\<close>; (5) otherwise the result
  is the not-convertible value, with no multi-hop and no group-crossing resolution. So
  \<open>convert(2, kg, g) = 2000\<close> for the factors 1000 and 1 in the group mass, and with an
  edge from Roll to Sheet of amount 50, \<open>convert(2, Roll, Sheet) = 100\<close> and
  \<open>convert(100, Sheet, Roll) = 2\<close>; a kilogram does not convert to millilitres (another
  group), nor a pack of rolls to sheets (two hops).
\<close>

theorem convertUnits_rules:
  assumes "storedUnit f" and "storedUnit t"
  shows "convertUnits q f t =
     (if symbol f = symbol t then Some q
      else if sharesGroup f t then Some (q * conversionFactor f / conversionFactor t)
      else case customEdge f t of
             Some a \<Rightarrow> Some (q * a)
           | None \<Rightarrow> (case customEdge t f of Some a \<Rightarrow> Some (q / a) | None \<Rightarrow> None))
   \<and> convertUnits 2 unit_kg unit_g = Some 2000
   \<and> convertUnits 2 unit_roll unit_sheet = Some 100
   \<and> convertUnits 100 unit_sheet unit_roll = Some 2
   \<and> convertUnits 1 unit_kg unit_ml = None
   \<and> convertUnits 1 unit_pack unit_sheet = None"
proof -
  have rules: "convertUnits q f t =
     (if symbol f = symbol t then Some q
      else if sharesGroup f t then Some (q * conversionFactor f / conversionFactor t)
      else case customEdge f t of
             Some a \<Rightarrow> Some (q * a)
           | None \<Rightarrow> (case customEdge t f of Some a \<Rightarrow> Some (q / a) | None \<Rightarrow> None))"
    using assms
    by (auto simp: convertUnits_def sharesGroup_def customEdge_def truthy_defs storedUnit_def
        split: option.splits)
  have scenarios: "convertUnits 2 unit_kg unit_g = Some 2000"
    "convertUnits 2 unit_roll unit_sheet = Some 100"
    "convertUnits 100 unit_sheet unit_roll = Some 2"
    "convertUnits 1 unit_kg unit_ml = None"
    "convertUnits 1 unit_pack unit_sheet = None"
    by (simp_all add: convertUnits_def example_units truthy_defs targets_def)
  from rules scenarios show ?thesis by simp
qed

theorem convertUnits_rules_witness:
  "storedUnit unit_kg \<and> storedUnit unit_g \<and> storedUnit unit_roll \<and> storedUnit unit_sheet
   \<and> storedUnit unit_ml \<and> storedUnit unit_pack
   \<and> symbol unit_kg \<noteq> symbol unit_g \<and> sharesGroup unit_kg unit_g
   \<and> convertUnits 2 unit_kg unit_g = Some (2 * conversionFactor unit_kg / conversionFactor unit_g)
   \<and> \<not> sharesGroup unit_roll unit_sheet \<and> customEdge unit_roll unit_sheet = Some 50
   \<and> convertUnits 2 unit_roll unit_sheet = Some (2 * 50)
   \<and> customEdge unit_sheet unit_roll = None
   \<and> convertUnits 100 unit_sheet unit_roll = Some (100 / 50)
   \<and> \<not> sharesGroup unit_kg unit_ml \<and> customEdge unit_kg unit_ml = None
   \<and> customEdge unit_ml unit_kg = None
   \<and> convertUnits 1 unit_kg unit_ml = None
   \<and> \<not> sharesGroup unit_pack unit_sheet \<and> customEdge unit_pack unit_sheet = None
   \<and> customEdge unit_sheet unit_pack = None
   \<and> convertUnits 7 unit_pack unit_sheet = None"
proof -
  have stored: "storedUnit unit_kg" "storedUnit unit_g" "storedUnit unit_roll"
    "storedUnit unit_sheet" "storedUnit unit_ml" "storedUnit unit_pack"
    by (simp_all add: storedUnit_def example_units)
  have conds: "symbol unit_kg \<noteq> symbol unit_g" "sharesGroup unit_kg unit_g"
    "symbol unit_roll \<noteq> symbol unit_sheet" "\<not> sharesGroup unit_roll unit_sheet"
    "customEdge unit_roll unit_sheet = Some 50"
    "symbol unit_sheet \<noteq> symbol unit_roll" "\<not> sharesGroup unit_sheet unit_roll"
    "customEdge unit_sheet unit_roll = None"
    "symbol unit_kg \<noteq> symbol unit_ml" "\<not> sharesGroup unit_kg unit_ml"
    "customEdge unit_kg unit_ml = None" "customEdge unit_ml unit_kg = None"
    "symbol unit_pack \<noteq> symbol unit_sheet" "\<not> sharesGroup unit_pack unit_sheet"
    "customEdge unit_pack unit_sheet = None" "customEdge unit_sheet unit_pack = None"
    by (simp_all add: sharesGroup_def customEdge_def targets_def example_units)
  have a: "convertUnits 2 unit_kg unit_g
             = Some (2 * conversionFactor unit_kg / conversionFactor unit_g)"
    using convertUnits_rules[OF stored(1,2), of 2] conds by simp
  have b: "convertUnits 2 unit_roll unit_sheet = Some (2 * 50)"
    using convertUnits_rules[OF stored(3,4), of 2] conds by simp
  have c: "convertUnits 100 unit_sheet unit_roll = Some (100 / 50)"
    using convertUnits_rules[OF stored(4,3), of 100] conds by simp
  have d: "convertUnits 1 unit_kg unit_ml = None"
    using convertUnits_rules[OF stored(1,5), of 1] conds by simp
  have e: "convertUnits 7 unit_pack unit_sheet = None"
    using convertUnits_rules[OF stored(6,4), of 7] conds by simp
  from stored conds a b c d e show ?thesis by simp
qed


section \<open>Theorems about FIFO consumption\<close>

lemma totalStock_nonneg: "\<forall>b\<in>set bs. 0 < quantity b \<Longrightarrow> 0 \<le> totalStock bs"
  unfolding totalStock_def by (induction bs) auto

lemma totalStock_Cons [simp]: "totalStock (b # bs) = quantity b + totalStock bs"
  by (simp add: totalStock_def)

lemma totalStock_Nil [simp]: "totalStock [] = 0"
  by (simp add: totalStock_def)

lemma consumeLoop_step:
  "0 < r \<Longrightarrow> consumeLoop mk (b # bs) r ls st =
     consumeLoop mk bs (r - min (quantity b) r) (ls @ [mk b (min (quantity b) r)])
       (createLog (mk b (min (quantity b) r))
          (updateBatchQuantity (batchId b) (quantity b - min (quantity b) r) st))"
  by (simp add: Let_def)

lemma consumeLoop_stop: "r \<le> 0 \<Longrightarrow> consumeLoop mk bs r ls st = (r, ls, st)"
  by (cases bs) simp_all

lemma consumeLoop_remaining:
  "\<forall>b\<in>set bs. 0 < quantity b \<Longrightarrow> 0 \<le> r \<Longrightarrow>
   fst (consumeLoop mk bs r ls st) = max 0 (r - totalStock bs)"
proof (induction bs arbitrary: r ls st)
  case Nil
  then show ?case by simp
next
  case (Cons b bs)
  have pos: "0 \<le> totalStock bs" using Cons.prems(1) by (simp add: totalStock_nonneg)
  show ?case
  proof (cases "r \<le> 0")
    case True
    with Cons.prems pos show ?thesis by (auto simp: max_def)
  next
    case False
    have "0 \<le> r - min (quantity b) r" by simp
    with Cons.IH[of "r - min (quantity b) r"] Cons.prems(1)
    have "fst (consumeLoop mk bs (r - min (quantity b) r) (ls @ [mk b (min (quantity b) r)])
        (createLog (mk b (min (quantity b) r)) (updateBatchQuantity (batchId b) (quantity b - min (quantity b) r) st)))
      = max 0 (r - min (quantity b) r - totalStock bs)" by simp
    with False pos show ?thesis by (auto simp: Let_def max_def min_def)
  qed
qed

lemma consumeLoop_logs:
  assumes "\<forall>b\<in>set bs. 0 < quantity b" and "0 \<le> r" and "\<And>b q. logQuantity (mk b q) = q"
  shows "\<exists>new. fst (snd (consumeLoop mk bs r ls st)) = ls @ new
           \<and> consumptionLogs (snd (snd (consumeLoop mk bs r ls st))) = consumptionLogs st @ new
           \<and> sum_list (map logQuantity new) = r - fst (consumeLoop mk bs r ls st)
           \<and> (\<forall>l\<in>set new. 0 < logQuantity l \<and> (\<exists>b\<in>set bs. l = mk b (logQuantity l)))"
  using assms(1,2)
proof (induction bs arbitrary: r ls st)
  case Nil
  then show ?case by simp
next
  case (Cons b bs)
  show ?case
  proof (cases "r \<le> 0")
    case True
    then show ?thesis by (simp add: consumeLoop_stop)
  next
    case False
    define c where "c = min (quantity b) r"
    define st2 where "st2 = createLog (mk b c) (updateBatchQuantity (batchId b) (quantity b - c) st)"
    have cpos: "0 < c" using False Cons.prems by (simp add: c_def)
    have step: "consumeLoop mk (b # bs) r ls st = consumeLoop mk bs (r - c) (ls @ [mk b c]) st2"
      using False by (simp add: Let_def c_def st2_def)
    have "0 \<le> r - c" by (simp add: c_def)
    from Cons.IH[OF _ this, of "ls @ [mk b c]" st2] Cons.prems(1)
    obtain new where n: "fst (snd (consumeLoop mk bs (r - c) (ls @ [mk b c]) st2)) = (ls @ [mk b c]) @ new"
      "consumptionLogs (snd (snd (consumeLoop mk bs (r - c) (ls @ [mk b c]) st2))) = consumptionLogs st2 @ new"
      "sum_list (map logQuantity new) = r - c - fst (consumeLoop mk bs (r - c) (ls @ [mk b c]) st2)"
      "\<forall>l\<in>set new. 0 < logQuantity l \<and> (\<exists>b\<in>set bs. l = mk b (logQuantity l))"
      by auto
    have logs2: "consumptionLogs st2 = consumptionLogs st @ [mk b c]"
      by (simp add: st2_def createLog_def updateBatchQuantity_def)
    show ?thesis
      unfolding step
      apply (rule exI[of _ "mk b c # new"])
      using n cpos logs2 assms(3) by auto
  qed
qed

lemma update_nonNegative:
  "nonNegative st \<Longrightarrow> 0 \<le> v \<Longrightarrow> nonNegative (updateBatchQuantity i v st)"
  by (auto simp: nonNegative_def updateBatchQuantity_def)

lemma createLog_nonNegative [simp]: "nonNegative (createLog l st) = nonNegative st"
  by (simp add: nonNegative_def createLog_def)

lemma consumeLoop_nonNegative:
  "nonNegative st \<Longrightarrow> nonNegative (snd (snd (consumeLoop mk bs r ls st)))"
proof (induction bs arbitrary: r ls st)
  case Nil
  then show ?case by simp
next
  case (Cons b bs)
  show ?case
  proof (cases "r \<le> 0")
    case True
    with Cons.prems show ?thesis by simp
  next
    case False
    have "0 \<le> quantity b - min (quantity b) r" by simp
    then have "nonNegative (createLog (mk b (min (quantity b) r))
        (updateBatchQuantity (batchId b) (quantity b - min (quantity b) r) st))"
      using Cons.prems by (simp add: update_nonNegative)
    from Cons.IH[OF this] False show ?thesis by (simp add: Let_def)
  qed
qed

lemma consumeLoop_frame:
  "articles (snd (snd (consumeLoop mk bs r ls st))) = articles st
   \<and> units (snd (snd (consumeLoop mk bs r ls st))) = units st
   \<and> recipes (snd (snd (consumeLoop mk bs r ls st))) = recipes st
   \<and> mealPlanEntries (snd (snd (consumeLoop mk bs r ls st))) = mealPlanEntries st
   \<and> shoppingLists (snd (snd (consumeLoop mk bs r ls st))) = shoppingLists st
   \<and> map batchId (batches (snd (snd (consumeLoop mk bs r ls st)))) = map batchId (batches st)
   \<and> map batchArticleId (batches (snd (snd (consumeLoop mk bs r ls st))))
        = map batchArticleId (batches st)"
proof (induction bs arbitrary: r ls st)
  case Nil
  then show ?case by simp
next
  case (Cons b bs)
  show ?case
  proof (cases "r \<le> 0")
    case True
    then show ?thesis by simp
  next
    case False
    have "map batchId (map (\<lambda>x. if batchId x = batchId b then x\<lparr>quantity := v\<rparr> else x) xs) = map batchId xs"
      and "map batchArticleId (map (\<lambda>x. if batchId x = batchId b then x\<lparr>quantity := v\<rparr> else x) xs) = map batchArticleId xs" for v xs
      by (induction xs) auto
    with Cons.IH[of "r - min (quantity b) r" "ls @ [mk b (min (quantity b) r)]"
        "createLog (mk b (min (quantity b) r))
        (updateBatchQuantity (batchId b) (quantity b - min (quantity b) r) st)"] False
    show ?thesis by (simp add: Let_def createLog_def updateBatchQuantity_def)
  qed
qed

lemma sum_list_sort_key: "sum_list (map f (sort_key k xs)) = sum_list (map (f::'a \<Rightarrow> real) xs)"
proof -
  have "mset (map f (sort_key k xs)) = mset (map f xs)" by simp
  then show ?thesis by (metis sum_mset_sum_list)
qed

lemma currentStock_eq:
  "currentStock st aid = sum_list (map quantity (positiveBatches st aid))"
  by (simp add: currentStock_def stockBatches_def totalStock_def sum_list_sort_key)

lemma stockBatches_set: "set (stockBatches st aid) = set (positiveBatches st aid)"
  by (simp add: stockBatches_def)

lemma stockBatches_positive: "\<forall>b\<in>set (stockBatches st aid). 0 < quantity b \<and> batchArticleId b = aid"
  by (auto simp: stockBatches_def positiveBatches_def)

lemma stockBatches_subset: "set (stockBatches st aid) \<subseteq> set (batches st)"
  by (auto simp: stockBatches_def positiveBatches_def)

lemma stockBatches_distinct:
  "distinct (map batchId (batches st)) \<Longrightarrow> distinct (map batchId (stockBatches st aid))"
proof -
  assume d: "distinct (map batchId (batches st))"
  have "mset (map batchId (stockBatches st aid)) = mset (map batchId (positiveBatches st aid))"
    by (simp add: stockBatches_def)
  moreover have "distinct (map batchId (positiveBatches st aid))"
    using d by (simp add: positiveBatches_def distinct_map_filter)
  ultimately show ?thesis by (metis mset_eq_imp_distinct_iff)
qed

text \<open>The stock of an article after one batch row is rewritten.\<close>

lemma stockIn_update_other:
  "batchId b \<notin> batchId ` set xs \<Longrightarrow>
   map (\<lambda>x. if batchId x = batchId b then x\<lparr>quantity := v\<rparr> else x) xs = xs"
  by (induction xs) auto

lemma stockIn_update:
  assumes "distinct (map batchId xs)" and "b \<in> set xs" and "0 \<le> v" and "0 < quantity b"
  shows "stockIn aid (map (\<lambda>x. if batchId x = batchId b then x\<lparr>quantity := v\<rparr> else x) xs)
         = stockIn aid xs - (if batchArticleId b = aid then quantity b - v else 0)"
  using assms(1,2)
proof (induction xs)
  case Nil
  then show ?case by simp
next
  case (Cons x xs)
  show ?case
  proof (cases "x = b")
    case True
    then have "batchId b \<notin> batchId ` set xs" using Cons.prems by auto
    then have "map (\<lambda>x. if batchId x = batchId b then x\<lparr>quantity := v\<rparr> else x) xs = xs"
      by (rule stockIn_update_other)
    with True assms(3,4) show ?thesis by (auto simp: stockIn_def)
  next
    case False
    then have "b \<in> set xs" using Cons.prems by auto
    moreover then have "batchId x \<noteq> batchId b" using Cons.prems by auto
    ultimately show ?thesis using Cons by (auto simp: stockIn_def)
  qed
qed

lemma currentStock_stockIn: "currentStock st aid = stockIn aid (batches st)"
  by (simp add: currentStock_eq positiveBatches_def stockIn_def)

lemma consumeLoop_stock:
  assumes "distinct (map batchId (batches st))" and "set bs \<subseteq> set (batches st)"
    and "distinct (map batchId bs)" and "\<forall>b\<in>set bs. 0 < quantity b \<and> batchArticleId b = aid"
    and "0 \<le> r"
  shows "stockIn a (batches (snd (snd (consumeLoop mk bs r ls st))))
         = stockIn a (batches st) - (if a = aid then r - fst (consumeLoop mk bs r ls st) else 0)"
  using assms
proof (induction bs arbitrary: r ls st)
  case Nil
  then show ?case by simp
next
  case (Cons b bs)
  show ?case
  proof (cases "r \<le> 0")
    case True
    then show ?thesis by simp
  next
    case False
    define c where "c = min (quantity b) r"
    define st2 where "st2 = createLog (mk b c) (updateBatchQuantity (batchId b) (quantity b - c) st)"
    have step: "consumeLoop mk (b # bs) r ls st = consumeLoop mk bs (r - c) (ls @ [mk b c]) st2"
      using False by (simp add: Let_def c_def st2_def)
    have b2: "batches st2 = map (\<lambda>x. if batchId x = batchId b then x\<lparr>quantity := quantity b - c\<rparr> else x) (batches st)"
      by (simp add: st2_def createLog_def updateBatchQuantity_def)
    have ids: "map batchId (batches st2) = map batchId (batches st)"
      unfolding b2 by (induction "batches st") auto
    have d2: "distinct (map batchId (batches st2))" using Cons.prems(1) ids by simp
    have sub2: "set bs \<subseteq> set (batches st2)"
    proof
      fix y assume y: "y \<in> set bs"
      then have "batchId y \<noteq> batchId b" using Cons.prems(3) by (metis distinct.simps(2) image_eqI list.simps(9) set_map)
      moreover have "y \<in> set (batches st)" using y Cons.prems(2) by auto
      ultimately show "y \<in> set (batches st2)" unfolding b2 by force
    qed
    have bin: "b \<in> set (batches st)" using Cons.prems(2) by simp
    have bpos: "0 < quantity b" "batchArticleId b = aid" using Cons.prems(4) by auto
    have v: "0 \<le> quantity b - c" by (simp add: c_def)
    have s2: "stockIn a (batches st2) = stockIn a (batches st) - (if a = aid then c else 0)"
      unfolding b2 using stockIn_update[OF Cons.prems(1) bin v bpos(1), of a] bpos(2) by auto
    have "0 \<le> r - c" by (simp add: c_def)
    from Cons.IH[OF d2 sub2 _ _ this, of "ls @ [mk b c]"] Cons.prems(3,4)
    have "stockIn a (batches (snd (snd (consumeLoop mk bs (r - c) (ls @ [mk b c]) st2))))
         = stockIn a (batches st2) - (if a = aid then r - c - fst (consumeLoop mk bs (r - c) (ls @ [mk b c]) st2) else 0)"
      by simp
    with s2 show ?thesis unfolding step by simp
  qed
qed

lemmas store_defs = emptyStore_def article_milk_def batchA_def batchB_def storeD_def

lemmas query_defs = currentStock_def stockBatches_def positiveBatches_def totalStock_def fifoKey_def
  findBatch_def findArticle_def

lemma stockBatches_storeD: "stockBatches storeD ''milk'' = [batchA, batchB]"
  by (simp add: store_defs query_defs)

text \<open>
  Claim C2, amended: for every call of \<^const>\<open>consumeFromArticle\<close> with a requested
  quantity \<open>q > 0\<close> against a total available stock \<open>S > 0\<close>, the returned values satisfy
  \<open>consumed + remaining = q\<close> and \<open>consumed \<le> S\<close> (indeed \<open>consumed = min q S\<close>, the sum of
  the log entries written); when \<open>S < q\<close> the call still consumes, up to \<open>S\<close>, and reports
  the shortfall by \<open>remaining > 0\<close> instead of failing; the stock left is \<open>S - consumed\<close>
  (batch ids being unique). When the article has no batch in stock at all (\<open>S = 0\<close>) the
  call is rejected with "No stock available" and changes nothing.
\<close>

theorem consumeFromArticle_conservation:
  assumes "0 < q"
  shows "(currentStock st aid = 0 \<longrightarrow>
            consumeFromArticle st aid (Some q) src = (Inl (BadRequest ''No stock available''), st))
       \<and> (0 < currentStock st aid \<longrightarrow>
            (\<exists>res st'. consumeFromArticle st aid (Some q) src = (Inr res, st')
               \<and> consumed res + remaining res = q
               \<and> consumed res \<le> currentStock st aid
               \<and> consumed res = min q (currentStock st aid)
               \<and> (currentStock st aid < q \<longrightarrow> 0 < remaining res)
               \<and> sum_list (map logQuantity (logs res)) = consumed res
               \<and> (distinct (map batchId (batches st))
                    \<longrightarrow> currentStock st' aid = currentStock st aid - consumed res)))"
proof -
  let ?bs = "stockBatches st aid"
  have pos: "\<forall>b\<in>set ?bs. 0 < quantity b" using stockBatches_positive by blast
  have posa: "\<forall>b\<in>set ?bs. 0 < quantity b \<and> batchArticleId b = aid" using stockBatches_positive by blast
  have empty: "?bs = [] \<longleftrightarrow> currentStock st aid = 0"
  proof
    assume "?bs = []" then show "currentStock st aid = 0" by (simp add: currentStock_def)
  next
    assume z: "currentStock st aid = 0"
    show "?bs = []"
    proof (cases ?bs)
      case Nil then show ?thesis .
    next
      case (Cons b bs')
      then have "0 < quantity b" "\<forall>x\<in>set bs'. 0 < quantity x" using pos by auto
      then have "0 < totalStock ?bs" using totalStock_nonneg[of bs'] Cons by simp
      with z show ?thesis by (simp add: currentStock_def)
    qed
  qed
  have part1: "currentStock st aid = 0 \<longrightarrow>
            consumeFromArticle st aid (Some q) src = (Inl (BadRequest ''No stock available''), st)"
    using assms empty by (simp add: consumeFromArticle_def Let_def)
  have part2: "\<exists>res st'. consumeFromArticle st aid (Some q) src = (Inr res, st')
               \<and> consumed res + remaining res = q
               \<and> consumed res \<le> currentStock st aid
               \<and> consumed res = min q (currentStock st aid)
               \<and> (currentStock st aid < q \<longrightarrow> 0 < remaining res)
               \<and> sum_list (map logQuantity (logs res)) = consumed res
               \<and> (distinct (map batchId (batches st))
                    \<longrightarrow> currentStock st' aid = currentStock st aid - consumed res)"
    if S: "0 < currentStock st aid"
  proof -
    define source where "source = (case src of None \<Rightarrow> ''MANUAL'' | Some s \<Rightarrow> s)"
    define out where "out = consumeLoop (manualLog aid source) ?bs q [] st"
    define r where "r = fst out"
    define ls where "ls = fst (snd out)"
    define st' where "st' = snd (snd out)"
    have out: "out = (r, ls, st')" by (simp add: r_def ls_def st'_def)
    have ne: "?bs \<noteq> []" using S empty by simp
    have run: "consumeFromArticle st aid (Some q) src
        = (Inr \<lparr>consumed = q - r, remaining = r, logs = ls\<rparr>, st')"
      using assms ne out by (simp add: consumeFromArticle_def Let_def source_def out_def)
    have r: "r = max 0 (q - currentStock st aid)"
      using consumeLoop_remaining[OF pos, of q] assms
      by (simp add: r_def out_def currentStock_def)
    obtain new where new: "ls = [] @ new" "sum_list (map logQuantity new) = q - r"
      using consumeLoop_logs[OF pos, of q "manualLog aid source" "[]" st] assms
      by (auto simp: ls_def r_def out_def manualLog_def)
    have stock: "currentStock st' aid = currentStock st aid - (q - r)"
      if d: "distinct (map batchId (batches st))"
      using consumeLoop_stock[OF d stockBatches_subset stockBatches_distinct[OF d] posa, of q aid]
        assms
      by (simp add: currentStock_stockIn st'_def r_def out_def)
    show ?thesis
      apply (rule exI[of _ "\<lparr>consumed = q - r, remaining = r, logs = ls\<rparr>"])
      apply (rule exI[of _ st'])
      using run r new stock S by (auto simp: max_def min_def)
  qed
  from part1 part2 show ?thesis by blast
qed

text \<open>
  Claim C2, as stated, fails for an article without stock: the available stock \<open>0\<close> is
  less than the requested quantity, and the call fails with an error instead of
  reporting the shortfall.
\<close>

theorem consumeFromArticle_no_stock_counterexample:
  "currentStock emptyStore ''milk'' < 1
   \<and> consumeFromArticle emptyStore ''milk'' (Some 1) None
       = (Inl (BadRequest ''No stock available''), emptyStore)"
  by (simp add: consumeFromArticle_def store_defs query_defs)

theorem consumeFromArticle_conservation_witness:
  "(0::real) < 10 \<and> 0 < currentStock storeD ''milk'' \<and> currentStock storeD ''milk'' < 10
   \<and> distinct (map batchId (batches storeD))
   \<and> (\<exists>res st'. consumeFromArticle storeD ''milk'' (Some 10) None = (Inr res, st')
          \<and> consumed res = 8 \<and> remaining res = 2 \<and> currentStock st' ''milk'' = 0)
   \<and> currentStock emptyStore ''milk'' = 0
   \<and> consumeFromArticle emptyStore ''milk'' (Some 10) None
       = (Inl (BadRequest ''No stock available''), emptyStore)"
proof -
  have S: "currentStock storeD ''milk'' = 8" "distinct (map batchId (batches storeD))"
    "currentStock emptyStore ''milk'' = 0"
    by (simp_all add: store_defs query_defs)
  from consumeFromArticle_conservation[of 10 storeD "''milk''" None] S
  obtain res st' where "consumeFromArticle storeD ''milk'' (Some 10) None = (Inr res, st')"
    "consumed res + remaining res = 10" "consumed res = 8" "currentStock st' ''milk'' = 0"
    by auto
  moreover from consumeFromArticle_conservation[of 10 emptyStore "''milk''" None] S
  have "consumeFromArticle emptyStore ''milk'' (Some 10) None
       = (Inl (BadRequest ''No stock available''), emptyStore)" by simp
  ultimately show ?thesis using S by auto
qed

lemma currentStock_nonneg: "0 \<le> currentStock st aid"
  unfolding currentStock_def using totalStock_nonneg stockBatches_positive by blast

subsection \<open>Which batches the loop drains\<close>

lemma quantityOf_createLog [simp]: "quantityOf (createLog l st) j = quantityOf st j"
  by (simp add: quantityOf_def findBatch_def createLog_def)

lemma find_update:
  "find (\<lambda>b. batchId b = j) (map (\<lambda>b. if batchId b = i then b\<lparr>quantity := v\<rparr> else b) xs)
   = map_option (\<lambda>b. if batchId b = i then b\<lparr>quantity := v\<rparr> else b) (find (\<lambda>b. batchId b = j) xs)"
  by (induction xs) auto

lemma quantityOf_update:
  "quantityOf (updateBatchQuantity i v st) j =
     (if j = i \<and> findBatch st i \<noteq> None then v else quantityOf st j)"
proof (cases "find (\<lambda>b. batchId b = j) (batches st)")
  case None
  then show ?thesis
    by (auto simp: quantityOf_def findBatch_def updateBatchQuantity_def find_update)
next
  case (Some b)
  then have "batchId b = j" by (auto simp: find_Some_iff)
  with Some show ?thesis
    by (auto simp: quantityOf_def findBatch_def updateBatchQuantity_def find_update)
qed

lemma findBatch_member:
  assumes "distinct (map batchId (batches st))" and "b \<in> set (batches st)"
  shows "findBatch st (batchId b) = Some b"
proof -
  have "distinct (map batchId xs) \<Longrightarrow> b \<in> set xs \<Longrightarrow> find (\<lambda>x. batchId x = batchId b) xs = Some b"
    for xs
  proof (induction xs)
    case Nil
    then show ?case by simp
  next
    case (Cons x xs)
    show ?case
    proof (cases "x = b")
      case True
      then show ?thesis by simp
    next
      case False
      then have "b \<in> set xs" using Cons.prems by simp
      then have "batchId b \<in> set (map batchId xs)" by simp
      moreover have "batchId x \<notin> set (map batchId xs)" using Cons.prems(1) by simp
      ultimately have "batchId x \<noteq> batchId b" by metis
      with Cons \<open>b \<in> set xs\<close> show ?thesis by simp
    qed
  qed
  with assms show ?thesis by (simp add: findBatch_def)
qed

lemma quantityOf_member:
  "distinct (map batchId (batches st)) \<Longrightarrow> b \<in> set (batches st) \<Longrightarrow>
   quantityOf st (batchId b) = quantity b"
  by (simp add: quantityOf_def findBatch_member)

lemma consumeLoop_untouched:
  "\<forall>b\<in>set bs. batchId b \<noteq> j \<Longrightarrow>
   quantityOf (snd (snd (consumeLoop mk bs r ls st))) j = quantityOf st j"
proof (induction bs arbitrary: r ls st)
  case Nil
  then show ?case by simp
next
  case (Cons b bs)
  show ?case
  proof (cases "r \<le> 0")
    case True
    then show ?thesis by simp
  next
    case False
    then have "0 < r" by simp
    from Cons.IH[of "r - min (quantity b) r" "ls @ [mk b (min (quantity b) r)]"
        "createLog (mk b (min (quantity b) r))
          (updateBatchQuantity (batchId b) (quantity b - min (quantity b) r) st)"] Cons.prems
    show ?thesis
      unfolding consumeLoop_step[OF \<open>0 < r\<close>] by (auto simp: quantityOf_update)
  qed
qed

lemma totalStock_append [simp]: "totalStock (xs @ ys) = totalStock xs + totalStock ys"
  by (simp add: totalStock_def)

text \<open>
  The quantity a batch of the list is left with: what the batches before it leave of the
  request is taken from it, as far as it goes.
\<close>

lemma consumeLoop_quantity:
  assumes "distinct (map batchId (batches st))" and "set (xs @ b # ys) \<subseteq> set (batches st)"
    and "distinct (map batchId (xs @ b # ys))" and "\<forall>x\<in>set (xs @ b # ys). 0 < quantity x"
  shows "quantityOf (snd (snd (consumeLoop mk (xs @ b # ys) r ls st))) (batchId b)
         = quantity b - min (quantity b) (max 0 (r - totalStock xs))"
  using assms
proof (induction xs arbitrary: r ls st)
  case Nil
  have q: "quantityOf st (batchId b) = quantity b"
    using Nil.prems(1,2) by (simp add: quantityOf_member)
  have pos: "0 < quantity b" using Nil.prems(4) by simp
  show ?case
  proof (cases "r \<le> 0")
    case True
    with q pos show ?thesis by (simp add: max_def min_def)
  next
    case False
    then have r: "0 < r" by simp
    have other: "\<forall>y\<in>set ys. batchId y \<noteq> batchId b"
    proof
      fix y assume "y \<in> set ys"
      then have "batchId y \<in> set (map batchId ys)" by simp
      moreover have "batchId b \<notin> set (map batchId ys)" using Nil.prems(3) by simp
      ultimately show "batchId y \<noteq> batchId b" by metis
    qed
    have found: "findBatch st (batchId b) \<noteq> None"
      using Nil.prems(1,2) by (simp add: findBatch_member)
    have "consumeLoop mk ([] @ b # ys) r ls st =
        consumeLoop mk ys (r - min (quantity b) r) (ls @ [mk b (min (quantity b) r)])
          (createLog (mk b (min (quantity b) r))
             (updateBatchQuantity (batchId b) (quantity b - min (quantity b) r) st))"
      using consumeLoop_step[OF r] by simp
    then show ?thesis
      using r found
      by (simp only: consumeLoop_untouched[OF other])
        (simp add: quantityOf_update max_def)
  qed
next
  case (Cons x xs)
  have posx: "0 < quantity x" using Cons.prems(4) by simp
  have posxs: "0 \<le> totalStock xs" using Cons.prems(4) by (simp add: totalStock_nonneg)
  have bin: "b \<in> set (batches st)" using Cons.prems(2) by simp
  show ?case
  proof (cases "r \<le> 0")
    case True
    with posx posxs bin Cons.prems(1) Cons.prems(4) show ?thesis
      by (simp add: quantityOf_member max_def min_def)
  next
    case False
    then have r: "0 < r" by simp
    define c where "c = min (quantity x) r"
    define st2 where "st2 = createLog (mk x c) (updateBatchQuantity (batchId x) (quantity x - c) st)"
    have b2: "batches st2 = map (\<lambda>y. if batchId y = batchId x then y\<lparr>quantity := quantity x - c\<rparr> else y) (batches st)"
      by (simp add: st2_def createLog_def updateBatchQuantity_def)
    have ids: "map batchId (batches st2) = map batchId (batches st)"
      unfolding b2 by (induction "batches st") auto
    have d2: "distinct (map batchId (batches st2))" using Cons.prems(1) ids by simp
    have sub2: "set (xs @ b # ys) \<subseteq> set (batches st2)"
    proof
      fix y assume y: "y \<in> set (xs @ b # ys)"
      then have "batchId y \<in> batchId ` set (xs @ b # ys)" by (rule imageI)
      then have "batchId y \<in> set (map batchId (xs @ b # ys))" by (simp only: set_map)
      moreover have "batchId x \<notin> set (map batchId (xs @ b # ys))" using Cons.prems(3) by simp
      ultimately have "batchId y \<noteq> batchId x" by metis
      moreover have "y \<in> set (batches st)" using y Cons.prems(2) by auto
      ultimately show "y \<in> set (batches st2)" unfolding b2 by force
    qed
    have d3: "distinct (map batchId (xs @ b # ys))" using Cons.prems(3) by simp
    have p3: "\<forall>x\<in>set (xs @ b # ys). 0 < quantity x" using Cons.prems(4) by simp
    have step: "consumeLoop mk ((x # xs) @ b # ys) r ls st
        = consumeLoop mk (xs @ b # ys) (r - c) (ls @ [mk x c]) st2"
      using r by (simp add: Let_def c_def st2_def)
    have "quantityOf (snd (snd (consumeLoop mk (xs @ b # ys) (r - c) (ls @ [mk x c]) st2))) (batchId b)
         = quantity b - min (quantity b) (max 0 (r - c - totalStock xs))"
      by (rule Cons.IH[OF d2 sub2 d3 p3])
    moreover have "max 0 (r - c - totalStock xs) = max 0 (r - totalStock (x # xs))"
      using posxs posx r by (auto simp: c_def max_def min_def)
    ultimately show ?thesis unfolding step by simp
  qed
qed

text \<open>The batches come out of the query in the order \<^const>\<open>servedBefore\<close>.\<close>

lemma servedBefore_fifoKey: "servedBefore b1 b2 \<Longrightarrow> fifoKey b1 < fifoKey b2"
  by (auto simp: servedBefore_def fifoKey_def less_prod_def split: option.splits)

lemma sorted_key_order:
  assumes "sorted (map k xs)" and "b1 \<in> set xs" and "b2 \<in> set xs" and "k b1 < k b2"
  shows "\<exists>us vs ws. xs = us @ b1 # vs @ b2 # ws"
proof -
  from assms(2) obtain us ws0 where xs: "xs = us @ b1 # ws0" by (auto dest: split_list)
  have ne: "b2 \<noteq> b1" using assms(4) by auto
  have "b2 \<notin> set us"
  proof
    assume "b2 \<in> set us"
    then have "k b2 \<le> k b1" using assms(1) xs by (auto simp: sorted_append)
    with assms(4) show False by simp
  qed
  with assms(3) xs ne have "b2 \<in> set ws0" by auto
  then obtain vs ws where "ws0 = vs @ b2 # ws" by (auto dest: split_list)
  with xs show ?thesis by blast
qed

lemma stockBatches_order:
  assumes "b1 \<in> set (batches st)" and "b2 \<in> set (batches st)"
    and "batchArticleId b1 = aid" and "batchArticleId b2 = aid"
    and "0 < quantity b1" and "0 < quantity b2" and "servedBefore b1 b2"
  shows "\<exists>us vs ws. stockBatches st aid = us @ b1 # vs @ b2 # ws"
proof -
  have "sorted (map fifoKey (stockBatches st aid))" by (simp add: stockBatches_def)
  moreover have "b1 \<in> set (stockBatches st aid)" "b2 \<in> set (stockBatches st aid)"
    using assms by (simp_all add: stockBatches_def positiveBatches_def)
  ultimately show ?thesis
    using servedBefore_fifoKey[OF assms(7)] by (rule sorted_key_order)
qed

text \<open>
  The loop over the batches of an article, on the rows of the store: a row of another
  article or without stock keeps its quantity, a row of the article only loses, and a
  row is touched only when every row served before it has been emptied.
\<close>

lemma consumeLoop_fifo:
  assumes d: "distinct (map batchId (batches st))"
    and st': "st' = snd (snd (consumeLoop mk (stockBatches st aid) r ls st))"
  shows "\<forall>b\<in>set (batches st).
           (if batchArticleId b = aid \<and> 0 < quantity b
            then 0 \<le> quantityOf st' (batchId b) \<and> quantityOf st' (batchId b) \<le> quantity b
            else quantityOf st' (batchId b) = quantity b)"
    and "\<forall>b1\<in>set (batches st). \<forall>b2\<in>set (batches st).
           batchArticleId b1 = aid \<and> batchArticleId b2 = aid \<and> 0 < quantity b1
           \<and> 0 < quantity b2 \<and> servedBefore b1 b2
           \<and> quantityOf st' (batchId b2) < quantity b2
           \<longrightarrow> quantityOf st' (batchId b1) = 0"
proof -
  let ?bs = "stockBatches st aid"
  have sub: "set ?bs \<subseteq> set (batches st)" by (rule stockBatches_subset)
  have dd: "distinct (map batchId ?bs)" by (rule stockBatches_distinct[OF d])
  have pos: "\<forall>x\<in>set ?bs. 0 < quantity x" using stockBatches_positive by blast
  have at: "quantityOf st' (batchId b) = quantity b - min (quantity b) (max 0 (r - totalStock xs))"
    if "?bs = xs @ b # ys" for xs b ys
    using consumeLoop_quantity[of st xs b ys mk r ls] d sub dd pos that
    unfolding st' by simp
  show "\<forall>b\<in>set (batches st).
           (if batchArticleId b = aid \<and> 0 < quantity b
            then 0 \<le> quantityOf st' (batchId b) \<and> quantityOf st' (batchId b) \<le> quantity b
            else quantityOf st' (batchId b) = quantity b)"
  proof
    fix b assume b: "b \<in> set (batches st)"
    show "if batchArticleId b = aid \<and> 0 < quantity b
            then 0 \<le> quantityOf st' (batchId b) \<and> quantityOf st' (batchId b) \<le> quantity b
            else quantityOf st' (batchId b) = quantity b"
    proof (cases "batchArticleId b = aid \<and> 0 < quantity b")
      case True
      with b have "b \<in> set ?bs" by (simp add: stockBatches_def positiveBatches_def)
      then obtain xs ys where "?bs = xs @ b # ys" by (auto dest: split_list)
      from at[OF this] True show ?thesis by (auto simp: min_def max_def)
    next
      case False
      have "\<forall>x\<in>set ?bs. batchId x \<noteq> batchId b"
      proof
        fix x assume x: "x \<in> set ?bs"
        show "batchId x \<noteq> batchId b"
        proof
          assume same: "batchId x = batchId b"
          have "x \<in> set (batches st)" using x sub by auto
          then have "findBatch st (batchId x) = Some x" by (rule findBatch_member[OF d])
          then have "findBatch st (batchId b) = Some x" unfolding same .
          moreover have "findBatch st (batchId b) = Some b" by (rule findBatch_member[OF d b])
          ultimately have "Some x = Some b" by (rule trans[OF sym])
          then have "x = b" by (rule option.inject[THEN iffD1])
          with x False show False by (simp add: stockBatches_def positiveBatches_def)
        qed
      qed
      from consumeLoop_untouched[OF this, of mk r ls st] False b d
      show ?thesis unfolding st' by (simp add: quantityOf_member)
    qed
  qed
  show "\<forall>b1\<in>set (batches st). \<forall>b2\<in>set (batches st).
           batchArticleId b1 = aid \<and> batchArticleId b2 = aid \<and> 0 < quantity b1
           \<and> 0 < quantity b2 \<and> servedBefore b1 b2
           \<and> quantityOf st' (batchId b2) < quantity b2
           \<longrightarrow> quantityOf st' (batchId b1) = 0"
  proof (intro ballI impI)
    fix b1 b2
    assume m: "b1 \<in> set (batches st)" "b2 \<in> set (batches st)"
      and h: "batchArticleId b1 = aid \<and> batchArticleId b2 = aid \<and> 0 < quantity b1
           \<and> 0 < quantity b2 \<and> servedBefore b1 b2
           \<and> quantityOf st' (batchId b2) < quantity b2"
    from stockBatches_order[OF m, of aid] h
    obtain us vs ws where split: "?bs = us @ b1 # vs @ b2 # ws" by blast
    have q1: "quantityOf st' (batchId b1)
        = quantity b1 - min (quantity b1) (max 0 (r - totalStock us))"
      by (rule at[OF split])
    have "?bs = (us @ b1 # vs) @ b2 # ws" using split by simp
    from at[OF this]
    have q2: "quantityOf st' (batchId b2)
        = quantity b2 - min (quantity b2) (max 0 (r - (totalStock us + quantity b1 + totalStock vs)))"
      by (simp add: add.assoc)
    have "\<forall>x\<in>set vs. 0 < quantity x" using pos split by auto
    then have v: "0 \<le> totalStock vs" by (rule totalStock_nonneg)
    from h q2 have "0 < r - (totalStock us + quantity b1 + totalStock vs)"
      by (auto simp: min_def max_def split: if_splits)
    with v have "quantity b1 \<le> r - totalStock us" by simp
    with q1 h show "quantityOf st' (batchId b1) = 0" by (simp add: min_def max_def)
  qed
qed

subsection \<open>Stock correction\<close>





text \<open>
  A body whose \<^verbatim>\<open>actualStock\<close> is \<^verbatim>\<open>null\<close> passes the guard and is handled as the actual
  stock 0; a body without it is rejected.
\<close>

lemma correctStock_null:
  "snd (correctStock st aid JsNull now newId) = snd (correctStock st aid (JsNum 0) now newId)"
  "correctStock st aid JsUndefined now newId
     = (Inl (BadRequest ''actualStock must be a non-negative number''), st)"
  by (simp_all add: correctStock_def toNumber_def Let_def split: prod.splits)

subsection \<open>One ingredient of a recipe\<close>

lemma cookIngredient_unsatisfiable:
  assumes "unsatisfiable st m ing"
  shows "\<exists>x. cookIngredient st rid m ing = (Inl x, st)"
proof (cases "resolveArticle st ing")
  case (Pair aidOpt articleOpt)
  show ?thesis
  proof (cases aidOpt)
    case None
    with Pair show ?thesis by (simp add: cookIngredient_def truthyStr_def)
  next
    case aid: (Some aid)
    show ?thesis
    proof (cases articleOpt)
      case None
      with Pair aid show ?thesis by (simp add: cookIngredient_def truthyStr_def)
    next
      case (Some article)
      show ?thesis
      proof (cases "aid = []")
        case True
        with Pair aid Some show ?thesis by (simp add: cookIngredient_def truthyStr_def)
      next
        case False
        show ?thesis
        proof (cases "ingNeeded st m ing article")
          case None
          with Pair aid Some False show ?thesis
            by (simp add: cookIngredient_def truthyStr_def ingNeeded_def Let_def)
        next
          case needed: (Some needed)
          with assms Pair aid Some False have "currentStock st aid < needed"
            by (simp add: unsatisfiable_def)
          with Pair aid Some False needed show ?thesis
            by (simp add: cookIngredient_def truthyStr_def ingNeeded_def Let_def
                currentStock_def)
        qed
      qed
    qed
  qed
qed

lemma cookIngredient_satisfiable:
  assumes "\<not> unsatisfiable st m ing"
  obtains aid article needed where
    "resolveArticle st ing = (Some aid, Some article)" and "aid \<noteq> []"
    and "ingNeeded st m ing article = Some needed" and "needed \<le> currentStock st aid"
    and "cookIngredient st rid m ing =
           (Inr \<lparr>cArticleId = aid, cName = articleName article, cConsumed = needed,
                 cUnit = defaultUnit article, cOriginalQuantity = ingQuantity ing * m,
                 cOriginalUnit = ingUnit ing\<rparr>,
            snd (snd (consumeLoop (recipeLog aid rid) (stockBatches st aid) needed [] st)))"
proof -
  from assms obtain aid article needed where
    r: "resolveArticle st ing = (Some aid, Some article)" and a: "aid \<noteq> []"
    and n: "ingNeeded st m ing article = Some needed" and s: "needed \<le> currentStock st aid"
    by (auto simp: unsatisfiable_def split: prod.splits option.splits)
  then have "cookIngredient st rid m ing =
               (Inr \<lparr>cArticleId = aid, cName = articleName article, cConsumed = needed,
                     cUnit = defaultUnit article, cOriginalQuantity = ingQuantity ing * m,
                     cOriginalUnit = ingUnit ing\<rparr>,
                snd (snd (consumeLoop (recipeLog aid rid) (stockBatches st aid) needed [] st)))"
    by (simp add: cookIngredient_def truthyStr_def ingNeeded_def Let_def currentStock_def
        split: prod.splits)
  with r a n s show ?thesis by (rule that)
qed

lemma cookIngredient_nonNegative:
  assumes "nonNegative st"
  shows "nonNegative (snd (cookIngredient st rid m ing))"
proof (cases "unsatisfiable st m ing")
  case True
  from cookIngredient_unsatisfiable[OF this, of rid] assms show ?thesis by auto
next
  case False
  then obtain aid article needed where
    "resolveArticle st ing = (Some aid, Some article)" and "aid \<noteq> []"
    and "ingNeeded st m ing article = Some needed" and "needed \<le> currentStock st aid"
    and "cookIngredient st rid m ing =
           (Inr \<lparr>cArticleId = aid, cName = articleName article, cConsumed = needed,
                 cUnit = defaultUnit article, cOriginalQuantity = ingQuantity ing * m,
                 cOriginalUnit = ingUnit ing\<rparr>,
            snd (snd (consumeLoop (recipeLog aid rid) (stockBatches st aid) needed [] st)))"
    by (rule cookIngredient_satisfiable[where rid = rid])
  with consumeLoop_nonNegative[OF assms] show ?thesis by simp
qed

lemma cookLoop_nonNegative:
  "nonNegative st \<Longrightarrow> nonNegative (snd (snd (cookLoop rid m ings cs ms st)))"
proof (induction ings arbitrary: cs ms st)
  case Nil
  then show ?case by simp
next
  case (Cons ing ings)
  from cookIngredient_nonNegative[OF Cons.prems, of rid m ing] Cons.IH
  show ?case by (auto split: prod.splits sum.splits)
qed

lemma consumeLoop_nonNegativeD:
  "consumeLoop mk bs r ls st = (r', ls', st') \<Longrightarrow> nonNegative st \<Longrightarrow> nonNegative st'"
  using consumeLoop_nonNegative[of st mk bs r ls] by simp

lemma cookLoop_nonNegativeD:
  "cookLoop rid m ings cs ms st = (cs', ms', st') \<Longrightarrow> nonNegative st \<Longrightarrow> nonNegative st'"
  using cookLoop_nonNegative[of st rid m ings cs ms] by simp

lemma cookRecipe_nonNegative:
  "nonNegative st \<Longrightarrow> nonNegative (snd (cookRecipe st rid sv))"
  by (auto simp: cookRecipe_def split: option.splits prod.splits dest: cookLoop_nonNegativeD)

lemma consumeFromArticle_nonNegative:
  "nonNegative st \<Longrightarrow> nonNegative (snd (consumeFromArticle st aid q src))"
  by (auto simp: consumeFromArticle_def Let_def split: option.splits prod.splits
      dest: consumeLoop_nonNegativeD)

lemma createBatch_nonNegative:
  "nonNegative st \<Longrightarrow> 0 \<le> quantity b \<Longrightarrow> nonNegative (createBatch b st)"
  by (auto simp: nonNegative_def createBatch_def)

lemma correctStock_nonNegative:
  "nonNegative st \<Longrightarrow> nonNegative (snd (correctStock st aid a now newId))"
  by (auto simp: correctStock_def Let_def createBatch_nonNegative
      split: prod.splits dest: consumeLoop_nonNegativeD)

lemma consumeFromBatch_nonNegative:
  "nonNegative st \<Longrightarrow> nonNegative (snd (consumeFromBatch st bid body))"
  by (auto simp: consumeFromBatch_def Let_def update_nonNegative
      split: option.splits)

lemma consumeFromBatch_rejected:
  "isl (fst (consumeFromBatch st bid body)) \<Longrightarrow> snd (consumeFromBatch st bid body) = st"
  by (auto simp: consumeFromBatch_def Let_def split: option.splits if_splits)

subsection \<open>No batch quantity below zero\<close>

text \<open>
  Claim C10: no consuming operation drives a batch quantity below zero. Article
  consumption, recipe cooking, stock correction and direct batch consumption each keep
  every batch quantity of the store non-negative; a rejected direct batch consumption
  leaves the store as it was; and a step of the FIFO loop decrements its batch by
  \<open>min(batch.quantity, remaining)\<close>, which leaves \<open>batch.quantity - toConsume \<ge> 0\<close>.
\<close>

theorem consuming_keeps_nonNegative:
  assumes "nonNegative st"
  shows "nonNegative (snd (consumeFromArticle st aid q src))
       \<and> nonNegative (snd (cookRecipe st rid sv))
       \<and> nonNegative (snd (correctStock st aid a now newId))
       \<and> nonNegative (snd (consumeFromBatch st bid body))
       \<and> (isl (fst (consumeFromBatch st bid body)) \<longrightarrow> snd (consumeFromBatch st bid body) = st)
       \<and> (0 < r \<longrightarrow>
            consumeLoop mk (b # bs) r ls st =
              consumeLoop mk bs (r - min (quantity b) r) (ls @ [mk b (min (quantity b) r)])
                (createLog (mk b (min (quantity b) r))
                   (updateBatchQuantity (batchId b) (quantity b - min (quantity b) r) st))
            \<and> 0 \<le> quantity b - min (quantity b) r)"
  using assms consumeFromArticle_nonNegative cookRecipe_nonNegative correctStock_nonNegative
    consumeFromBatch_nonNegative consumeFromBatch_rejected consumeLoop_step
  by simp

theorem consuming_keeps_nonNegative_witness:
  "nonNegative kitchen
   \<and> nonNegative (snd (consumeFromArticle kitchen ''milk'' (Some 10) None))
   \<and> nonNegative (snd (cookRecipe kitchen ''pancakes'' None))
   \<and> nonNegative (snd (correctStock kitchen ''milk'' (JsNum 2) 7 ''N''))
   \<and> nonNegative (snd (consumeFromBatch kitchen ''A'' bodyTen))
   \<and> isl (fst (consumeFromBatch kitchen ''A'' bodyTen))
   \<and> snd (consumeFromBatch kitchen ''A'' bodyTen) = kitchen
   \<and> (0::real) < 4
   \<and> consumeLoop (manualLog ''milk'' ''MANUAL'') [batchA, batchB] 4 [] kitchen =
         consumeLoop (manualLog ''milk'' ''MANUAL'') [batchB] 1
           [manualLog ''milk'' ''MANUAL'' batchA 3]
           (createLog (manualLog ''milk'' ''MANUAL'' batchA 3)
              (updateBatchQuantity ''A'' 0 kitchen))"
proof -
  have n: "nonNegative kitchen"
    by (simp add: nonNegative_def kitchen_def emptyStore_def batchF_def batchA_def batchB_def)
  have r: "isl (fst (consumeFromBatch kitchen ''A'' bodyTen))"
    by (simp add: consumeFromBatch_def consumeBatchSchema_def bodyTen_def kitchen_def
        emptyStore_def batchF_def batchA_def batchB_def article_milk_def article_flour_def
        query_defs truthy_defs Let_def)
  have b: "quantity batchA = 3" "batchId batchA = ''A''" by (simp_all add: batchA_def)
  from consuming_keeps_nonNegative[OF n, of "''milk''" "Some 10" None "''pancakes''" None
      "JsNum 2" 7 "''N''" "''A''" bodyTen 4 "manualLog ''milk'' ''MANUAL''" batchA "[batchB]" "[]"]
    n r b
  show ?thesis by simp
qed

lemmas storeF_defs = article_flour_def batchF_def storeF_def emptyStore_def

lemmas unit_eval = convertQuantityBetweenUnits_def findUnit_def defaultUnits_def convertUnits_def
  example_units truthy_defs targets_def

subsection \<open>Direct batch consumption\<close>

text \<open>
  Claim C7, as stated, fails for the unit \<^verbatim>\<open>""\<close>: the schema accepts it, no unit has
  that symbol, so it cannot be converted to the unit of the article, and yet the source
  (\<^verbatim>\<open>unit && unit !== defaultUnit\<close>) takes the quantity as given and consumes it.
\<close>

theorem consumeFromBatch_blank_unit_counterexample:
  "consumeBatchSchema bodyBlankUnit \<and> bodyUnit bodyBlankUnit = Some []
   \<and> convertQuantityBetweenUnits (units storeF) (bodyQuantity bodyBlankUnit) [] ''g'' = None
   \<and> findBatch storeF ''F'' = Some batchF
   \<and> findArticle storeF (batchArticleId batchF) = Some article_flour
   \<and> defaultUnit article_flour = ''g''
   \<and> \<not> isl (fst (consumeFromBatch storeF ''F'' bodyBlankUnit))
   \<and> currentStock storeF ''flour'' = 500
   \<and> currentStock (snd (consumeFromBatch storeF ''F'' bodyBlankUnit)) ''flour'' = 496"
  by (simp add: consumeFromBatch_def consumeBatchSchema_def bodyBlankUnit_def storeF_defs
      query_defs unit_eval Let_def updateBatchQuantity_def createLog_def)

text \<open>
  Claim C7, amended: \<^const>\<open>consumeFromBatch\<close> on a batch fails atomically (the store is
  unchanged: no batch decrement, no log) with an insufficient-stock error that names the
  available quantity whenever the requested quantity, converted into the unit of the
  article, exceeds the quantity of the batch; and when a non-empty unit comes with the
  request that cannot be converted into the unit of the article, the request is rejected
  with an error, and nothing is consumed. Otherwise the batch is decremented by the
  converted quantity and one log entry of that quantity is written.
\<close>

theorem consumeFromBatch_rejections:
  assumes "consumeBatchSchema body" and "findBatch st bid = Some batch"
    and "findArticle st (batchArticleId batch) = Some article"
  shows "(requestedInDefaultUnit (units st) (defaultUnit article) body = None \<longrightarrow>
            (\<exists>u. bodyUnit body = Some u \<and> u \<noteq> []
               \<and> consumeFromBatch st bid body = (Inl (CannotConvert u (defaultUnit article)), st)))
       \<and> (requestedInDefaultUnit (units st) (defaultUnit article) body = Some qd
            \<and> quantity batch < qd \<longrightarrow>
            consumeFromBatch st bid body
              = (Inl (InsufficientStock (quantity batch) (defaultUnit article)), st))
       \<and> (requestedInDefaultUnit (units st) (defaultUnit article) body = Some qd
            \<and> qd \<le> quantity batch \<longrightarrow>
            (\<exists>res st'. consumeFromBatch st bid body = (Inr res, st')
               \<and> resBatch res = batch\<lparr>quantity := quantity batch - qd\<rparr>
               \<and> logQuantity (resLog res) = qd
               \<and> consumptionLogs st' = consumptionLogs st @ [resLog res]
               \<and> st' = createLog (resLog res)
                             (updateBatchQuantity bid (quantity batch - qd) st)))"
proof -
  let ?conv = "if truthyStr (bodyUnit body) \<and> bodyUnit body \<noteq> Some (defaultUnit article)
      then convertQuantityBetweenUnits (units st) (bodyQuantity body)
             (case bodyUnit body of Some u \<Rightarrow> u | None \<Rightarrow> []) (defaultUnit article)
      else Some (bodyQuantity body)"
  have conv: "?conv = requestedInDefaultUnit (units st) (defaultUnit article) body"
    by (auto simp: requestedInDefaultUnit_def truthyStr_def convertQuantityBetweenUnits_def
        split: option.splits)
  have none: "requestedInDefaultUnit (units st) (defaultUnit article) body = None \<longrightarrow>
            (\<exists>u. bodyUnit body = Some u \<and> u \<noteq> []
               \<and> consumeFromBatch st bid body = (Inl (CannotConvert u (defaultUnit article)), st))"
  proof
    assume n: "requestedInDefaultUnit (units st) (defaultUnit article) body = None"
    then obtain u where u: "bodyUnit body = Some u" "u \<noteq> []"
      by (auto simp: requestedInDefaultUnit_def split: option.splits if_splits)
    from n conv have "?conv = None" by simp
    with assms u have "consumeFromBatch st bid body = (Inl (CannotConvert u (defaultUnit article)), st)"
      unfolding consumeFromBatch_def Let_def by simp
    with u show "\<exists>u. bodyUnit body = Some u \<and> u \<noteq> []
               \<and> consumeFromBatch st bid body = (Inl (CannotConvert u (defaultUnit article)), st)"
      by blast
  qed
  have some: "consumeFromBatch st bid body =
      (if quantity batch < qd
       then (Inl (InsufficientStock (quantity batch) (defaultUnit article)), st)
       else (Inr \<lparr>resBatch = batch\<lparr>quantity := quantity batch - qd\<rparr>,
                  resLog = \<lparr>logArticleId = batchArticleId batch, logBatchId = Some bid,
                     logQuantity = qd,
                     logSource = (case bodySource body of None \<Rightarrow> ''MANUAL'' | Some s \<Rightarrow> s),
                     logRecipeId = None\<rparr>,
                  resConversion =
                    (if truthyStr (bodyUnit body) \<and> bodyUnit body \<noteq> Some (defaultUnit article)
                     then Some ((bodyQuantity body, case bodyUnit body of Some u \<Rightarrow> u | None \<Rightarrow> []),
                                (qd, defaultUnit article))
                     else None)\<rparr>,
             createLog \<lparr>logArticleId = batchArticleId batch, logBatchId = Some bid,
                     logQuantity = qd,
                     logSource = (case bodySource body of None \<Rightarrow> ''MANUAL'' | Some s \<Rightarrow> s),
                     logRecipeId = None\<rparr>
               (updateBatchQuantity bid (quantity batch - qd) st)))"
    if q: "requestedInDefaultUnit (units st) (defaultUnit article) body = Some qd"
  proof -
    from q conv have "?conv = Some qd" by simp
    with assms show ?thesis unfolding consumeFromBatch_def Let_def by simp
  qed
  have low: "requestedInDefaultUnit (units st) (defaultUnit article) body = Some qd
            \<and> quantity batch < qd \<longrightarrow>
            consumeFromBatch st bid body
              = (Inl (InsufficientStock (quantity batch) (defaultUnit article)), st)"
    using some by simp
  have ok: "requestedInDefaultUnit (units st) (defaultUnit article) body = Some qd
            \<and> qd \<le> quantity batch \<longrightarrow>
            (\<exists>res st'. consumeFromBatch st bid body = (Inr res, st')
               \<and> resBatch res = batch\<lparr>quantity := quantity batch - qd\<rparr>
               \<and> logQuantity (resLog res) = qd
               \<and> consumptionLogs st' = consumptionLogs st @ [resLog res]
               \<and> st' = createLog (resLog res)
                             (updateBatchQuantity bid (quantity batch - qd) st))"
    using some by (auto simp: createLog_def updateBatchQuantity_def)
  from none low ok show ?thesis by blast
qed

theorem consumeFromBatch_rejections_witness:
  "consumeBatchSchema bodyMl \<and> consumeBatchSchema bodyKg \<and> consumeBatchSchema bodyGrams
   \<and> findBatch storeF ''F'' = Some batchF
   \<and> findArticle storeF (batchArticleId batchF) = Some article_flour
   \<and> requestedInDefaultUnit (units storeF) (defaultUnit article_flour) bodyMl = None
   \<and> consumeFromBatch storeF ''F'' bodyMl = (Inl (CannotConvert ''ml'' ''g''), storeF)
   \<and> requestedInDefaultUnit (units storeF) (defaultUnit article_flour) bodyKg = Some 2000
   \<and> quantity batchF < 2000
   \<and> consumeFromBatch storeF ''F'' bodyKg = (Inl (InsufficientStock 500 ''g''), storeF)
   \<and> requestedInDefaultUnit (units storeF) (defaultUnit article_flour) bodyGrams = Some 200
   \<and> 200 \<le> quantity batchF
   \<and> (\<exists>res st'. consumeFromBatch storeF ''F'' bodyGrams = (Inr res, st')
          \<and> quantity (resBatch res) = 300 \<and> logQuantity (resLog res) = 200)"
proof -
  have pre: "findBatch storeF ''F'' = Some batchF"
    "findArticle storeF (batchArticleId batchF) = Some article_flour"
    "consumeBatchSchema bodyMl" "consumeBatchSchema bodyKg" "consumeBatchSchema bodyGrams"
    by (simp_all add: storeF_defs query_defs consumeBatchSchema_def bodyMl_def bodyKg_def
        bodyGrams_def)
  have req: "requestedInDefaultUnit (units storeF) (defaultUnit article_flour) bodyMl = None"
    "requestedInDefaultUnit (units storeF) (defaultUnit article_flour) bodyKg = Some 2000"
    "requestedInDefaultUnit (units storeF) (defaultUnit article_flour) bodyGrams = Some 200"
    by (simp_all add: requestedInDefaultUnit_def storeF_defs bodyMl_def bodyKg_def bodyGrams_def
        unit_eval)
  have vals: "quantity batchF = 500" "defaultUnit article_flour = ''g''"
    "bodyUnit bodyMl = Some ''ml''"
    by (simp_all add: batchF_def article_flour_def bodyMl_def)
  from consumeFromBatch_rejections[OF pre(3) pre(1,2), of 0] req(1) vals
  have a: "consumeFromBatch storeF ''F'' bodyMl = (Inl (CannotConvert ''ml'' ''g''), storeF)"
    by auto
  from consumeFromBatch_rejections[OF pre(4) pre(1,2), of 2000] req(2) vals
  have b: "consumeFromBatch storeF ''F'' bodyKg = (Inl (InsufficientStock 500 ''g''), storeF)"
    by auto
  from consumeFromBatch_rejections[OF pre(5) pre(1,2), of 200] req(3) vals
  have c: "\<exists>res st'. consumeFromBatch storeF ''F'' bodyGrams = (Inr res, st')
          \<and> quantity (resBatch res) = 300 \<and> logQuantity (resLog res) = 200"
    by auto
  from pre req vals a b c show ?thesis by simp
qed

section \<open>Theorems about recipe cooking\<close>

lemma cookIngredient_missingEntry:
  assumes "unsatisfiable st m ing"
  shows "cookIngredient st rid m ing = (Inl (missingEntry st m ing), st)"
proof (cases "resolveArticle st ing")
  case (Pair aidOpt articleOpt)
  show ?thesis
  proof (cases aidOpt)
    case None
    with Pair show ?thesis by (simp add: cookIngredient_def missingEntry_def truthyStr_def)
  next
    case aid: (Some aid)
    show ?thesis
    proof (cases articleOpt)
      case None
      with Pair aid show ?thesis
        by (simp add: cookIngredient_def missingEntry_def truthyStr_def)
    next
      case (Some article)
      show ?thesis
      proof (cases "aid = []")
        case True
        with Pair aid Some show ?thesis
          by (simp add: cookIngredient_def missingEntry_def truthyStr_def)
      next
        case False
        show ?thesis
        proof (cases "ingNeeded st m ing article")
          case None
          with Pair aid Some False show ?thesis
            by (simp add: cookIngredient_def missingEntry_def truthyStr_def ingNeeded_def
                Let_def)
        next
          case needed: (Some needed)
          with assms Pair aid Some False have "currentStock st aid < needed"
            by (simp add: unsatisfiable_def)
          with Pair aid Some False needed show ?thesis
            by (simp add: cookIngredient_def missingEntry_def truthyStr_def ingNeeded_def
                Let_def currentStock_def)
        qed
      qed
    qed
  qed
qed

lemma cookIngredient_consumes:
  assumes "\<not> unsatisfiable st m ing" and d: "distinct (map batchId (batches st))"
  shows "\<exists>c st'. cookIngredient st rid m ing = (Inr c, st')
           \<and> (\<exists>article. resolveArticle st ing = (Some (cArticleId c), Some article)
                 \<and> ingNeeded st m ing article = Some (cConsumed c))
           \<and> (\<forall>a. currentStock st' a
                    = currentStock st a - (if a = cArticleId c then max 0 (cConsumed c) else 0))
           \<and> map batchId (batches st') = map batchId (batches st)
           \<and> (\<forall>b\<in>set (batches st).
                  (if batchArticleId b = cArticleId c \<and> 0 < quantity b
                   then 0 \<le> quantityOf st' (batchId b)
                        \<and> quantityOf st' (batchId b) \<le> quantity b
                   else quantityOf st' (batchId b) = quantity b))
           \<and> (\<forall>b1\<in>set (batches st). \<forall>b2\<in>set (batches st).
                  batchArticleId b1 = cArticleId c \<and> batchArticleId b2 = cArticleId c
                  \<and> 0 < quantity b1 \<and> 0 < quantity b2 \<and> servedBefore b1 b2
                  \<and> quantityOf st' (batchId b2) < quantity b2
                  \<longrightarrow> quantityOf st' (batchId b1) = 0)"
proof -
  from assms(1) obtain aid article needed where
    r: "resolveArticle st ing = (Some aid, Some article)" and "aid \<noteq> []"
    and i: "ingNeeded st m ing article = Some needed" and
    n: "needed \<le> currentStock st aid" and
    c: "cookIngredient st rid m ing =
               (Inr \<lparr>cArticleId = aid, cName = articleName article, cConsumed = needed,
                     cUnit = defaultUnit article, cOriginalQuantity = ingQuantity ing * m,
                     cOriginalUnit = ingUnit ing\<rparr>,
                snd (snd (consumeLoop (recipeLog aid rid) (stockBatches st aid) needed [] st)))"
    by (rule cookIngredient_satisfiable[where rid = rid])
  let ?bs = "stockBatches st aid"
  let ?out = "consumeLoop (recipeLog aid rid) ?bs needed [] st"
  have pos: "\<forall>b\<in>set ?bs. 0 < quantity b" using stockBatches_positive by blast
  have posa: "\<forall>b\<in>set ?bs. 0 < quantity b \<and> batchArticleId b = aid"
    using stockBatches_positive by blast
  have stock: "currentStock (snd (snd ?out)) a
      = currentStock st a - (if a = aid then max 0 needed else 0)" for a
  proof (cases "0 \<le> needed")
    case True
    have "fst ?out = 0"
      using consumeLoop_remaining[OF pos True] n by (simp add: currentStock_def)
    with consumeLoop_stock[OF d stockBatches_subset stockBatches_distinct[OF d] posa True, of a]
      True
    show ?thesis by (simp add: currentStock_stockIn max_def)
  next
    case False
    then have "?out = (needed, [], st)" by (simp add: consumeLoop_stop)
    with False show ?thesis by (simp add: max_def)
  qed
  have ids: "map batchId (batches (snd (snd ?out))) = map batchId (batches st)"
    using consumeLoop_frame[of "recipeLog aid rid" ?bs needed "[]" st] by simp
  note order = consumeLoop_fifo[OF d refl, where mk = "recipeLog aid rid" and aid = aid
      and r = needed and ls = "[]"]
  show ?thesis
    unfolding c
    apply (intro exI conjI)
          apply (rule refl)
    using r i stock ids order by simp_all
qed

lemma cookIngredient_ids:
  "map batchId (batches (snd (cookIngredient st rid m ing))) = map batchId (batches st)"
proof (cases "unsatisfiable st m ing")
  case True
  then show ?thesis by (simp add: cookIngredient_missingEntry)
next
  case False
  then obtain aid article needed where
    "resolveArticle st ing = (Some aid, Some article)" and "aid \<noteq> []"
    and "ingNeeded st m ing article = Some needed" and "needed \<le> currentStock st aid"
    and "cookIngredient st rid m ing =
           (Inr \<lparr>cArticleId = aid, cName = articleName article, cConsumed = needed,
                 cUnit = defaultUnit article, cOriginalQuantity = ingQuantity ing * m,
                 cOriginalUnit = ingUnit ing\<rparr>,
            snd (snd (consumeLoop (recipeLog aid rid) (stockBatches st aid) needed [] st)))"
    by (rule cookIngredient_satisfiable[where rid = rid])
  with consumeLoop_frame[of "recipeLog aid rid" "stockBatches st aid" needed "[]" st]
  show ?thesis by simp
qed

lemma cookIngredient_stock_le:
  assumes "distinct (map batchId (batches st))"
  shows "currentStock (snd (cookIngredient st rid m ing)) a \<le> currentStock st a"
proof (cases "unsatisfiable st m ing")
  case True
  then show ?thesis by (simp add: cookIngredient_missingEntry)
next
  case False
  from cookIngredient_consumes[OF False assms, of rid]
  obtain c st' where "cookIngredient st rid m ing = (Inr c, st')"
    "\<forall>a. currentStock st' a
          = currentStock st a - (if a = cArticleId c then max 0 (cConsumed c) else 0)"
    by blast
  then show ?thesis by (simp add: max_def)
qed

lemma cookLoop_Cons:
  "cookLoop rid m (ing # rest) cs ms st =
     cookLoop rid m rest
       (case fst (cookIngredient st rid m ing) of Inl x \<Rightarrow> cs | Inr c \<Rightarrow> cs @ [c])
       (case fst (cookIngredient st rid m ing) of Inl x \<Rightarrow> ms @ [x] | Inr c \<Rightarrow> ms)
       (snd (cookIngredient st rid m ing))"
  by (simp split: prod.splits sum.splits)

lemma cookLoop_append:
  "cookLoop rid m (xs @ ys) cs ms st =
     cookLoop rid m ys (fst (cookLoop rid m xs cs ms st)) (fst (snd (cookLoop rid m xs cs ms st)))
       (snd (snd (cookLoop rid m xs cs ms st)))"
proof (induction xs arbitrary: cs ms st)
  case Nil
  then show ?case by simp
next
  case (Cons x xs)
  show ?case unfolding append_Cons cookLoop_Cons by (rule Cons.IH)
qed

lemma cookLoop_extends:
  "\<exists>cs2 ms2. fst (cookLoop rid m ings cs ms st) = cs @ cs2
           \<and> fst (snd (cookLoop rid m ings cs ms st)) = ms @ ms2"
proof (induction ings arbitrary: cs ms st)
  case Nil
  then show ?case by simp
next
  case (Cons x xs)
  from Cons.IH[of "case fst (cookIngredient st rid m x) of Inl x \<Rightarrow> cs | Inr c \<Rightarrow> cs @ [c]"
      "case fst (cookIngredient st rid m x) of Inl x \<Rightarrow> ms @ [x] | Inr c \<Rightarrow> ms"
      "snd (cookIngredient st rid m x)"]
  show ?case unfolding cookLoop_Cons by (auto split: sum.splits)
qed

lemma cookLoop_ids:
  "map batchId (batches (snd (snd (cookLoop rid m ings cs ms st)))) = map batchId (batches st)"
proof (induction ings arbitrary: cs ms st)
  case Nil
  then show ?case by simp
next
  case (Cons x xs)
  show ?case unfolding cookLoop_Cons by (simp add: Cons.IH cookIngredient_ids)
qed

lemma cookLoop_stock_le:
  "distinct (map batchId (batches st)) \<Longrightarrow>
   currentStock (snd (snd (cookLoop rid m ings cs ms st))) a \<le> currentStock st a"
proof (induction ings arbitrary: cs ms st)
  case Nil
  then show ?case by simp
next
  case (Cons x xs)
  have d: "distinct (map batchId (batches (snd (cookIngredient st rid m x))))"
    using Cons.prems by (simp add: cookIngredient_ids)
  have "currentStock (snd (snd (cookLoop rid m (x # xs) cs ms st))) a
      \<le> currentStock (snd (cookIngredient st rid m x)) a"
    unfolding cookLoop_Cons by (rule Cons.IH[OF d])
  also have "\<dots> \<le> currentStock st a" by (rule cookIngredient_stock_le[OF Cons.prems])
  finally show ?case .
qed

lemmas kitchen_defs = kitchen_def recipe_pancakes_def recipe_omelette_def ing_flour_def
  ing_milk_def ing_eggs_def ing_sugar_def storeF_defs store_defs

lemmas cook_defs = cookRecipe_def cookIngredient_def resolveArticle_def ingArticle_def
  missingName_def recipeLog_def requiredIngredientsOf_def portionOf_def orStr_def
  updateBatchQuantity_def createLog_def Let_def

text \<open>
  Claim C1, as stated, fails: cooking the pancakes reports failure, with the milk (its unit
  does not convert) and the eggs (no article) in \<^verbatim>\<open>missing[]\<close>, and the 200 g of flour
  that could be satisfied have been taken from the flour batch all the same. The response
  lists them in \<^verbatim>\<open>consumed[]\<close>.
\<close>

theorem cookRecipe_partial_counterexample:
  "ing_milk \<in> set (requiredIngredientsOf recipe_pancakes)
   \<and> convertQuantityBetweenUnits (units kitchen) 2 (ingUnit ing_milk) (defaultUnit article_milk)
       = None
   \<and> fst (cookRecipe kitchen ''pancakes'' None)
       = MissingIngredients
           [UnitMismatch ''milk'' ''Milk'' 2 ''pcs'' ''ml'', NoArticle ''eggs'' 3 ''pcs'']
           [\<lparr>cArticleId = ''flour'', cName = ''Flour'', cConsumed = 200, cUnit = ''g'',
             cOriginalQuantity = 200, cOriginalUnit = ''g''\<rparr>]
   \<and> currentStock kitchen ''flour'' = 500
   \<and> currentStock (snd (cookRecipe kitchen ''pancakes'' None)) ''flour'' = 300"
  by (simp add: cook_defs kitchen_defs query_defs unit_eval)

text \<open>
  Claim C1, amended: \<^const>\<open>cookRecipe\<close> handles the non-optional ingredients in order,
  each against the store as the ingredients before it have left it, and rolls nothing
  back. An ingredient that cannot be satisfied at its turn (missing article, unconvertible
  unit or a stock below the needed quantity) adds its entry to \<^verbatim>\<open>missing[]\<close> and leaves
  the store as it is. Every other ingredient adds an entry to \<^verbatim>\<open>consumed[]\<close> that names
  its article and the needed quantity in the unit of the article, and the stock of that
  article falls by that quantity (by nothing when the quantity is not positive) while the
  stock of every other article stays (batch ids being unique); the quantity is taken from
  the batches of the article in the order of the batch query, a batch being decremented
  only when every batch served before it has been emptied. The ingredients after it
  only add to the two lists and raise no stock. The call answers with the failure that
  carries \<^verbatim>\<open>missing[]\<close> and \<^verbatim>\<open>consumed[]\<close> exactly when \<^verbatim>\<open>missing[]\<close> is not empty, and
  with success otherwise; either way the store is the one the last ingredient has left.
\<close>

theorem cookRecipe_per_ingredient:
  assumes "find (\<lambda>r. recipeId r = rid) (recipes st) = Some recipe"
    and "distinct (map batchId (batches st))"
    and "requiredIngredientsOf recipe = pre @ ing # post"
    and "cookLoop rid (portionOf sv recipe) pre [] [] st = (cs, ms, s)"
  shows "\<exists>cs1 ms1 s1 cs' ms' st'.
       cookLoop rid (portionOf sv recipe) (pre @ [ing]) [] [] st = (cs1, ms1, s1)
     \<and> (unsatisfiable s (portionOf sv recipe) ing \<longrightarrow>
          cs1 = cs \<and> ms1 = ms @ [missingEntry s (portionOf sv recipe) ing] \<and> s1 = s)
     \<and> (\<not> unsatisfiable s (portionOf sv recipe) ing \<longrightarrow>
          ms1 = ms
          \<and> (\<exists>c article. cs1 = cs @ [c]
                 \<and> resolveArticle s ing = (Some (cArticleId c), Some article)
                 \<and> ingNeeded s (portionOf sv recipe) ing article = Some (cConsumed c)
                 \<and> (\<forall>a. currentStock s1 a
                          = currentStock s a
                            - (if a = cArticleId c then max 0 (cConsumed c) else 0))
                 \<and> (\<forall>b\<in>set (batches s).
                        (if batchArticleId b = cArticleId c \<and> 0 < quantity b
                         then 0 \<le> quantityOf s1 (batchId b)
                              \<and> quantityOf s1 (batchId b) \<le> quantity b
                         else quantityOf s1 (batchId b) = quantity b))
                 \<and> (\<forall>b1\<in>set (batches s). \<forall>b2\<in>set (batches s).
                        batchArticleId b1 = cArticleId c \<and> batchArticleId b2 = cArticleId c
                        \<and> 0 < quantity b1 \<and> 0 < quantity b2 \<and> servedBefore b1 b2
                        \<and> quantityOf s1 (batchId b2) < quantity b2
                        \<longrightarrow> quantityOf s1 (batchId b1) = 0)))
     \<and> cookLoop rid (portionOf sv recipe) (requiredIngredientsOf recipe) [] [] st
           = (cs', ms', st')
     \<and> (\<exists>cs2 ms2. cs' = cs1 @ cs2 \<and> ms' = ms1 @ ms2)
     \<and> (\<forall>a. currentStock st' a \<le> currentStock s1 a)
     \<and> cookRecipe st rid sv =
           (if ms' \<noteq> [] then MissingIngredients ms' cs'
            else Cooked (recipeName recipe)
                   (case sv of Some v \<Rightarrow> if v \<noteq> 0 then v else servings recipe
                    | None \<Rightarrow> servings recipe) cs', st')"
proof -
  let ?m = "portionOf sv recipe"
  let ?ings = "requiredIngredientsOf recipe"
  define step where "step = cookLoop rid ?m (pre @ [ing]) [] [] st"
  define cs1 where "cs1 = fst step"
  define ms1 where "ms1 = fst (snd step)"
  define s1 where "s1 = snd (snd step)"
  define final where "final = cookLoop rid ?m ?ings [] [] st"
  define cs' where "cs' = fst final"
  define ms' where "ms' = fst (snd final)"
  define st' where "st' = snd (snd final)"
  have ds: "distinct (map batchId (batches s))"
    using cookLoop_ids[of rid ?m pre "[]" "[]" st] assms(2,4) by simp
  have one: "step = cookLoop rid ?m [ing] cs ms s"
    unfolding step_def cookLoop_append using assms(4) by simp
  have step1: "cookLoop rid ?m (pre @ [ing]) [] [] st = (cs1, ms1, s1)"
    by (simp add: step_def cs1_def ms1_def s1_def)
  have unsat: "cs1 = cs \<and> ms1 = ms @ [missingEntry s ?m ing] \<and> s1 = s"
    if "unsatisfiable s ?m ing"
    using cookIngredient_missingEntry[OF that, of rid]
    by (simp add: cs1_def ms1_def s1_def one)
  have sat: "ms1 = ms
          \<and> (\<exists>c article. cs1 = cs @ [c]
                 \<and> resolveArticle s ing = (Some (cArticleId c), Some article)
                 \<and> ingNeeded s ?m ing article = Some (cConsumed c)
                 \<and> (\<forall>a. currentStock s1 a
                          = currentStock s a
                            - (if a = cArticleId c then max 0 (cConsumed c) else 0))
                 \<and> (\<forall>b\<in>set (batches s).
                        (if batchArticleId b = cArticleId c \<and> 0 < quantity b
                         then 0 \<le> quantityOf s1 (batchId b)
                              \<and> quantityOf s1 (batchId b) \<le> quantity b
                         else quantityOf s1 (batchId b) = quantity b))
                 \<and> (\<forall>b1\<in>set (batches s). \<forall>b2\<in>set (batches s).
                        batchArticleId b1 = cArticleId c \<and> batchArticleId b2 = cArticleId c
                        \<and> 0 < quantity b1 \<and> 0 < quantity b2 \<and> servedBefore b1 b2
                        \<and> quantityOf s1 (batchId b2) < quantity b2
                        \<longrightarrow> quantityOf s1 (batchId b1) = 0))"
    if "\<not> unsatisfiable s ?m ing"
  proof -
    from cookIngredient_consumes[OF that ds, of rid]
    obtain c s2 article where c: "cookIngredient s rid ?m ing = (Inr c, s2)"
      "resolveArticle s ing = (Some (cArticleId c), Some article)"
      "ingNeeded s ?m ing article = Some (cConsumed c)"
      "\<forall>a. currentStock s2 a
          = currentStock s a - (if a = cArticleId c then max 0 (cConsumed c) else 0)"
      "\<forall>b\<in>set (batches s).
                  (if batchArticleId b = cArticleId c \<and> 0 < quantity b
                   then 0 \<le> quantityOf s2 (batchId b)
                        \<and> quantityOf s2 (batchId b) \<le> quantity b
                   else quantityOf s2 (batchId b) = quantity b)"
      "\<forall>b1\<in>set (batches s). \<forall>b2\<in>set (batches s).
                  batchArticleId b1 = cArticleId c \<and> batchArticleId b2 = cArticleId c
                  \<and> 0 < quantity b1 \<and> 0 < quantity b2 \<and> servedBefore b1 b2
                  \<and> quantityOf s2 (batchId b2) < quantity b2
                  \<longrightarrow> quantityOf s2 (batchId b1) = 0"
      by blast
    then have "cs1 = cs @ [c]" "ms1 = ms" "s1 = s2"
      by (simp_all add: cs1_def ms1_def s1_def one)
    with c show ?thesis by blast
  qed
  have "?ings = (pre @ [ing]) @ post" using assms(3) by simp
  then have fin: "final = cookLoop rid ?m post cs1 ms1 s1"
    unfolding final_def cs1_def ms1_def s1_def step_def by (simp only: cookLoop_append)
  have final1: "cookLoop rid ?m ?ings [] [] st = (cs', ms', st')"
    by (simp add: final_def cs'_def ms'_def st'_def)
  have ext: "\<exists>cs2 ms2. cs' = cs1 @ cs2 \<and> ms' = ms1 @ ms2"
    using cookLoop_extends[of rid ?m post cs1 ms1 s1] by (simp add: cs'_def ms'_def fin)
  have d1: "distinct (map batchId (batches s1))"
    using cookLoop_ids[of rid ?m "pre @ [ing]" "[]" "[]" st] assms(2)
    by (simp add: s1_def step_def)
  have le: "\<forall>a. currentStock st' a \<le> currentStock s1 a"
    using cookLoop_stock_le[OF d1, of rid ?m post cs1 ms1] by (simp add: st'_def fin)
  have resp: "cookRecipe st rid sv =
           (if ms' \<noteq> [] then MissingIngredients ms' cs'
            else Cooked (recipeName recipe)
                   (case sv of Some v \<Rightarrow> if v \<noteq> 0 then v else servings recipe
                    | None \<Rightarrow> servings recipe) cs', st')"
    using assms(1) final1 by (simp add: cookRecipe_def)
  from step1 unsat sat final1 ext le resp show ?thesis by blast
qed

theorem cookRecipe_per_ingredient_witness:
  "find (\<lambda>r. recipeId r = ''pancakes'') (recipes kitchen) = Some recipe_pancakes
   \<and> distinct (map batchId (batches kitchen))
   \<and> requiredIngredientsOf recipe_pancakes = [] @ ing_flour # [ing_milk, ing_eggs]
   \<and> \<not> unsatisfiable kitchen 1 ing_flour
   \<and> currentStock kitchen ''flour'' = 500
   \<and> (\<exists>c s1 ms' cs' st'.
          cookLoop ''pancakes'' 1 [ing_flour] [] [] kitchen = ([c], [], s1)
          \<and> cArticleId c = ''flour'' \<and> cConsumed c = 200
          \<and> currentStock s1 ''flour'' = 300 \<and> currentStock s1 ''milk'' = 8
          \<and> cookRecipe kitchen ''pancakes'' None = (MissingIngredients ms' cs', st')
          \<and> ms' \<noteq> [] \<and> c \<in> set cs' \<and> currentStock st' ''flour'' \<le> 300)
   \<and> find (\<lambda>r. recipeId r = ''omelette'') (recipes kitchen) = Some recipe_omelette
   \<and> requiredIngredientsOf recipe_omelette = [] @ ing_eggs # [ing_milk]
   \<and> unsatisfiable kitchen 1 ing_eggs
   \<and> cookLoop ''omelette'' 1 [ing_eggs] [] [] kitchen
       = ([], [NoArticle ''eggs'' 3 ''pcs''], kitchen)"
proof -
  have f: "find (\<lambda>r. recipeId r = ''pancakes'') (recipes kitchen) = Some recipe_pancakes"
    "find (\<lambda>r. recipeId r = ''omelette'') (recipes kitchen) = Some recipe_omelette"
    by (simp_all add: kitchen_defs)
  have ings: "requiredIngredientsOf recipe_pancakes = [] @ ing_flour # [ing_milk, ing_eggs]"
    "requiredIngredientsOf recipe_omelette = [] @ ing_eggs # [ing_milk]"
    "portionOf None recipe_omelette = 1" "portionOf None recipe_pancakes = 1"
    by (simp_all add: requiredIngredientsOf_def portionOf_def kitchen_defs)
  have u: "unsatisfiable kitchen 1 ing_eggs" "\<not> unsatisfiable kitchen 1 ing_flour"
    by (simp_all add: unsatisfiable_def ingNeeded_def cook_defs kitchen_defs query_defs unit_eval)
  have d: "distinct (map batchId (batches kitchen))" "currentStock kitchen ''flour'' = 500"
    "currentStock kitchen ''milk'' = 8"
    by (simp_all add: kitchen_defs query_defs)
  have e: "resolveArticle kitchen ing_flour = (Some ''flour'', Some article_flour)"
    "ingNeeded kitchen 1 ing_flour article_flour = Some 200"
    "missingEntry kitchen 1 ing_eggs = NoArticle ''eggs'' 3 ''pcs''"
    by (simp_all add: missingEntry_def ingNeeded_def cook_defs kitchen_defs query_defs unit_eval)
  have r: "\<exists>ms cs. fst (cookRecipe kitchen ''pancakes'' None) = MissingIngredients ms cs"
    by (simp add: cook_defs kitchen_defs query_defs unit_eval)
  have start: "cookLoop rid m [] [] [] kitchen = ([], [], kitchen)" for rid m by simp
  note T = cookRecipe_per_ingredient[OF f(1) d(1) ings(1) start, of None, unfolded ings(4)]
  from T obtain cs1 ms1 s1 cs' ms' st' where
    p1: "cookLoop ''pancakes'' 1 ([] @ [ing_flour]) [] [] kitchen = (cs1, ms1, s1)"
    and p2: "\<not> unsatisfiable kitchen 1 ing_flour \<longrightarrow>
          ms1 = []
          \<and> (\<exists>c article. cs1 = [] @ [c]
                 \<and> resolveArticle kitchen ing_flour = (Some (cArticleId c), Some article)
                 \<and> ingNeeded kitchen 1 ing_flour article = Some (cConsumed c)
                 \<and> (\<forall>a. currentStock s1 a
                          = currentStock kitchen a
                            - (if a = cArticleId c then max 0 (cConsumed c) else 0)))"
    and p3: "\<exists>cs2 ms2. cs' = cs1 @ cs2 \<and> ms' = ms1 @ ms2"
    and p8: "\<forall>a. currentStock st' a \<le> currentStock s1 a"
    and p9: "cookRecipe kitchen ''pancakes'' None =
           (if ms' \<noteq> [] then MissingIngredients ms' cs'
            else Cooked (recipeName recipe_pancakes)
                   (case None of Some v \<Rightarrow> if v \<noteq> 0 then v else servings recipe_pancakes
                    | None \<Rightarrow> servings recipe_pancakes) cs', st')"
    by blast
  from p2 u(2) obtain c article where p: "ms1 = []" "cs1 = [c]"
    "resolveArticle kitchen ing_flour = (Some (cArticleId c), Some article)"
    "ingNeeded kitchen 1 ing_flour article = Some (cConsumed c)"
    "\<forall>a. currentStock s1 a
        = currentStock kitchen a - (if a = cArticleId c then max 0 (cConsumed c) else 0)"
    by auto
  from p3 p(2) obtain cs2 where p7: "cs' = [c] @ cs2" by auto
  from p(3,4) e have c: "cArticleId c = ''flour''" "cConsumed c = 200" by simp_all
  with p(5) d have s1: "currentStock s1 ''flour'' = 300" "currentStock s1 ''milk'' = 8"
    by simp_all
  from p9 r have ms': "ms' \<noteq> []"
    by (auto split: if_splits)
  with p9 have resp: "cookRecipe kitchen ''pancakes'' None = (MissingIngredients ms' cs', st')"
    by simp
  have le: "currentStock st' ''flour'' \<le> 300" using p8 s1 by (metis (full_types))
  have pan: "\<exists>c s1 ms' cs' st'.
          cookLoop ''pancakes'' 1 [ing_flour] [] [] kitchen = ([c], [], s1)
          \<and> cArticleId c = ''flour'' \<and> cConsumed c = 200
          \<and> currentStock s1 ''flour'' = 300 \<and> currentStock s1 ''milk'' = 8
          \<and> cookRecipe kitchen ''pancakes'' None = (MissingIngredients ms' cs', st')
          \<and> ms' \<noteq> [] \<and> c \<in> set cs' \<and> currentStock st' ''flour'' \<le> 300"
    using p1 p(1,2) p7 c s1 ms' resp le
    by (intro exI[of _ c] exI[of _ s1] exI[of _ ms'] exI[of _ cs'] exI[of _ st']) simp
  note T2 = cookRecipe_per_ingredient[OF f(2) d(1) ings(2) start, of None, unfolded ings(3)]
  from T2 obtain cs1 ms1 s1 where
    o1: "cookLoop ''omelette'' 1 ([] @ [ing_eggs]) [] [] kitchen = (cs1, ms1, s1)"
    and o2: "unsatisfiable kitchen 1 ing_eggs \<longrightarrow>
          cs1 = [] \<and> ms1 = [] @ [missingEntry kitchen 1 ing_eggs] \<and> s1 = kitchen"
    by blast
  from o1 o2 u(1) e(3) have om: "cookLoop ''omelette'' 1 [ing_eggs] [] [] kitchen
       = ([], [NoArticle ''eggs'' 3 ''pcs''], kitchen)"
    by simp
  from f d ings(1,2) u pan om show ?thesis by simp
qed


section \<open>Theorems about completing a shopping list\<close>

lemma createBatches_linked:
  "list_all2
     (\<lambda>i b. Some (batchArticleId b) = itemArticleId i
            \<and> quantity b = boughtQuantity i \<and> initialQuantity b = boughtQuantity i
            \<and> expiryDate b = itemExpiryDate i
            \<and> purchasePrice b = orNum (actualPrice i) (estimatedPrice i)
            \<and> purchaseDate b = (case itemPurchaseDate i of Some d \<Rightarrow> d | None \<Rightarrow> now))
     (filter (\<lambda>i. truthyStr (itemArticleId i)) its)
     (createBatches now freshId n its)"
proof (induction its arbitrary: n)
  case Nil
  then show ?case by simp
next
  case (Cons i its)
  show ?case
  proof (cases "itemArticleId i")
    case None
    with Cons show ?thesis by (simp add: truthyStr_def)
  next
    case (Some aid)
    with Cons show ?thesis
      by (simp add: truthyStr_def batchOfItem_def boughtQuantity_def Let_def)
  qed
qed

lemma purchased_linked:
  "filter (\<lambda>i. truthyStr (itemArticleId i)) (purchasedArticleItems l) = linkedPurchases l"
  by (auto simp: purchasedArticleItems_def linkedPurchases_def truthyStr_def
      intro: filter_cong split: option.splits)

lemmas shop_defs = shop_def list_open_def list_done_def item_milk_def item_flour_def
  item_custom_def ids_def kitchen_def emptyStore_def

lemmas complete_defs = completeShoppingList_def purchasedArticleItems_def batchOfItem_def
  orNum_def truthy_defs Let_def

text \<open>
  Claim C6, as stated, fails for a purchased quantity that is recorded as 0: it is not
  null, and the batch is created with the needed quantity, since the source writes
  \<^verbatim>\<open>purchasedQuantity || neededQuantity\<close>.
\<close>

theorem completeShoppingList_zero_quantity_counterexample:
  "find (\<lambda>x. listId x = ''L1'') (shoppingLists shop) = Some list_open
   \<and> item_flour \<in> set (items list_open) \<and> isPurchased item_flour
   \<and> itemArticleId item_flour = Some ''flour''
   \<and> purchasedQuantity item_flour = Some 0 \<and> neededQuantity item_flour = 500
   \<and> map (\<lambda>b. (batchArticleId b, quantity b, initialQuantity b))
         (drop (length (batches shop)) (batches (snd (completeShoppingList shop ''L1'' 40 ids))))
       = [(''milk'', 2000, 2000), (''flour'', 500, 500)]"
  by (simp add: complete_defs shop_defs)

text \<open>
  Claim C6, amended: completing a shopping list that is not completed yet appends, for
  every purchased item with a linked article and in their order, one new batch of that
  article whose quantity and initial quantity equal the purchased quantity when that is
  neither null nor zero (else the needed quantity), whose expiry date is the one recorded
  on the item, and whose purchase price is the actual price when that is neither null
  nor zero and the estimated price when the actual price is null; the list is returned
  marked as completed. Completing a list that is completed already fails and creates no
  batch.
\<close>

theorem completeShoppingList_batches:
  assumes "find (\<lambda>x. listId x = lid) (shoppingLists st) = Some l"
  shows "(completedAt l \<noteq> None \<longrightarrow>
            completeShoppingList st lid now freshId
              = (Inl (BadRequest ''Shopping list already completed''), st))
       \<and> (completedAt l = None \<longrightarrow>
            (\<exists>new st'. completeShoppingList st lid now freshId
                          = (Inr (l\<lparr>completedAt := Some now\<rparr>), st')
               \<and> batches st' = batches st @ new
               \<and> list_all2
                     (\<lambda>i b. Some (batchArticleId b) = itemArticleId i
                            \<and> quantity b = boughtQuantity i
                            \<and> initialQuantity b = boughtQuantity i
                            \<and> expiryDate b = itemExpiryDate i
                            \<and> (case actualPrice i of
                                 None \<Rightarrow> purchasePrice b = estimatedPrice i
                               | Some p \<Rightarrow> p \<noteq> 0 \<longrightarrow> purchasePrice b = Some p))
                     (linkedPurchases l) new))"
proof -
  let ?new = "createBatches now freshId 0 (purchasedArticleItems l)"
  have already: "completedAt l \<noteq> None \<longrightarrow>
            completeShoppingList st lid now freshId
              = (Inl (BadRequest ''Shopping list already completed''), st)"
    using assms by (simp add: completeShoppingList_def)
  have all: "list_all2
     (\<lambda>i b. Some (batchArticleId b) = itemArticleId i
            \<and> quantity b = boughtQuantity i \<and> initialQuantity b = boughtQuantity i
            \<and> expiryDate b = itemExpiryDate i
            \<and> purchasePrice b = orNum (actualPrice i) (estimatedPrice i)
            \<and> purchaseDate b = (case itemPurchaseDate i of Some d \<Rightarrow> d | None \<Rightarrow> now))
     (linkedPurchases l) ?new"
    using createBatches_linked[of now "purchasedArticleItems l" freshId 0]
    by (simp add: purchased_linked)
  have "list_all2
                     (\<lambda>i b. Some (batchArticleId b) = itemArticleId i
                            \<and> quantity b = boughtQuantity i
                            \<and> initialQuantity b = boughtQuantity i
                            \<and> expiryDate b = itemExpiryDate i
                            \<and> (case actualPrice i of
                                 None \<Rightarrow> purchasePrice b = estimatedPrice i
                               | Some p \<Rightarrow> p \<noteq> 0 \<longrightarrow> purchasePrice b = Some p))
                     (linkedPurchases l) ?new"
    by (rule list_all2_mono[OF all]) (auto simp: orNum_def truthyNum_def split: option.splits)
  then have "completedAt l = None \<longrightarrow>
            (\<exists>new st'. completeShoppingList st lid now freshId
                          = (Inr (l\<lparr>completedAt := Some now\<rparr>), st')
               \<and> batches st' = batches st @ new
               \<and> list_all2
                     (\<lambda>i b. Some (batchArticleId b) = itemArticleId i
                            \<and> quantity b = boughtQuantity i
                            \<and> initialQuantity b = boughtQuantity i
                            \<and> expiryDate b = itemExpiryDate i
                            \<and> (case actualPrice i of
                                 None \<Rightarrow> purchasePrice b = estimatedPrice i
                               | Some p \<Rightarrow> p \<noteq> 0 \<longrightarrow> purchasePrice b = Some p))
                     (linkedPurchases l) new)"
    using assms by (auto simp: completeShoppingList_def Let_def)
  with already show ?thesis by blast
qed

theorem completeShoppingList_batches_witness:
  "find (\<lambda>x. listId x = ''L1'') (shoppingLists shop) = Some list_open
   \<and> completedAt list_open = None
   \<and> linkedPurchases list_open = [item_milk, item_flour]
   \<and> (\<exists>b1 b2 st'. completeShoppingList shop ''L1'' 40 ids
                       = (Inr (list_open\<lparr>completedAt := Some 40\<rparr>), st')
          \<and> batches st' = batches shop @ [b1, b2]
          \<and> batchArticleId b1 = ''milk'' \<and> quantity b1 = 2000 \<and> initialQuantity b1 = 2000
          \<and> purchasePrice b1 = Some 2.5 \<and> expiryDate b1 = Some 30
          \<and> batchArticleId b2 = ''flour'' \<and> quantity b2 = 500 \<and> purchasePrice b2 = None)
   \<and> find (\<lambda>x. listId x = ''L0'') (shoppingLists shop) = Some list_done
   \<and> completedAt list_done \<noteq> None
   \<and> completeShoppingList shop ''L0'' 40 ids
       = (Inl (BadRequest ''Shopping list already completed''), shop)"
proof -
  have f: "find (\<lambda>x. listId x = ''L1'') (shoppingLists shop) = Some list_open"
    "find (\<lambda>x. listId x = ''L0'') (shoppingLists shop) = Some list_done"
    "completedAt list_open = None" "completedAt list_done \<noteq> None"
    "linkedPurchases list_open = [item_milk, item_flour]"
    by (simp_all add: shop_defs linkedPurchases_def truthy_defs)
  have v: "itemArticleId item_milk = Some ''milk''" "boughtQuantity item_milk = 2000"
    "actualPrice item_milk = Some 2.5" "itemExpiryDate item_milk = Some 30"
    "itemArticleId item_flour = Some ''flour''" "boughtQuantity item_flour = 500"
    "actualPrice item_flour = None" "estimatedPrice item_flour = None"
    by (simp_all add: item_milk_def item_flour_def boughtQuantity_def)
  from completeShoppingList_batches[OF f(1), of 40 ids] f(3,5) v
  have a: "\<exists>b1 b2 st'. completeShoppingList shop ''L1'' 40 ids
                       = (Inr (list_open\<lparr>completedAt := Some 40\<rparr>), st')
          \<and> batches st' = batches shop @ [b1, b2]
          \<and> batchArticleId b1 = ''milk'' \<and> quantity b1 = 2000 \<and> initialQuantity b1 = 2000
          \<and> purchasePrice b1 = Some 2.5 \<and> expiryDate b1 = Some 30
          \<and> batchArticleId b2 = ''flour'' \<and> quantity b2 = 500 \<and> purchasePrice b2 = None"
    by (auto simp: list_all2_Cons1)
  from completeShoppingList_batches[OF f(2), of 40 ids] f(4)
  have b: "completeShoppingList shop ''L0'' 40 ids
       = (Inl (BadRequest ''Shopping list already completed''), shop)" by simp
  from f a b show ?thesis by simp
qed

section \<open>Theorems about shopping list generation\<close>

subsection \<open>Lists with distinct keys\<close>

lemma distinct_key_head:
  assumes "distinct (map k (x # xs))" and "y \<in> set xs"
  shows "k y \<noteq> k x"
proof
  assume "k y = k x"
  moreover have "k y \<in> set (map k xs)" using assms(2) by simp
  moreover have "k x \<notin> set (map k xs)" using assms(1) by simp
  ultimately show False by simp
qed

lemma distinct_key_tail: "distinct (map k (x # xs)) \<Longrightarrow> distinct (map k xs)"
  by simp

lemma filter_key_none: "\<forall>y \<in> set xs. k y \<noteq> a \<Longrightarrow> filter (\<lambda>x. k x = a) xs = []"
  by (induction xs) auto

lemma find_key_none: "\<forall>y \<in> set xs. k y \<noteq> a \<Longrightarrow> find (\<lambda>x. k x = a) xs = None"
  by (induction xs) auto

lemma filter_key_distinct:
  "distinct (map k xs) \<Longrightarrow>
   filter (\<lambda>x. k x = a) xs = (case find (\<lambda>x. k x = a) xs of Some x \<Rightarrow> [x] | None \<Rightarrow> [])"
proof (induction xs)
  case Nil
  then show ?case by simp
next
  case (Cons x xs)
  show ?case
  proof (cases "k x = a")
    case True
    have "\<forall>y \<in> set xs. k y \<noteq> a"
      using distinct_key_head[OF Cons.prems] True by auto
    then have "filter (\<lambda>x. k x = a) xs = []" by (rule filter_key_none)
    with True show ?thesis by simp
  next
    case False
    with Cons.IH[OF distinct_key_tail[OF Cons.prems]] show ?thesis by simp
  qed
qed

lemma find_key_filter:
  "distinct (map k xs) \<Longrightarrow>
   find (\<lambda>x. k x = a) (filter P xs) =
     (case find (\<lambda>x. k x = a) xs of Some x \<Rightarrow> if P x then Some x else None | None \<Rightarrow> None)"
proof (induction xs)
  case Nil
  then show ?case by simp
next
  case (Cons x xs)
  show ?case
  proof (cases "k x = a")
    case True
    have "\<forall>y \<in> set (filter P xs). k y \<noteq> a"
      using distinct_key_head[OF Cons.prems] True by auto
    then have "find (\<lambda>x. k x = a) (filter P xs) = None" by (rule find_key_none)
    with True show ?thesis by simp
  next
    case False
    with Cons.IH[OF distinct_key_tail[OF Cons.prems]] show ?thesis by simp
  qed
qed

lemma distinct_key_filter: "distinct (map k xs) \<Longrightarrow> distinct (map k (filter P xs))"
  by (simp add: distinct_map_filter)

lemma recipeLoop_eq:
  "recipeLoop us m rs acc proc =
     (acc @ List.map_filter (recipeItem us m) rs, proc \<union> linkedIds rs)"
proof (induction rs arbitrary: acc proc)
  case Nil
  then show ?case by (simp add: linkedIds_def)
next
  case (Cons r rs)
  have ids: "linkedIds (r # rs) =
      (case reqArticleId r of Some a \<Rightarrow> if a \<noteq> [] then insert a (linkedIds rs) else linkedIds rs
       | None \<Rightarrow> linkedIds rs)"
    by (auto simp: linkedIds_def split: option.splits)
  show ?case
    by (cases "recipeItem us m r"; cases "reqArticleId r")
      (auto simp: Cons.IH ids)
qed

lemma forecastLoop_eq:
  "distinct (map fArticleId fs) \<Longrightarrow>
   forecastLoop us m fs acc proc =
     (acc @ List.map_filter (forecastItem us m) (filter (\<lambda>f. fArticleId f \<notin> proc) fs),
      proc \<union> forecastIds fs)"
proof (induction fs arbitrary: acc proc)
  case Nil
  then show ?case by (simp add: forecastIds_def)
next
  case (Cons f fs)
  have same: "filter (\<lambda>x. fArticleId x \<noteq> fArticleId f \<and> fArticleId x \<notin> proc) fs
      = filter (\<lambda>x. fArticleId x \<notin> proc) fs"
  proof (rule filter_cong)
    fix x assume "x \<in> set fs"
    then have "fArticleId x \<noteq> fArticleId f" by (rule distinct_key_head[OF Cons.prems])
    then show "(fArticleId x \<noteq> fArticleId f \<and> fArticleId x \<notin> proc) = (fArticleId x \<notin> proc)"
      by simp
  qed simp
  have ids: "forecastIds (f # fs) = insert (fArticleId f) (forecastIds fs)"
    by (auto simp: forecastIds_def)
  have IH: "forecastLoop us m fs acc' proc' =
     (acc' @ List.map_filter (forecastItem us m) (filter (\<lambda>f. fArticleId f \<notin> proc') fs),
      proc' \<union> forecastIds fs)" for acc' proc'
    by (rule Cons.IH[OF distinct_key_tail[OF Cons.prems]])
  show ?case
    by (cases "forecastItem us m f") (auto simp: IH same ids)
qed

lemma lowStockLoop_eq:
  "lowStockLoop st us m as acc proc =
     acc @ List.map_filter (lowStockItem st us m) (filter (\<lambda>x. articleId x \<notin> proc) as)"
proof (induction as arbitrary: acc)
  case Nil
  then show ?case by simp
next
  case (Cons x as)
  show ?case
    by (cases "lowStockItem st us m x") (auto simp: Cons.IH)
qed

lemma generateItems_eq:
  assumes "distinct (map fArticleId fc)"
  shows "generateItems st d1 d2 fc =
     (let reqs = requiredIngredients st d1 d2;
          m = buildMaps st reqs fc;
          p1 = linkedIds (map snd reqs)
      in List.map_filter (recipeItem (units st) m) (map snd reqs)
         @ List.map_filter (forecastItem (units st) m) (filter (\<lambda>f. fArticleId f \<notin> p1) fc)
         @ List.map_filter (lowStockItem st (units st) m)
             (filter (\<lambda>x. articleId x \<notin> p1 \<union> forecastIds fc)
                (allArticlesWithMinStock st)))"
  by (simp add: generateItems_def Let_def recipeLoop_eq forecastLoop_eq[OF assms] lowStockLoop_eq)

lemma requirementKey_linked:
  "truthyStr (ingArticleId ing) \<Longrightarrow> ingArticleId ing = Some (requirementKey ing)"
  by (auto simp: truthyStr_def requirementKey_def split: option.splits)

lemma addIngredient_keyed:
  assumes "keyed reqs"
  shows "keyed (addIngredient st pm reqs ing)"
proof (cases "map_of reqs (requirementKey ing)")
  case None
  then have fresh: "requirementKey ing \<notin> fst ` set reqs"
    by (simp add: map_of_eq_None_iff)
  obtain n u where nu: "requirementOf st pm ing = (n, u)" by (cases "requirementOf st pm ing")
  have "addIngredient st pm reqs ing =
      reqs @ [(requirementKey ing,
               \<lparr>reqArticleId = ingArticleId ing,
                reqArticleName = orStr (map_option articleName (ingArticle st ing)) None,
                reqCategoryMatch = categoryMatch ing, reqUnit = u, totalQuantity = n,
                reqReason = ''RECIPE''\<rparr>)]"
    using None nu by (simp add: addIngredient_def Let_def)
  then show ?thesis
    using assms fresh requirementKey_linked[of ing]
    by (auto simp: keyed_def)
next
  case (Some existing)
  obtain n u where nu: "requirementOf st pm ing = (n, u)" by (cases "requirementOf st pm ing")
  let ?f = "\<lambda>(k, r). if k = requirementKey ing
                    then (k, r\<lparr>totalQuantity := totalQuantity r + n\<rparr>) else (k, r)"
  have eq: "addIngredient st pm reqs ing = map ?f reqs"
    using Some nu by (simp add: addIngredient_def Let_def)
  have keys: "map fst (map ?f reqs) = map fst reqs"
    by (induction reqs) (auto split: prod.splits)
  have ids: "\<forall>(k, r) \<in> set (map ?f reqs). \<exists>r'. (k, r') \<in> set reqs \<and> reqArticleId r' = reqArticleId r"
    by (auto split: if_splits)
  show ?thesis
    unfolding eq keyed_def keys using assms ids
    by (fastforce simp: keyed_def)
qed

lemma foldl_keyed:
  "keyed reqs \<Longrightarrow> keyed (foldl (addIngredient st pm) reqs ings)"
  by (induction ings arbitrary: reqs) (simp_all add: addIngredient_keyed)

lemma addEntry_keyed: "keyed reqs \<Longrightarrow> keyed (addEntry st reqs er)"
  by (cases er) (simp add: addEntry_def foldl_keyed)

lemma requiredIngredients_keyed: "keyed (requiredIngredients st d1 d2)"
proof -
  have "keyed reqs \<Longrightarrow> keyed (foldl (addEntry st) reqs es)" for reqs es
    by (induction es arbitrary: reqs) (simp_all add: addEntry_keyed)
  moreover have "keyed []" by (simp add: keyed_def)
  ultimately show ?thesis by (simp add: requiredIngredients_def)
qed

lemma keyed_tail: "keyed (x # reqs) \<Longrightarrow> keyed reqs"
  by (auto simp: keyed_def)

lemma keyed_filter_linked:
  assumes "keyed reqs" and "a \<noteq> []"
  shows "filter (\<lambda>r. reqArticleId r = Some a) (map snd reqs) =
         (case map_of reqs a of
            Some r \<Rightarrow> if reqArticleId r = Some a then [r] else []
          | None \<Rightarrow> [])"
  using assms(1)
proof (induction reqs)
  case Nil
  then show ?case by simp
next
  case (Cons x reqs)
  obtain k r where x: "x = (k, r)" by (cases x)
  have tail: "keyed reqs" using Cons.prems by (rule keyed_tail)
  have key: "\<And>k' r'. (k', r') \<in> set (x # reqs) \<Longrightarrow> reqArticleId r' = Some a \<Longrightarrow> k' = a"
    using Cons.prems assms(2) by (fastforce simp: keyed_def truthyStr_def)
  have kfresh: "k \<notin> fst ` set reqs" using Cons.prems x by (auto simp: keyed_def)
  show ?case
  proof (cases "k = a")
    case True
    have none: "filter (\<lambda>r. reqArticleId r = Some a) (map snd reqs) = []"
    proof -
      have "\<forall>r' \<in> set (map snd reqs). reqArticleId r' \<noteq> Some a"
      proof
        fix r' assume "r' \<in> set (map snd reqs)"
        then obtain k' where in': "(k', r') \<in> set reqs" by auto
        show "reqArticleId r' \<noteq> Some a"
        proof
          assume "reqArticleId r' = Some a"
          with key[of k' r'] in' have "k' = a" by simp
          with in' True kfresh show False by force
        qed
      qed
      then show ?thesis by (simp add: filter_empty_conv)
    qed
    with True x show ?thesis by simp
  next
    case False
    then have "reqArticleId r \<noteq> Some a" using key[of k r] x by auto
    with False x Cons.IH[OF tail] show ?thesis by simp
  qed
qed

lemma keyed_linkedIds:
  assumes "keyed reqs"
  shows "a \<in> linkedIds (map snd reqs) \<longleftrightarrow> a \<noteq> [] \<and> recipeNeedOf reqs a \<noteq> None"
proof (cases "a = []")
  case True
  then show ?thesis by (simp add: linkedIds_def)
next
  case False
  have "(\<exists>r \<in> set (map snd reqs). reqArticleId r = Some a)
      \<longleftrightarrow> filter (\<lambda>r. reqArticleId r = Some a) (map snd reqs) \<noteq> []"
    by (simp only: filter_empty_conv) simp
  also have "\<dots> \<longleftrightarrow> recipeNeedOf reqs a \<noteq> None"
    unfolding keyed_filter_linked[OF assms False]
    by (simp add: recipeNeedOf_def split: option.splits)
  finally show ?thesis using False by (simp add: linkedIds_def)
qed

subsection \<open>What the maps hold\<close>

lemma stockOfArticle_currentStock: "stockOfArticle st x = currentStock st (articleId x)"
  by (simp add: stockOfArticle_def currentStock_eq totalStock_def)

lemma trackRequired_fields:
  "stockMap (trackRequired st m x) = (stockMap m)(articleId x \<mapsto> currentStock st (articleId x))"
  "forecastMap (trackRequired st m x) = forecastMap m"
  "minStockMap (trackRequired st m x) = minStockMap m"
  by (simp_all add: trackRequired_def stockOfArticle_currentStock)

lemma trackForecast_fields:
  "forecastMap (trackForecast m f) = (forecastMap m)(fArticleId f \<mapsto> fQuantity f)"
  "stockMap (trackForecast m f) = stockMap m"
  "minStockMap (trackForecast m f) = minStockMap m"
  by (simp_all add: trackForecast_def)

lemma trackMinStock_fields:
  "forecastMap (trackMinStock st m x) = forecastMap m"
  "minStockMap (trackMinStock st m x) =
     (case minStock x of
        Some v \<Rightarrow> if v \<noteq> 0 then (minStockMap m)(articleId x \<mapsto> v) else minStockMap m
      | None \<Rightarrow> minStockMap m)"
  "stockMap (trackMinStock st m x) =
     (if truthyNum (minStock x) \<and> stockMap m (articleId x) = None
      then (stockMap m)(articleId x \<mapsto> currentStock st (articleId x)) else stockMap m)"
  by (auto simp: trackMinStock_def truthyNum_def stockOfArticle_currentStock
      split: option.splits)

lemma trackRequired_fold:
  shows "stockMap (foldl (trackRequired st) m xs) k =
     (if \<exists>x \<in> set xs. articleId x = k then Some (currentStock st k) else stockMap m k)"
    and "forecastMap (foldl (trackRequired st) m xs) = forecastMap m"
    and "minStockMap (foldl (trackRequired st) m xs) = minStockMap m"
proof (induction xs arbitrary: m)
  case Nil
  {
    case 1 show ?case by simp
  next
    case 2 show ?case by simp
  next
    case 3 show ?case by simp
  }
next
  case (Cons x xs)
  {
    case 1 show ?case
      by (auto simp: Cons.IH(1) trackRequired_fields)
  next
    case 2 show ?case by (simp add: Cons.IH(2) trackRequired_fields)
  next
    case 3 show ?case by (simp add: Cons.IH(3) trackRequired_fields)
  }
qed

lemma trackForecast_frame:
  shows "stockMap (foldl trackForecast m fs) = stockMap m"
    and "minStockMap (foldl trackForecast m fs) = minStockMap m"
  by (induction fs arbitrary: m) (simp_all add: trackForecast_fields)

lemma trackForecast_fold:
  "distinct (map fArticleId fs) \<Longrightarrow>
   forecastMap (foldl trackForecast m fs) k =
     (case find (\<lambda>f. fArticleId f = k) fs of
        Some f \<Rightarrow> Some (fQuantity f) | None \<Rightarrow> forecastMap m k)"
proof (induction fs arbitrary: m)
  case Nil
  then show ?case by simp
next
  case (Cons f fs)
  note IH = Cons.IH[OF distinct_key_tail[OF Cons.prems]]
  show ?case
  proof (cases "fArticleId f = k")
    case True
    have "\<forall>y \<in> set fs. fArticleId y \<noteq> k"
      using distinct_key_head[OF Cons.prems] True by auto
    then have "find (\<lambda>f. fArticleId f = k) fs = None" by (rule find_key_none)
    with True show ?thesis by (simp add: IH trackForecast_fields)
  next
    case False
    then show ?thesis by (simp add: IH trackForecast_fields split: option.splits)
  qed
qed

lemma trackMinStock_frame:
  "forecastMap (foldl (trackMinStock st) m xs) = forecastMap m"
  by (induction xs arbitrary: m) (simp_all add: trackMinStock_fields)

lemma trackMinStock_stock:
  "stockMap (foldl (trackMinStock st) m xs) k =
     (case stockMap m k of
        Some v \<Rightarrow> Some v
      | None \<Rightarrow> if \<exists>x \<in> set xs. articleId x = k \<and> truthyNum (minStock x)
                then Some (currentStock st k) else None)"
proof (induction xs arbitrary: m)
  case Nil
  then show ?case by (simp split: option.splits)
next
  case (Cons x xs)
  show ?case
    by (auto simp: Cons.IH trackMinStock_fields split: option.splits)
qed

lemma trackMinStock_fold:
  "distinct (map articleId xs) \<Longrightarrow>
   minStockMap (foldl (trackMinStock st) m xs) k =
     (case find (\<lambda>x. articleId x = k) xs of
        Some x \<Rightarrow> (case minStock x of
                     Some v \<Rightarrow> if v \<noteq> 0 then Some v else minStockMap m k
                   | None \<Rightarrow> minStockMap m k)
      | None \<Rightarrow> minStockMap m k)"
proof (induction xs arbitrary: m)
  case Nil
  then show ?case by simp
next
  case (Cons x xs)
  note IH = Cons.IH[OF distinct_key_tail[OF Cons.prems]]
  show ?case
  proof (cases "articleId x = k")
    case True
    have "\<forall>y \<in> set xs. articleId y \<noteq> k"
      using distinct_key_head[OF Cons.prems] True by auto
    then have none: "find (\<lambda>x. articleId x = k) xs = None" by (rule find_key_none)
    show ?thesis
      using True by (simp add: IH none trackMinStock_fields split: option.splits)
  next
    case False
    then show ?thesis
      by (simp add: IH trackMinStock_fields split: option.splits)
  qed
qed

lemma buildMaps_forecast:
  assumes "distinct (map fArticleId fc)" and "distinct (map articleId (articles st))"
  shows "forecastMap (buildMaps st reqs fc) a = forecastOf fc a"
  by (simp add: buildMaps_def Let_def forecastOf_def trackMinStock_frame
      trackForecast_fold[OF assms(1)] trackRequired_fold(2) split: option.splits)

lemma buildMaps_minStock:
  assumes "distinct (map fArticleId fc)" and "distinct (map articleId (articles st))"
    and "findArticle st a = Some art"
  shows "getOr0 (minStockMap (buildMaps st reqs fc)) a = minStockOf art"
proof -
  have d: "distinct (map articleId (allArticlesWithMinStock st))"
    using assms(2) by (simp add: allArticlesWithMinStock_def distinct_map_filter)
  have f: "find (\<lambda>x. articleId x = a) (allArticlesWithMinStock st)
      = (if minStock art \<noteq> None then Some art else None)"
    using find_key_filter[OF assms(2), of a "\<lambda>a. minStock a \<noteq> None"] assms(3)
    by (simp add: allArticlesWithMinStock_def findArticle_def)
  show ?thesis
    by (simp add: buildMaps_def Let_def trackMinStock_fold[OF d] f trackForecast_frame(2)
        trackRequired_fold(3) getOr0_def minStockOf_def split: option.splits)
qed

lemma findArticle_member:
  "findArticle st a = Some art \<Longrightarrow> art \<in> set (articles st) \<and> articleId art = a"
  by (auto simp: findArticle_def find_Some_iff)

lemma buildMaps_stock:
  assumes "distinct (map fArticleId fc)" and "distinct (map articleId (articles st))"
    and "findArticle st a = Some art"
    and "(\<exists>r \<in> set (map snd reqs). reqArticleId r = Some a) \<or> truthyNum (minStock art)"
  shows "getOr0 (stockMap (buildMaps st reqs fc)) a = currentStock st a"
proof -
  have d: "distinct (map articleId (allArticlesWithMinStock st))"
    using assms(2) by (simp add: allArticlesWithMinStock_def distinct_map_filter)
  have art: "art \<in> set (articles st)" "articleId art = a"
    using findArticle_member[OF assms(3)] by simp_all
  let ?m0 = "\<lparr>stockMap = Map.empty, packageInfoMap = Map.empty, forecastMap = Map.empty,
                 minStockMap = Map.empty\<rparr>"
  let ?m3 = "foldl (trackRequired st) ?m0 (articlesWithStock st reqs)"
  let ?m4 = "foldl trackForecast ?m3 fc"
  have m3: "stockMap ?m3 a =
      (if \<exists>x \<in> set (articlesWithStock st reqs). articleId x = a then Some (currentStock st a)
       else None)"
    by (simp add: trackRequired_fold(1))
  have m4: "stockMap ?m4 = stockMap ?m3"
    by (rule trackForecast_frame(1))
  have m5: "stockMap (buildMaps st reqs fc) a =
     (case stockMap ?m4 a of
        Some v \<Rightarrow> Some v
      | None \<Rightarrow> if \<exists>x \<in> set (allArticlesWithMinStock st). articleId x = a \<and> truthyNum (minStock x)
                then Some (currentStock st a) else None)"
    by (simp add: buildMaps_def Let_def trackMinStock_stock)
  from assms(4) show ?thesis
  proof
    assume "\<exists>r \<in> set (map snd reqs). reqArticleId r = Some a"
    then have "art \<in> set (articlesWithStock st reqs)"
      using art by (force simp: articlesWithStock_def)
    then have "\<exists>x \<in> set (articlesWithStock st reqs). articleId x = a" using art(2) by blast
    with m3 m4 m5 show ?thesis by (simp add: getOr0_def)
  next
    assume t: "truthyNum (minStock art)"
    then have "art \<in> set (allArticlesWithMinStock st)"
      using art by (auto simp: allArticlesWithMinStock_def truthyNum_def split: option.splits)
    with t art(2) have "\<exists>x \<in> set (allArticlesWithMinStock st). articleId x = a \<and> truthyNum (minStock x)"
      by blast
    with m3 m4 m5 show ?thesis by (auto simp: getOr0_def split: option.splits)
  qed
qed

subsection \<open>The items of one article\<close>

lemma filter_map_filter:
  "(\<And>x y. x \<in> set xs \<Longrightarrow> f x = Some y \<Longrightarrow> Q y = P x) \<Longrightarrow>
   filter Q (List.map_filter f xs) = List.map_filter f (filter P xs)"
proof (induction xs)
  case Nil
  then show ?case by simp
next
  case (Cons x xs)
  then show ?case by (cases "f x") auto
qed

lemma recipeItem_article: "recipeItem us m r = Some i \<Longrightarrow> newArticleId i = reqArticleId r"
  by (auto simp: recipeItem_def Let_def split: if_splits)

lemma forecastItem_article: "forecastItem us m f = Some i \<Longrightarrow> newArticleId i = Some (fArticleId f)"
  by (auto simp: forecastItem_def Let_def split: if_splits)

lemma lowStockItem_article:
  "lowStockItem st us m x = Some i \<Longrightarrow> newArticleId i = Some (articleId x)"
  by (auto simp: lowStockItem_def Let_def split: if_splits option.splits)

lemma items_of_article:
  assumes dA: "distinct (map articleId (articles st))" and dF: "distinct (map fArticleId fc)"
    and a: "a \<noteq> []" and art: "findArticle st a = Some art"
  shows "filter (\<lambda>i. newArticleId i = Some a) (generateItems st d1 d2 fc) =
     (let reqs = requiredIngredients st d1 d2; m = buildMaps st reqs fc
      in if recipeNeedOf reqs a \<noteq> None then fromRecipes (units st) m reqs a
         else if forecastOf fc a \<noteq> None then fromForecast (units st) m fc a
         else List.map_filter (lowStockItem st (units st) m) [art])"
proof -
  define reqs where "reqs = requiredIngredients st d1 d2"
  define m where "m = buildMaps st reqs fc"
  define p1 where "p1 = linkedIds (map snd reqs)"
  let ?Q = "\<lambda>i. newArticleId i = Some a"
  have k: "keyed reqs" unfolding reqs_def by (rule requiredIngredients_keyed)
  have p1: "a \<in> p1 \<longleftrightarrow> recipeNeedOf reqs a \<noteq> None"
    unfolding p1_def using keyed_linkedIds[OF k, of a] a by simp
  have fid: "a \<in> forecastIds fc \<longleftrightarrow> forecastOf fc a \<noteq> None"
    by (auto simp: forecastIds_def forecastOf_def find_None_iff)
  have gen: "generateItems st d1 d2 fc =
      List.map_filter (recipeItem (units st) m) (map snd reqs)
      @ List.map_filter (forecastItem (units st) m) (filter (\<lambda>f. fArticleId f \<notin> p1) fc)
      @ List.map_filter (lowStockItem st (units st) m)
          (filter (\<lambda>x. articleId x \<notin> p1 \<union> forecastIds fc) (allArticlesWithMinStock st))"
    unfolding generateItems_eq[OF dF] Let_def reqs_def m_def p1_def ..
  have part1: "filter ?Q (List.map_filter (recipeItem (units st) m) (map snd reqs))
      = fromRecipes (units st) m reqs a"
  proof -
    have "filter ?Q (List.map_filter (recipeItem (units st) m) (map snd reqs))
        = List.map_filter (recipeItem (units st) m)
            (filter (\<lambda>r. reqArticleId r = Some a) (map snd reqs))"
      by (rule filter_map_filter) (simp add: recipeItem_article)
    then show ?thesis
      unfolding keyed_filter_linked[OF k a] fromRecipes_def
      by (simp split: option.splits)
  qed
  have part2: "filter ?Q (List.map_filter (forecastItem (units st) m)
                  (filter (\<lambda>f. fArticleId f \<notin> p1) fc))
      = (if a \<in> p1 then [] else fromForecast (units st) m fc a)"
  proof -
    have "filter ?Q (List.map_filter (forecastItem (units st) m)
                  (filter (\<lambda>f. fArticleId f \<notin> p1) fc))
        = List.map_filter (forecastItem (units st) m)
            (filter (\<lambda>f. fArticleId f = a) (filter (\<lambda>f. fArticleId f \<notin> p1) fc))"
      by (rule filter_map_filter) (auto simp: forecastItem_article)
    also have "filter (\<lambda>f. fArticleId f = a) (filter (\<lambda>f. fArticleId f \<notin> p1) fc)
        = (if a \<in> p1 then [] else filter (\<lambda>f. fArticleId f = a) fc)"
      by (auto intro: filter_cong simp: filter_empty_conv)
    finally show ?thesis
      unfolding filter_key_distinct[OF dF] fromForecast_def
      by (simp split: option.splits)
  qed
  have part3: "filter ?Q (List.map_filter (lowStockItem st (units st) m)
          (filter (\<lambda>x. articleId x \<notin> p1 \<union> forecastIds fc) (allArticlesWithMinStock st)))
      = (if a \<in> p1 \<union> forecastIds fc then []
         else List.map_filter (lowStockItem st (units st) m) [art])"
  proof -
    let ?xs = "filter (\<lambda>x. articleId x \<notin> p1 \<union> forecastIds fc) (allArticlesWithMinStock st)"
    have "filter ?Q (List.map_filter (lowStockItem st (units st) m) ?xs)
        = List.map_filter (lowStockItem st (units st) m) (filter (\<lambda>x. articleId x = a) ?xs)"
      by (rule filter_map_filter) (auto simp: lowStockItem_article)
    also have "filter (\<lambda>x. articleId x = a) ?xs
        = (if a \<in> p1 \<union> forecastIds fc then []
           else filter (\<lambda>x. minStock x \<noteq> None) (filter (\<lambda>x. articleId x = a) (articles st)))"
      unfolding allArticlesWithMinStock_def
      by (auto intro: filter_cong simp: filter_empty_conv)
    also have "filter (\<lambda>x. articleId x = a) (articles st) = [art]"
      unfolding filter_key_distinct[OF dA] using art by (simp add: findArticle_def)
    finally have "filter ?Q (List.map_filter (lowStockItem st (units st) m) ?xs)
        = (if a \<in> p1 \<union> forecastIds fc then []
           else List.map_filter (lowStockItem st (units st) m)
                  (filter (\<lambda>x. minStock x \<noteq> None) [art]))" by (simp split: if_splits)
    moreover have "minStock art = None \<Longrightarrow> lowStockItem st (units st) m art = None"
      by (simp add: lowStockItem_def)
    ultimately show ?thesis by (auto simp: List.map_filter_simps)
  qed
  have rec: "recipeNeedOf reqs a = None \<Longrightarrow> fromRecipes (units st) m reqs a = []"
    by (auto simp: recipeNeedOf_def fromRecipes_def split: option.splits if_splits)
  have fc0: "forecastOf fc a = None \<Longrightarrow> fromForecast (units st) m fc a = []"
    by (auto simp: forecastOf_def fromForecast_def split: option.splits)
  show ?thesis
    unfolding Let_def reqs_def[symmetric] m_def[symmetric]
    unfolding gen filter_append part1 part2 part3
    using p1 fid rec fc0 by auto
qed

lemma addIngredient_tagged: "recipeTagged reqs \<Longrightarrow> recipeTagged (addIngredient st pm reqs ing)"
  by (cases "requirementOf st pm ing")
    (auto simp: recipeTagged_def addIngredient_def Let_def split: option.splits if_splits)

lemma foldl_tagged:
  "recipeTagged reqs \<Longrightarrow> recipeTagged (foldl (addIngredient st pm) reqs ings)"
  by (induction ings arbitrary: reqs) (simp_all add: addIngredient_tagged)

lemma addEntry_tagged: "recipeTagged reqs \<Longrightarrow> recipeTagged (addEntry st reqs er)"
  by (cases er) (simp add: addEntry_def foldl_tagged)

lemma requiredIngredients_reason:
  assumes "(k, r) \<in> set (requiredIngredients st d1 d2)"
  shows "reqReason r = ''RECIPE''"
proof -
  have "recipeTagged reqs \<Longrightarrow> recipeTagged (foldl (addEntry st) reqs es)" for reqs es
    by (induction es arbitrary: reqs) (simp_all add: addEntry_tagged)
  moreover have "recipeTagged []" by (simp add: recipeTagged_def)
  ultimately have "recipeTagged (requiredIngredients st d1 d2)"
    by (simp add: requiredIngredients_def)
  with assms show ?thesis by (auto simp: recipeTagged_def)
qed

lemma fromRecipes_need:
  assumes dA: "distinct (map articleId (articles st))" and dF: "distinct (map fArticleId fc)"
    and a: "a \<noteq> []" and art: "findArticle st a = Some art"
    and need: "recipeNeedOf (requiredIngredients st d1 d2) a = Some R"
  shows "map (\<lambda>i. (newNeededQuantity i, newReason i))
           (fromRecipes us (buildMaps st (requiredIngredients st d1 d2) fc)
              (requiredIngredients st d1 d2) a)
         = map (\<lambda>q. (q, ''RECIPE''))
             (storedNeed (R + (case forecastOf fc a of Some q \<Rightarrow> q | None \<Rightarrow> 0)
                            + minStockOf art - currentStock st a))"
proof -
  define reqs where "reqs = requiredIngredients st d1 d2"
  define m where "m = buildMaps st reqs fc"
  from need obtain r where r: "map_of reqs a = Some r" "reqArticleId r = Some a"
    "totalQuantity r = R"
    by (auto simp: recipeNeedOf_def reqs_def split: option.splits if_splits)
  have mem: "(a, r) \<in> set reqs" using r(1) by (rule map_of_SomeD)
  then have "r \<in> set (map snd reqs)" by force
  with r(2) have cov: "\<exists>r \<in> set (map snd reqs). reqArticleId r = Some a" by blast
  have reason: "reqReason r = ''RECIPE''"
    using requiredIngredients_reason mem unfolding reqs_def by blast
  have S: "getOr0 (stockMap m) a = currentStock st a"
    unfolding m_def by (rule buildMaps_stock[OF dF dA art]) (use cov in simp)
  have M: "getOr0 (minStockMap m) a = minStockOf art"
    unfolding m_def by (rule buildMaps_minStock[OF dF dA art])
  have F: "getOr0 (forecastMap m) a = (case forecastOf fc a of Some q \<Rightarrow> q | None \<Rightarrow> 0)"
    unfolding m_def by (simp add: getOr0_def buildMaps_forecast[OF dF dA])
  have "map (\<lambda>i. (newNeededQuantity i, newReason i)) (fromRecipes us m reqs a)
      = map (\<lambda>q. (q, ''RECIPE''))
             (storedNeed (R + (case forecastOf fc a of Some q \<Rightarrow> q | None \<Rightarrow> 0)
                            + minStockOf art - currentStock st a))"
    using r a S M F reason
    by (simp add: fromRecipes_def recipeItem_def storedNeed_def Let_def truthyStr_def
        List.map_filter_simps)
  then show ?thesis by (simp add: reqs_def m_def)
qed

lemma fromForecast_need:
  assumes dA: "distinct (map articleId (articles st))" and dF: "distinct (map fArticleId fc)"
    and art: "findArticle st a = Some art"
    and fq: "forecastOf fc a = Some q" and ms: "minStockOf art \<noteq> 0"
  shows "map (\<lambda>i. (newNeededQuantity i, newReason i)) (fromForecast us (buildMaps st reqs fc) fc a)
         = map (\<lambda>q. (q, ''FORECAST'')) (storedNeed (q + minStockOf art - currentStock st a))"
proof -
  define m where "m = buildMaps st reqs fc"
  from fq obtain f where f: "find (\<lambda>f. fArticleId f = a) fc = Some f" "fQuantity f = q"
    by (auto simp: forecastOf_def)
  then have fa: "fArticleId f = a" by (auto simp: find_Some_iff)
  have t: "truthyNum (minStock art)"
    using ms by (auto simp: minStockOf_def truthyNum_def split: option.splits)
  have S: "getOr0 (stockMap m) a = currentStock st a"
    unfolding m_def by (rule buildMaps_stock[OF dF dA art]) (use t in simp)
  have M: "getOr0 (minStockMap m) a = minStockOf art"
    unfolding m_def by (rule buildMaps_minStock[OF dF dA art])
  have "map (\<lambda>i. (newNeededQuantity i, newReason i)) (fromForecast us m fc a)
         = map (\<lambda>q. (q, ''FORECAST'')) (storedNeed (q + minStockOf art - currentStock st a))"
    using f fa S M
    by (simp add: fromForecast_def forecastItem_def storedNeed_def Let_def List.map_filter_simps)
  then show ?thesis by (simp add: m_def)
qed

lemma lowStock_need:
  assumes art: "findArticle st a = Some art"
  shows "map (\<lambda>i. (newNeededQuantity i, newReason i)) (List.map_filter (lowStockItem st us m) [art])
         = (if minStockOf art \<noteq> 0 \<and> currentStock st a < minStockOf art
            then [(round2 (roundQuantity (minStockOf art - currentStock st a)), ''LOW_STOCK'')]
            else [])"
proof -
  have "articleId art = a" using findArticle_member[OF art] by simp
  then show ?thesis
    by (auto simp: lowStockItem_def Let_def List.map_filter_simps minStockOf_def
        stockOfArticle_currentStock split: option.splits)
qed

lemma branch_lengths:
  "length (fromRecipes us m reqs a) \<le> 1" "length (fromForecast us m fc a) \<le> 1"
  "length (List.map_filter f [x]) \<le> 1"
  by (auto simp: fromRecipes_def fromForecast_def List.map_filter_simps split: option.splits)

lemmas generate_defs = generateItems_def requiredIngredients_def mealEntries_def addEntry_def
  addIngredient_def requirementKey_def requirementOf_def ingArticle_def buildMaps_def
  articlesWithStock_def allArticlesWithMinStock_def trackRequired_def trackForecast_def
  trackMinStock_def stockOfArticle_def packageInfoOf_def getOr0_def recipeItem_def
  forecastItem_def lowStockItem_def calculateRecommendedPacks_def roundQuantity_def round2_def
  mathRound_def mathCeil_def orStr_def List.map_filter_simps Let_def

lemma scenarioA:
  "generateItems storeA 1 10 [] =
     [\<lparr>newArticleId = Some ''milk'', newCustomName = Some ''Milk'', newNeededQuantity = 1300,
       newRecommendedPacks = 2, newReason = ''RECIPE''\<rparr>]"
  by (simp add: generate_defs storeA_def recipe_porridge_def batchM_def article_milk_def
      emptyStore_def query_defs unit_eval)

lemmas generate_stores = storeA_def recipe_porridge_def batchM_def article_milk_def
  storeSalt_def article_salt_def recipe_soup_def storeSaffron_def article_saffron_def
  recipe_paella_def storeRice_def article_rice_def forecast_rice_def storeEggs_def
  article_eggs_def forecast_eggs_def emptyStore_def

subsection \<open>The net need of an article\<close>

text \<open>
  The two roundings: a recipe need of 0.1234 g of an article without stock gives the total
  0.1234 at 4 decimals, and the item is stored with the quantity 0.12.
\<close>

lemma generateItems_two_roundings:
  "recipeNeedOf (requiredIngredients storeSaffron 1 10) ''saffron'' = Some 0.1234
   \<and> currentStock storeSaffron ''saffron'' = 0
   \<and> minStock article_saffron = None
   \<and> roundQuantity (0.1234 + 0 + 0 - 0) = 0.1234
   \<and> map newNeededQuantity (generateItems storeSaffron 1 10 []) = [0.12]"
  by (simp add: generate_defs generate_stores query_defs unit_eval recipeNeedOf_def)

text \<open>
  What the three loops compute for an article, where the article ids are unique and the
  forecast has one row for each article. Every article gets at most one item,
  from the first of three branches that applies. An article that the planned recipes
  require gets an item exactly when
  \<open>totalNeed = recipeNeed + forecastNeed + minStock - currentStock\<close>, rounded to 4 decimals,
  is strictly positive, and the item stores that value rounded to 2 decimals, with the
  reason RECIPE. An article that no recipe requires but the forecast lists, and that has
  a minimum stock, gets an item under the same rule with \<open>recipeNeed = 0\<close>, with the reason
  FORECAST. An article in neither gets an item exactly when it has a minimum stock that
  its current stock is below, storing \<open>minStock - currentStock\<close> rounded to 4 and then to
  2 decimals, with the reason LOW_STOCK. Scenario A of the specification (milk in ml,
  packages of 1000 ml, a recipe need of 1500 ml, 200 ml in stock, no minimum stock) yields
  exactly one item, with the needed quantity 1300 and 2 recommended packs.
\<close>

lemma generateItems_per_article:
  assumes "distinct (map articleId (articles st))" and "distinct (map fArticleId fc)"
    and "a \<noteq> []" and "findArticle st a = Some art"
  shows "length (filter (\<lambda>i. newArticleId i = Some a) (generateItems st d1 d2 fc)) \<le> 1
   \<and> (case recipeNeedOf (requiredIngredients st d1 d2) a of
        Some R \<Rightarrow>
          map (\<lambda>i. (newNeededQuantity i, newReason i))
              (filter (\<lambda>i. newArticleId i = Some a) (generateItems st d1 d2 fc))
          = map (\<lambda>q. (q, ''RECIPE''))
              (storedNeed (R + (case forecastOf fc a of Some q \<Rightarrow> q | None \<Rightarrow> 0)
                             + minStockOf art - currentStock st a))
      | None \<Rightarrow>
          (case forecastOf fc a of
             Some q \<Rightarrow>
               minStockOf art \<noteq> 0 \<longrightarrow>
               map (\<lambda>i. (newNeededQuantity i, newReason i))
                   (filter (\<lambda>i. newArticleId i = Some a) (generateItems st d1 d2 fc))
               = map (\<lambda>q. (q, ''FORECAST''))
                   (storedNeed (q + minStockOf art - currentStock st a))
           | None \<Rightarrow>
               map (\<lambda>i. (newNeededQuantity i, newReason i))
                   (filter (\<lambda>i. newArticleId i = Some a) (generateItems st d1 d2 fc))
               = (if minStockOf art \<noteq> 0 \<and> currentStock st a < minStockOf art
                  then [(round2 (roundQuantity (minStockOf art - currentStock st a)),
                         ''LOW_STOCK'')]
                  else [])))
   \<and> generateItems storeA 1 10 [] =
       [\<lparr>newArticleId = Some ''milk'', newCustomName = Some ''Milk'', newNeededQuantity = 1300,
         newRecommendedPacks = 2, newReason = ''RECIPE''\<rparr>]"
proof -
  let ?reqs = "requiredIngredients st d1 d2"
  let ?m = "buildMaps st ?reqs fc"
  let ?mine = "filter (\<lambda>i. newArticleId i = Some a) (generateItems st d1 d2 fc)"
  note shape = items_of_article[OF assms, of d1 d2, unfolded Let_def]
  have len: "length ?mine \<le> 1"
    unfolding shape using branch_lengths(1)[of "units st" ?m ?reqs a]
      branch_lengths(2)[of "units st" ?m fc a]
      branch_lengths(3)[of "lowStockItem st (units st) ?m" art]
    by presburger
  have r: "map (\<lambda>i. (newNeededQuantity i, newReason i)) ?mine
          = map (\<lambda>q. (q, ''RECIPE''))
              (storedNeed (R + (case forecastOf fc a of Some q \<Rightarrow> q | None \<Rightarrow> 0)
                             + minStockOf art - currentStock st a))"
    if "recipeNeedOf ?reqs a = Some R" for R
    unfolding shape using that fromRecipes_need[OF assms that] by simp
  have f: "map (\<lambda>i. (newNeededQuantity i, newReason i)) ?mine
               = map (\<lambda>q. (q, ''FORECAST''))
                   (storedNeed (q + minStockOf art - currentStock st a))"
    if "recipeNeedOf ?reqs a = None" "forecastOf fc a = Some q" "minStockOf art \<noteq> 0" for q
    unfolding shape using that fromForecast_need[OF assms(1,2,4) that(2,3)] by simp
  have l: "map (\<lambda>i. (newNeededQuantity i, newReason i)) ?mine
               = (if minStockOf art \<noteq> 0 \<and> currentStock st a < minStockOf art
                  then [(round2 (roundQuantity (minStockOf art - currentStock st a)),
                         ''LOW_STOCK'')]
                  else [])"
    if "recipeNeedOf ?reqs a = None" "forecastOf fc a = None"
    unfolding shape using that lowStock_need[OF assms(4)] by simp
  from len r f l scenarioA show ?thesis
    by (simp split: option.splits)
qed

lemma generateItems_per_article_examples:
  "distinct (map articleId (articles storeA)) \<and> distinct (map fArticleId [])
   \<and> ''milk'' \<noteq> [] \<and> findArticle storeA ''milk'' = Some article_milk
   \<and> recipeNeedOf (requiredIngredients storeA 1 10) ''milk'' = Some 1500
   \<and> currentStock storeA ''milk'' = 200 \<and> minStockOf article_milk = 0
   \<and> storedNeed (1500 + 0 + 0 - 200) = [1300]
   \<and> map (\<lambda>i. (newNeededQuantity i, newReason i))
         (filter (\<lambda>i. newArticleId i = Some ''milk'') (generateItems storeA 1 10 []))
       = [(1300, ''RECIPE'')]
   \<and> distinct (map articleId (articles storeRice)) \<and> distinct (map fArticleId [forecast_rice])
   \<and> findArticle storeRice ''rice'' = Some article_rice
   \<and> recipeNeedOf (requiredIngredients storeRice 1 10) ''rice'' = None
   \<and> forecastOf [forecast_rice] ''rice'' = Some 1000
   \<and> minStockOf article_rice = 500 \<and> currentStock storeRice ''rice'' = 200
   \<and> map (\<lambda>i. (newNeededQuantity i, newReason i))
         (filter (\<lambda>i. newArticleId i = Some ''rice'')
            (generateItems storeRice 1 10 [forecast_rice]))
       = [(1300, ''FORECAST'')]
   \<and> forecastOf [] ''rice'' = None
   \<and> map (\<lambda>i. (newNeededQuantity i, newReason i))
         (filter (\<lambda>i. newArticleId i = Some ''rice'') (generateItems storeRice 1 10 []))
       = [(300, ''LOW_STOCK'')]"
proof -
  have A: "distinct (map articleId (articles storeA))" "distinct (map fArticleId [])"
    "''milk'' \<noteq> []" "findArticle storeA ''milk'' = Some article_milk"
    "recipeNeedOf (requiredIngredients storeA 1 10) ''milk'' = Some 1500"
    "currentStock storeA ''milk'' = 200" "minStockOf article_milk = 0"
    "storedNeed (1500 + 0 + 0 - 200) = [1300]" "forecastOf [] ''milk'' = None"
    by (simp_all add: generate_defs generate_stores query_defs unit_eval recipeNeedOf_def
        minStockOf_def storedNeed_def forecastOf_def)
  have R: "distinct (map articleId (articles storeRice))"
    "distinct (map fArticleId [forecast_rice])" "''rice'' \<noteq> []"
    "findArticle storeRice ''rice'' = Some article_rice"
    "recipeNeedOf (requiredIngredients storeRice 1 10) ''rice'' = None"
    "forecastOf [forecast_rice] ''rice'' = Some 1000" "forecastOf [] ''rice'' = None"
    "minStockOf article_rice = 500" "currentStock storeRice ''rice'' = 200"
    "storedNeed (1000 + 500 - 200) = [1300]" "round2 (roundQuantity (500 - 200)) = 300"
    by (simp_all add: generate_defs generate_stores query_defs unit_eval recipeNeedOf_def
        minStockOf_def storedNeed_def forecastOf_def)
  from generateItems_per_article[OF A(1,2,3,4), of 1 10] A
  have a: "map (\<lambda>i. (newNeededQuantity i, newReason i))
         (filter (\<lambda>i. newArticleId i = Some ''milk'') (generateItems storeA 1 10 []))
       = [(1300, ''RECIPE'')]" by simp
  from generateItems_per_article[OF R(1,2,3,4), of 1 10] R
  have b: "map (\<lambda>i. (newNeededQuantity i, newReason i))
         (filter (\<lambda>i. newArticleId i = Some ''rice'')
            (generateItems storeRice 1 10 [forecast_rice]))
       = [(1300, ''FORECAST'')]" by simp
  from generateItems_per_article[OF R(1) A(2) R(3,4), of 1 10] R
  have c: "map (\<lambda>i. (newNeededQuantity i, newReason i))
         (filter (\<lambda>i. newArticleId i = Some ''rice'') (generateItems storeRice 1 10 []))
       = [(300, ''LOW_STOCK'')]" by simp
  from A R a b c show ?thesis by simp
qed

text \<open>
  Claim C3 at two inputs where the code departs from it. First, milk with 8 in stock, no
  minimum stock and no planned recipe, and a forecast of 5000: the claim's total is
  \<open>0 + 5000 + 0 - 8 = 4992\<close>, but the forecast branch reads the stock from the table that
  was filled only for the articles of the recipes and for those with a minimum stock, so
  the stock counts as 0 and the item stores 5000. Second, sugar with a minimum stock of 1
  and 0.99996 in stock, in no recipe and no forecast: the claim's total \<open>1 - 0.99996\<close> is
  0 when rounded to 4 decimals, not strictly positive, and the low-stock branch, which
  tests \<open>currentStock < minStock\<close> and not the rounded total, still creates an item, of
  quantity 0.
\<close>

theorem generateItems_forecast_ignores_stock:
  "findArticle storeD ''milk'' = Some article_milk \<and> minStock article_milk = None
   \<and> recipeNeedOf (requiredIngredients storeD 1 10) ''milk'' = None
   \<and> forecastOf [forecast_milk] ''milk'' = Some 5000
   \<and> currentStock storeD ''milk'' = 8
   \<and> roundQuantity (0 + 5000 + 0 - 8) = 4992
   \<and> stockMap (buildMaps storeD (requiredIngredients storeD 1 10) [forecast_milk]) ''milk''
       = None
   \<and> generateItems storeD 1 10 [forecast_milk] =
       [\<lparr>newArticleId = Some ''milk'', newCustomName = None, newNeededQuantity = 5000,
         newRecommendedPacks = 1, newReason = ''FORECAST''\<rparr>]
   \<and> findArticle storeSugar ''sugar'' = Some article_sugar
   \<and> minStock article_sugar = Some 1
   \<and> recipeNeedOf (requiredIngredients storeSugar 1 10) ''sugar'' = None
   \<and> forecastOf [] ''sugar'' = None
   \<and> currentStock storeSugar ''sugar'' = 0.99996
   \<and> roundQuantity (0 + 0 + 1 - 0.99996) = 0
   \<and> generateItems storeSugar 1 10 [] =
       [\<lparr>newArticleId = Some ''sugar'', newCustomName = None, newNeededQuantity = 0,
         newRecommendedPacks = 0, newReason = ''LOW_STOCK''\<rparr>]"
  by (simp add: generate_defs generate_stores query_defs unit_eval store_defs forecast_milk_def
      storeSugar_def article_sugar_def recipeNeedOf_def forecastOf_def)

subsection \<open>The sign of the stored quantity\<close>

lemma mathRound_nonneg: "0 \<le> x \<Longrightarrow> 0 \<le> mathRound x"
  by (simp add: mathRound_def)

lemma round2_nonneg: "0 \<le> x \<Longrightarrow> 0 \<le> round2 x"
  by (simp add: round2_def mathRound_nonneg)

lemma roundQuantity_nonneg: "0 \<le> x \<Longrightarrow> 0 \<le> roundQuantity x"
  by (simp add: roundQuantity_def mathRound_nonneg)

lemma recipeItem_nonneg: "recipeItem us m req = Some i \<Longrightarrow> 0 \<le> newNeededQuantity i"
  by (auto simp: recipeItem_def Let_def round2_nonneg split: if_splits)

lemma forecastItem_nonneg: "forecastItem us m f = Some i \<Longrightarrow> 0 \<le> newNeededQuantity i"
  by (auto simp: forecastItem_def Let_def round2_nonneg split: if_splits)

lemma lowStockItem_nonneg: "lowStockItem st us m art = Some i \<Longrightarrow> 0 \<le> newNeededQuantity i"
  by (auto simp: lowStockItem_def Let_def round2_nonneg roundQuantity_nonneg
      split: if_splits option.splits)

lemma recipeLoop_nonneg:
  "\<forall>i\<in>set acc. 0 \<le> newNeededQuantity i
   \<Longrightarrow> \<forall>i\<in>set (fst (recipeLoop us m rs acc p)). 0 \<le> newNeededQuantity i"
proof (induction rs arbitrary: acc p)
  case Nil
  then show ?case by simp
next
  case (Cons r rs)
  show ?case
    unfolding recipeLoop.simps
    by (rule Cons.IH) (use Cons.prems recipeItem_nonneg in \<open>auto split: option.splits\<close>)
qed

lemma forecastLoop_nonneg:
  "\<forall>i\<in>set acc. 0 \<le> newNeededQuantity i
   \<Longrightarrow> \<forall>i\<in>set (fst (forecastLoop us m fs acc p)). 0 \<le> newNeededQuantity i"
proof (induction fs arbitrary: acc p)
  case Nil
  then show ?case by simp
next
  case (Cons f fs)
  show ?case
  proof (cases "fArticleId f \<in> p")
    case True
    then show ?thesis using Cons.IH[OF Cons.prems] by simp
  next
    case False
    have "\<forall>i\<in>set (case forecastItem us m f of Some new \<Rightarrow> acc @ [new] | None \<Rightarrow> acc).
            0 \<le> newNeededQuantity i"
      using Cons.prems forecastItem_nonneg by (auto split: option.splits)
    from Cons.IH[OF this] False show ?thesis by simp
  qed
qed

lemma lowStockLoop_nonneg:
  "\<forall>i\<in>set acc. 0 \<le> newNeededQuantity i
   \<Longrightarrow> \<forall>i\<in>set (lowStockLoop st us m as acc p). 0 \<le> newNeededQuantity i"
proof (induction as arbitrary: acc)
  case Nil
  then show ?case by simp
next
  case (Cons x as)
  show ?case
  proof (cases "articleId x \<in> p")
    case True
    then show ?thesis using Cons.IH[OF Cons.prems] by simp
  next
    case False
    have "\<forall>i\<in>set (case lowStockItem st us m x of Some new \<Rightarrow> acc @ [new] | None \<Rightarrow> acc).
            0 \<le> newNeededQuantity i"
      using Cons.prems lowStockItem_nonneg by (auto split: option.splits)
    from Cons.IH[OF this] False show ?thesis by simp
  qed
qed

text \<open>
  What the code guarantees: a generated item never stores a negative quantity, and a
  manually added item stores a strictly positive one.
\<close>

lemma generateItems_nonneg:
  "i \<in> set (generateItems st d1 d2 fc) \<Longrightarrow> 0 \<le> newNeededQuantity i"
proof -
  let ?reqs = "requiredIngredients st d1 d2"
  let ?m = "buildMaps st ?reqs fc"
  obtain i1 p1 where l1: "recipeLoop (units st) ?m (map snd ?reqs) [] {} = (i1, p1)"
    by (cases "recipeLoop (units st) ?m (map snd ?reqs) [] {}")
  obtain i2 p2 where l2: "forecastLoop (units st) ?m fc i1 p1 = (i2, p2)"
    by (cases "forecastLoop (units st) ?m fc i1 p1")
  have "\<forall>i\<in>set i1. 0 \<le> newNeededQuantity i"
    using recipeLoop_nonneg[of "[]" "units st" ?m "map snd ?reqs" "{}"] l1 by simp
  then have "\<forall>i\<in>set i2. 0 \<le> newNeededQuantity i"
    using forecastLoop_nonneg[of i1 "units st" ?m fc p1] l2 by simp
  then have "\<forall>i\<in>set (lowStockLoop st (units st) ?m (allArticlesWithMinStock st) i2 p2).
               0 \<le> newNeededQuantity i"
    by (rule lowStockLoop_nonneg)
  moreover assume "i \<in> set (generateItems st d1 d2 fc)"
  ultimately show ?thesis
    by (simp add: generateItems_def Let_def l1 l2)
qed

lemma addItem_positive: "addItem uuid body = Inr item \<Longrightarrow> 0 < neededQuantity item"
  by (auto simp: addItem_def addItemSchema_def split: if_splits)

text \<open>
  Claim C4 at the input where the code departs from it. A planned recipe needs 4 g of
  salt, an article kept in kg with no stock. The need in the article's unit is 0.004,
  which the 4-decimal rounding keeps and the test \<open>totalNeed > 0\<close> lets through; the item
  is then stored with that need rounded to 2 decimals, which is 0.
\<close>

theorem generateItems_zero_quantity:
  "recipeNeedOf (requiredIngredients storeSalt 1 10) ''salt'' = Some 0.004
   \<and> currentStock storeSalt ''salt'' = 0
   \<and> roundQuantity (0.004 + 0 + 0 - 0) = 0.004
   \<and> generateItems storeSalt 1 10 [] =
       [\<lparr>newArticleId = Some ''salt'', newCustomName = Some ''Salt'', newNeededQuantity = 0,
         newRecommendedPacks = 1, newReason = ''RECIPE''\<rparr>]"
  by (simp add: generate_defs generate_stores query_defs unit_eval recipeNeedOf_def
      ceiling_eq_iff)

subsection \<open>Recommended packs\<close>

text \<open>
  The function itself: where it knows the package of the article, with a positive size
  that converts to the size \<open>s\<close> in the unit of the need, it returns the need divided by
  \<open>s\<close> and rounded up, and that many packs cover the need when \<open>s\<close> is positive; in every
  other case it returns 1.
\<close>

lemma calculateRecommendedPacks_ceil:
  assumes "a \<noteq> []" and "pkgs a = Some p" and "0 < pkgSize p"
    and "(if pkgUnit p \<noteq> u then convertQuantityBetweenUnits us (pkgSize p) (pkgUnit p) u
          else Some (pkgSize p)) = Some s"
  shows "calculateRecommendedPacks us pkgs (Some a) n u = \<lceil>n / s\<rceil>"
    and "0 < s \<Longrightarrow> n \<le> of_int (calculateRecommendedPacks us pkgs (Some a) n u) * s"
proof -
  show eq: "calculateRecommendedPacks us pkgs (Some a) n u = \<lceil>n / s\<rceil>"
    using assms by (simp add: calculateRecommendedPacks_def mathCeil_def)
  assume s: "0 < s"
  have "n / s \<le> of_int \<lceil>n / s\<rceil>" by (rule le_of_int_ceiling)
  then have "n \<le> of_int \<lceil>n / s\<rceil> * s"
    by (simp only: pos_divide_le_eq[OF s])
  then show "n \<le> of_int (calculateRecommendedPacks us pkgs (Some a) n u) * s"
    unfolding eq .
qed

lemma calculateRecommendedPacks_fallback:
  "calculateRecommendedPacks us pkgs None n u = 1"
  "calculateRecommendedPacks us pkgs (Some []) n u = 1"
  "pkgs a = None \<Longrightarrow> calculateRecommendedPacks us pkgs (Some a) n u = 1"
  "pkgs a = Some p \<Longrightarrow> pkgSize p \<le> 0 \<Longrightarrow> calculateRecommendedPacks us pkgs (Some a) n u = 1"
  "pkgs a = Some p \<Longrightarrow> pkgUnit p \<noteq> u
   \<Longrightarrow> convertQuantityBetweenUnits us (pkgSize p) (pkgUnit p) u = None
   \<Longrightarrow> calculateRecommendedPacks us pkgs (Some a) n u = 1"
  by (simp_all add: calculateRecommendedPacks_def)

text \<open>
  Claim C9 at the input where the code departs from it. Eggs come in packages of 10
  pieces and are kept in pieces; they have no minimum stock and no planned recipe uses
  them. With a forecast of 25 pieces the item has a positive need of 25 and a linked
  article whose package size is positive and already in the unit of the need, so the
  claim gives 3 packs. The package table was only filled for the articles of the recipes
  and for those with a minimum stock, so it has no row for eggs and the item gets 1 pack.
\<close>

theorem generateItems_forecast_only_packs:
  "findArticle storeEggs ''eggs'' = Some article_eggs
   \<and> packageSize article_eggs = 10 \<and> packageUnit article_eggs = defaultUnit article_eggs
   \<and> packageInfoMap (buildMaps storeEggs (requiredIngredients storeEggs 1 10) [forecast_eggs])
        ''eggs'' = None
   \<and> generateItems storeEggs 1 10 [forecast_eggs] =
       [\<lparr>newArticleId = Some ''eggs'', newCustomName = None, newNeededQuantity = 25,
         newRecommendedPacks = 1, newReason = ''FORECAST''\<rparr>]
   \<and> mathCeil (25 / packageSize article_eggs) = 3"
  by (simp add: generate_defs generate_stores query_defs unit_eval)

end
